(* ===== verification/Prelude.thy ===== *)
theory Prelude
  imports Main "HOL-Library.Word"
begin

unbundle bit_operations_syntax

text \<open>
  What every component of the development shares: the names of the C integer types, the
  promotions and truncations that C applies around them, the bit-level lemmas that the codec
  proofs need, and the fact collections (\<open>named_theorems\<close>) the component proofs draw on.
\<close>

section \<open>Fact collections\<close>

named_theorems cec_defs \<open>definitions of the CEC message builders and parsers\<close>
named_theorems cec_wf \<open>every CEC builder keeps the message well formed\<close>
named_theorems byte_codec \<open>encode and decode of one operand byte are inverse\<close>
named_theorems wp_intro \<open>weakest-precondition rules, one per primitive and control construct\<close>
named_theorems os_frame \<open>what a primitive leaves unchanged\<close>

section \<open>C integer types\<close>

type_synonym u8 = "8 word"
type_synonym u16 = "16 word"
type_synonym u32 = "32 word"
type_synonym u64 = "64 word"
type_synonym byte = "8 word"

text \<open>
  C computes on \<open>int\<close> or \<open>unsigned int\<close>: an operand of a narrower unsigned type is promoted
  (zero extended) to 32 bits first, and a store into a narrower object truncates. The operands
  met here are unsigned and small enough that the sign bit is never reached.
\<close>

abbreviation i8 :: "u8 \<Rightarrow> u32" where "i8 x \<equiv> ucast x"
abbreviation i16 :: "u16 \<Rightarrow> u32" where "i16 x \<equiv> ucast x"
abbreviation to_u8 :: "u32 \<Rightarrow> u8" where "to_u8 x \<equiv> ucast x"
abbreviation to_u16 :: "u32 \<Rightarrow> u16" where "to_u16 x \<equiv> ucast x"

section \<open>Bits of bounded words\<close>

lemma word_bit_less:
  fixes a :: "'a::len word"
  assumes "a < 2 ^ k" and "bit a n"
  shows "n < k"
proof -
  from assms(1) have "take_bit k a = a"
    by (simp add: take_bit_eq_mask less_mask_eq)
  with assms(2) have "bit (take_bit k a) n" by simp
  then show ?thesis by (simp add: bit_take_bit_iff)
qed

text \<open>The bound written with a numeral, as the operand ranges are: \<open>a < 16\<close> has 4 bits.\<close>

lemma word_bit_bounds:
  fixes a :: "'a::len word"
  shows "a < 2 \<Longrightarrow> bit a n \<Longrightarrow> n < 1"
    and "a < 4 \<Longrightarrow> bit a n \<Longrightarrow> n < 2"
    and "a < 16 \<Longrightarrow> bit a n \<Longrightarrow> n < 4"
    and "a < 64 \<Longrightarrow> bit a n \<Longrightarrow> n < 6"
    and "a < 128 \<Longrightarrow> bit a n \<Longrightarrow> n < 7"
    and "a < 256 \<Longrightarrow> bit a n \<Longrightarrow> n < 8"
    and "a < 1024 \<Longrightarrow> bit a n \<Longrightarrow> n < 10"
    and "a < 0x1000000 \<Longrightarrow> bit a n \<Longrightarrow> n < 24"
  using word_bit_less [of a 1 n] word_bit_less [of a 2 n] word_bit_less [of a 4 n]
    word_bit_less [of a 6 n] word_bit_less [of a 7 n] word_bit_less [of a 8 n]
    word_bit_less [of a 10 n] word_bit_less [of a 24 n]
  by simp_all

text \<open>The same bounds as rewrite rules: the high bits are clear.\<close>

lemma word_high_bits:
  fixes a :: "'a::len word"
  shows "a < 2 \<Longrightarrow> 1 \<le> n \<Longrightarrow> \<not> bit a n"
    and "a < 4 \<Longrightarrow> 2 \<le> n \<Longrightarrow> \<not> bit a n"
    and "a < 16 \<Longrightarrow> 4 \<le> n \<Longrightarrow> \<not> bit a n"
    and "a < 64 \<Longrightarrow> 6 \<le> n \<Longrightarrow> \<not> bit a n"
    and "a < 128 \<Longrightarrow> 7 \<le> n \<Longrightarrow> \<not> bit a n"
  by (auto dest: word_bit_bounds)

lemma bit_int_16: "bit (0x10 :: int) k \<longleftrightarrow> k = 4"
proof -
  have "(0x10 :: int) = 2 ^ 4" by simp
  then show ?thesis by (simp only: bit_exp_iff) auto
qed

lemma and_masks:
  fixes x :: "'a::len word"
  shows "x AND 3 = take_bit 2 x" and "x AND 0xf = take_bit 4 x"
    and "x AND 0x3f = take_bit 6 x" and "x AND 0x7f = take_bit 7 x"
    and "x AND 0xff = take_bit 8 x"
  by (simp_all add: take_bit_eq_mask mask_eq_exp_minus_1)

section \<open>Promotion and truncation\<close>

lemma to_u8_i8 [simp]: "to_u8 (i8 x) = x"
  by (rule bit_word_eqI) (auto simp: bit_simps)

lemma unat_i8 [simp]: "unat (i8 x) = unat x"
  using unsigned_less [of x, where 'a = nat]
  by (simp add: unsigned_ucast_eq take_bit_nat_eq_self)

lemma i8_less_iff: "i8 x < i8 y \<longleftrightarrow> x < y" and i8_le_iff: "i8 x \<le> i8 y \<longleftrightarrow> x \<le> y"
  by (simp_all only: word_less_nat_alt word_le_nat_alt unat_i8)

lemma i8_less_numerals [simp]:
  "i8 x < 2 \<longleftrightarrow> x < 2" "i8 x < 4 \<longleftrightarrow> x < 4" "i8 x < 16 \<longleftrightarrow> x < 16"
  "i8 x < 64 \<longleftrightarrow> x < 64" "i8 x < 128 \<longleftrightarrow> x < 128"
  using i8_less_iff [of x 2] i8_less_iff [of x 4] i8_less_iff [of x 16] i8_less_iff [of x 64]
    i8_less_iff [of x 128]
  by simp_all

text \<open>Lengths are small numbers in 32 bits.\<close>

lemma unat_add_small:
  fixes a b :: u32
  shows "unat a + unat b < 2 ^ 32 \<Longrightarrow> unat (a + b) = unat a + unat b"
  by (simp add: unat_word_ariths)

lemma unat_of_nat_small: "n < 2 ^ 32 \<Longrightarrow> unat (of_nat n :: u32) = n"
  by (simp add: unat_of_nat take_bit_nat_eq_self)

section \<open>Big-endian operand bytes\<close>

text \<open>\<open>(hi << 8) | lo\<close> of the bytes \<open>x >> 8\<close> and \<open>x & 0xff\<close> is \<open>x\<close> again.\<close>

lemma be16_roundtrip [byte_codec]:
  "to_u16 (push_bit 8 (i8 (to_u8 (drop_bit 8 (i16 x)))) OR i8 (to_u8 (i16 x AND 0xff))) = x"
  by (rule bit_word_eqI) (auto simp: bit_simps and_masks)

text \<open>The same for 24-bit values kept in 32 bits (vendor identifiers, audio descriptors).\<close>

lemma be24_roundtrip [byte_codec]:
  assumes "x < 0x1000000"
  shows "push_bit 16 (i8 (to_u8 (drop_bit 16 x)))
      OR push_bit 8 (i8 (to_u8 (drop_bit 8 x AND 0xff))) OR i8 (to_u8 (x AND 0xff)) = x"
  by (rule bit_word_eqI)
    (use assms in \<open>auto simp: bit_simps and_masks dest: word_bit_bounds\<close>)

lemma be24_roundtrip_left [byte_codec]:
  assumes "x < 0x1000000"
  shows "(push_bit 16 (i8 (to_u8 (drop_bit 16 x)))
      OR push_bit 8 (i8 (to_u8 (drop_bit 8 x AND 0xff)))) OR i8 (to_u8 (x AND 0xff)) = x"
  using be24_roundtrip [OF assms] by (simp add: or.assoc)

end
