(* ===== verification/Cec.thy ===== *)
theory Cec
  imports Prelude
begin

text \<open>
  The CEC message structure of \<open>include/linux/cec.h\<close>: \<open>struct cec_msg\<close> with its sixteen payload
  bytes, the inline functions that read and initialise its header byte, the transmit/receive
  status test and the logical-address predicates. The message builders and parsers of
  \<open>include/linux/cec-funcs.h\<close> are in the theories that import this one.
\<close>

section \<open>struct cec_msg\<close>

text \<open>
  The fields carry the prefix \<open>m_\<close> because several of them (\<open>len\<close>, \<open>reply\<close>) are also names of
  parameters. \<open>m_oob\<close> is a ghost field: it records a store outside \<open>msg[CEC_MAX_MSG_SIZE]\<close>,
  which in C would overwrite the fields behind the array.
\<close>

abbreviation (input) CEC_MAX_MSG_SIZE :: nat where "CEC_MAX_MSG_SIZE \<equiv> 16"

record cec_msg =
  m_tx_ts :: u64
  m_rx_ts :: u64
  m_len :: u32
  m_timeout :: u32
  m_sequence :: u32
  m_flags :: u32
  m_msg :: "u8 list"
  m_reply :: u8
  m_rx_status :: u8
  m_tx_status :: u8
  m_tx_arb_lost_cnt :: u8
  m_tx_nack_cnt :: u8
  m_tx_low_drive_cnt :: u8
  m_tx_error_cnt :: u8
  m_oob :: bool

text \<open>A read \<open>msg->msg[i]\<close> and a store \<open>msg->msg[i] = v\<close>.\<close>

definition rd :: "cec_msg \<Rightarrow> nat \<Rightarrow> u8" where
  "rd m i = m_msg m ! i"

definition st :: "nat \<Rightarrow> u8 \<Rightarrow> cec_msg \<Rightarrow> cec_msg" where
  "st i v m = (if i < CEC_MAX_MSG_SIZE then m\<lparr>m_msg := (m_msg m)[i := v]\<rparr>
     else m\<lparr>m_oob := True\<rparr>)"

text \<open>\<open>memcpy (msg->msg + i, bs, length bs)\<close>.\<close>

fun copy_in :: "nat \<Rightarrow> u8 list \<Rightarrow> cec_msg \<Rightarrow> cec_msg" where
  "copy_in i [] m = m"
| "copy_in i (b # bs) m = copy_in (Suc i) bs (st i b m)"

section \<open>Header byte, initialisation and reply\<close>

definition cec_msg_initiator :: "cec_msg \<Rightarrow> u8" where
  "cec_msg_initiator m = to_u8 (drop_bit 4 (i8 (rd m 0)))"

definition cec_msg_destination :: "cec_msg \<Rightarrow> u8" where
  "cec_msg_destination m = to_u8 (i8 (rd m 0) AND 0xf)"

definition cec_msg_opcode :: "cec_msg \<Rightarrow> int" where
  "cec_msg_opcode m = (if m_len m > 1 then uint (rd m 1) else -1)"

definition cec_msg_is_broadcast :: "cec_msg \<Rightarrow> bool" where
  "cec_msg_is_broadcast m \<longleftrightarrow> i8 (rd m 0) AND 0xf = 0xf"

definition cec_msg_zero :: cec_msg where
  "cec_msg_zero = \<lparr>m_tx_ts = 0, m_rx_ts = 0, m_len = 0, m_timeout = 0, m_sequence = 0,
     m_flags = 0, m_msg = replicate CEC_MAX_MSG_SIZE 0, m_reply = 0, m_rx_status = 0,
     m_tx_status = 0, m_tx_arb_lost_cnt = 0, m_tx_nack_cnt = 0, m_tx_low_drive_cnt = 0,
     m_tx_error_cnt = 0, m_oob = False\<rparr>"

text \<open>\<open>memset\<close> clears whatever the structure held before, so the old contents do not matter.\<close>

definition cec_msg_init :: "u8 \<Rightarrow> u8 \<Rightarrow> cec_msg" where
  "cec_msg_init initiator destination =
     (let m = cec_msg_zero;
          m = st 0 (to_u8 (push_bit 4 (i8 initiator) OR i8 destination)) m;
          m = m\<lparr>m_len := 1\<rparr>
      in m)"

text \<open>\<open>msg\<close> and \<open>orig\<close> may be the same object: \<open>cec_msg_set_reply_to m m\<close>.\<close>

definition cec_msg_set_reply_to :: "cec_msg \<Rightarrow> cec_msg \<Rightarrow> cec_msg" where
  "cec_msg_set_reply_to m orig =
     (let m = st 0 (to_u8 (push_bit 4 (i8 (cec_msg_destination orig))
                 OR i8 (cec_msg_initiator orig))) m;
          m = m\<lparr>m_timeout := 0, m_reply := 0\<rparr>
      in m)"

section \<open>Status\<close>

abbreviation (input) CEC_TX_STATUS_OK :: u8 where "CEC_TX_STATUS_OK \<equiv> 1"
abbreviation (input) CEC_RX_STATUS_OK :: u8 where "CEC_RX_STATUS_OK \<equiv> 1"
abbreviation (input) CEC_RX_STATUS_FEATURE_ABORT :: u8 where "CEC_RX_STATUS_FEATURE_ABORT \<equiv> 4"

definition cec_msg_status_is_ok :: "cec_msg \<Rightarrow> bool" where
  "cec_msg_status_is_ok m =
     (if m_tx_status m \<noteq> 0 \<and> m_tx_status m AND CEC_TX_STATUS_OK = 0 then False
      else if m_rx_status m \<noteq> 0 \<and> m_rx_status m AND CEC_RX_STATUS_OK = 0 then False
      else if m_tx_status m = 0 \<and> m_rx_status m = 0 then False
      else m_rx_status m AND CEC_RX_STATUS_FEATURE_ABORT = 0)"

section \<open>Logical addresses\<close>

abbreviation (input) CEC_LOG_ADDR_MASK_TV :: u32 where "CEC_LOG_ADDR_MASK_TV \<equiv> push_bit 0 1"
abbreviation (input) CEC_LOG_ADDR_MASK_RECORD :: u32 where
  "CEC_LOG_ADDR_MASK_RECORD \<equiv> push_bit 1 1 OR push_bit 2 1 OR push_bit 9 1"
abbreviation (input) CEC_LOG_ADDR_MASK_TUNER :: u32 where
  "CEC_LOG_ADDR_MASK_TUNER \<equiv> push_bit 3 1 OR push_bit 6 1 OR push_bit 7 1 OR push_bit 10 1"
abbreviation (input) CEC_LOG_ADDR_MASK_PLAYBACK :: u32 where
  "CEC_LOG_ADDR_MASK_PLAYBACK \<equiv> push_bit 4 1 OR push_bit 8 1 OR push_bit 11 1"
abbreviation (input) CEC_LOG_ADDR_MASK_AUDIOSYSTEM :: u32 where
  "CEC_LOG_ADDR_MASK_AUDIOSYSTEM \<equiv> push_bit 5 1"
abbreviation (input) CEC_LOG_ADDR_MASK_BACKUP :: u32 where
  "CEC_LOG_ADDR_MASK_BACKUP \<equiv> push_bit 12 1 OR push_bit 13 1"
abbreviation (input) CEC_LOG_ADDR_MASK_SPECIFIC :: u32 where
  "CEC_LOG_ADDR_MASK_SPECIFIC \<equiv> push_bit 14 1"
abbreviation (input) CEC_LOG_ADDR_MASK_UNREGISTERED :: u32 where
  "CEC_LOG_ADDR_MASK_UNREGISTERED \<equiv> push_bit 15 1"

text \<open>The predicates return an \<open>int\<close> that callers test against zero.\<close>

definition cec_has_tv :: "u16 \<Rightarrow> bool" where
  "cec_has_tv log_addr_mask \<longleftrightarrow> i16 log_addr_mask AND CEC_LOG_ADDR_MASK_TV \<noteq> 0"
definition cec_has_record :: "u16 \<Rightarrow> bool" where
  "cec_has_record log_addr_mask \<longleftrightarrow> i16 log_addr_mask AND CEC_LOG_ADDR_MASK_RECORD \<noteq> 0"
definition cec_has_tuner :: "u16 \<Rightarrow> bool" where
  "cec_has_tuner log_addr_mask \<longleftrightarrow> i16 log_addr_mask AND CEC_LOG_ADDR_MASK_TUNER \<noteq> 0"
definition cec_has_playback :: "u16 \<Rightarrow> bool" where
  "cec_has_playback log_addr_mask \<longleftrightarrow> i16 log_addr_mask AND CEC_LOG_ADDR_MASK_PLAYBACK \<noteq> 0"
definition cec_has_audiosystem :: "u16 \<Rightarrow> bool" where
  "cec_has_audiosystem log_addr_mask \<longleftrightarrow> i16 log_addr_mask AND CEC_LOG_ADDR_MASK_AUDIOSYSTEM \<noteq> 0"
definition cec_has_backup :: "u16 \<Rightarrow> bool" where
  "cec_has_backup log_addr_mask \<longleftrightarrow> i16 log_addr_mask AND CEC_LOG_ADDR_MASK_BACKUP \<noteq> 0"
definition cec_has_specific :: "u16 \<Rightarrow> bool" where
  "cec_has_specific log_addr_mask \<longleftrightarrow> i16 log_addr_mask AND CEC_LOG_ADDR_MASK_SPECIFIC \<noteq> 0"
definition cec_is_unregistered :: "u16 \<Rightarrow> bool" where
  "cec_is_unregistered log_addr_mask \<longleftrightarrow> i16 log_addr_mask AND CEC_LOG_ADDR_MASK_UNREGISTERED \<noteq> 0"
definition cec_is_unconfigured :: "u16 \<Rightarrow> bool" where
  "cec_is_unconfigured log_addr_mask \<longleftrightarrow> log_addr_mask = 0"

lemmas cec_has_defs =
  cec_has_tv_def cec_has_record_def cec_has_tuner_def cec_has_playback_def
  cec_has_audiosystem_def cec_has_backup_def cec_has_specific_def cec_is_unregistered_def

record cec_log_addrs =
  la_log_addr :: "u8 list"
  la_log_addr_mask :: u16
  la_cec_version :: u8
  la_num_log_addrs :: u8
  la_vendor_id :: u32
  la_flags :: u32
  la_osd_name :: "u8 list"
  la_primary_device_type :: "u8 list"
  la_log_addr_type :: "u8 list"
  la_all_device_types :: "u8 list"
  la_features :: "u8 list list"

abbreviation (input) CEC_LOG_ADDR_BACKUP_1 :: u8 where "CEC_LOG_ADDR_BACKUP_1 \<equiv> 12"
abbreviation (input) CEC_LOG_ADDR_SPECIFIC :: u8 where "CEC_LOG_ADDR_SPECIFIC \<equiv> 14"
abbreviation (input) CEC_LOG_ADDR_UNREGISTERED :: u8 where "CEC_LOG_ADDR_UNREGISTERED \<equiv> 15"
abbreviation (input) CEC_OP_PRIM_DEVTYPE_TV :: u8 where "CEC_OP_PRIM_DEVTYPE_TV \<equiv> 0"
abbreviation (input) CEC_OP_PRIM_DEVTYPE_SWITCH :: u8 where "CEC_OP_PRIM_DEVTYPE_SWITCH \<equiv> 6"
abbreviation (input) CEC_OP_PRIM_DEVTYPE_PROCESSOR :: u8 where "CEC_OP_PRIM_DEVTYPE_PROCESSOR \<equiv> 7"
abbreviation (input) CEC_LOG_ADDRS_FL_CDC_ONLY :: u32 where "CEC_LOG_ADDRS_FL_CDC_ONLY \<equiv> 4"

definition cec_is_2nd_tv :: "cec_log_addrs \<Rightarrow> bool" where
  "cec_is_2nd_tv las \<longleftrightarrow> la_num_log_addrs las \<noteq> 0 \<and>
     la_log_addr las ! 0 \<ge> CEC_LOG_ADDR_SPECIFIC \<and>
     la_primary_device_type las ! 0 = CEC_OP_PRIM_DEVTYPE_TV"

definition cec_is_processor :: "cec_log_addrs \<Rightarrow> bool" where
  "cec_is_processor las \<longleftrightarrow> la_num_log_addrs las \<noteq> 0 \<and>
     la_log_addr las ! 0 \<ge> CEC_LOG_ADDR_BACKUP_1 \<and>
     la_primary_device_type las ! 0 = CEC_OP_PRIM_DEVTYPE_PROCESSOR"

definition cec_is_switch :: "cec_log_addrs \<Rightarrow> bool" where
  "cec_is_switch las \<longleftrightarrow> la_num_log_addrs las = 1 \<and>
     la_log_addr las ! 0 = CEC_LOG_ADDR_UNREGISTERED \<and>
     la_primary_device_type las ! 0 = CEC_OP_PRIM_DEVTYPE_SWITCH \<and>
     la_flags las AND CEC_LOG_ADDRS_FL_CDC_ONLY = 0"

definition cec_is_cdc_only :: "cec_log_addrs \<Rightarrow> bool" where
  "cec_is_cdc_only las \<longleftrightarrow> la_num_log_addrs las = 1 \<and>
     la_log_addr las ! 0 = CEC_LOG_ADDR_UNREGISTERED \<and>
     la_primary_device_type las ! 0 = CEC_OP_PRIM_DEVTYPE_SWITCH \<and>
     la_flags las AND CEC_LOG_ADDRS_FL_CDC_ONLY \<noteq> 0"

section \<open>Well-formed messages\<close>

text \<open>
  The payload array has its sixteen bytes, nothing was stored outside it, and the length field
  counts bytes of the array.
\<close>

definition good_msg :: "cec_msg \<Rightarrow> bool" where
  "good_msg m \<longleftrightarrow> length (m_msg m) = CEC_MAX_MSG_SIZE \<and> \<not> m_oob m \<and>
     1 \<le> m_len m \<and> m_len m \<le> 16"

text \<open>
  What a builder may do to a message: keep it well formed and keep its initiator; the
  destination stays or becomes the broadcast address.
\<close>

definition keeps :: "cec_msg \<Rightarrow> cec_msg \<Rightarrow> bool" where
  "keeps m m' \<longleftrightarrow> (good_msg m \<longrightarrow>
     good_msg m' \<and> cec_msg_initiator m' = cec_msg_initiator m \<and>
     (cec_msg_destination m' = cec_msg_destination m \<or> cec_msg_is_broadcast m'))"

lemma st_fields [simp]:
  "m_len (st i v m) = m_len m" "m_reply (st i v m) = m_reply m"
  "m_timeout (st i v m) = m_timeout m" "length (m_msg (st i v m)) = length (m_msg m)"
  "m_oob (st i v m) = (m_oob m \<or> \<not> i < CEC_MAX_MSG_SIZE)"
  by (auto simp: st_def)

lemma rd_st [simp]:
  "i < CEC_MAX_MSG_SIZE \<Longrightarrow> length (m_msg m) = CEC_MAX_MSG_SIZE \<Longrightarrow>
     rd (st i v m) j = (if i = j then v else rd m j)"
  by (simp add: st_def rd_def nth_list_update)

lemma rd_field_upd [simp]:
  "rd (m\<lparr>m_len := l\<rparr>) i = rd m i" "rd (m\<lparr>m_reply := r\<rparr>) i = rd m i"
  "rd (m\<lparr>m_timeout := t\<rparr>) i = rd m i"
  by (simp_all add: rd_def)

lemma st_field_upd [simp]:
  "st i v (m\<lparr>m_len := l\<rparr>) = (st i v m)\<lparr>m_len := l\<rparr>"
  "st i v (m\<lparr>m_reply := r\<rparr>) = (st i v m)\<lparr>m_reply := r\<rparr>"
  by (simp_all add: st_def)

lemma copy_in_fields [simp]:
  "m_len (copy_in i bs m) = m_len m" "m_reply (copy_in i bs m) = m_reply m"
  "length (m_msg (copy_in i bs m)) = length (m_msg m)"
  by (induction i bs m rule: copy_in.induct) simp_all

lemma copy_in_oob [simp]:
  "i + length bs \<le> CEC_MAX_MSG_SIZE \<Longrightarrow> m_oob (copy_in i bs m) = m_oob m"
  by (induction i bs m rule: copy_in.induct) auto

lemma copy_in_rd:
  "length (m_msg m) = CEC_MAX_MSG_SIZE \<Longrightarrow> i + length bs \<le> CEC_MAX_MSG_SIZE \<Longrightarrow>
     rd (copy_in i bs m) j = (if i \<le> j \<and> j < i + length bs then bs ! (j - i) else rd m j)"
proof (induction i bs m arbitrary: j rule: copy_in.induct)
  case (2 i b bs m)
  then show ?case by (auto simp: nth_Cons' not_le less_Suc_eq_le)
qed auto

text \<open>The bytes a \<open>memcpy\<close> stored can be read back from the array.\<close>

lemma take_drop_copy_in:
  assumes "length (m_msg m) = CEC_MAX_MSG_SIZE" and "i + length bs \<le> CEC_MAX_MSG_SIZE"
  shows "take (length bs) (drop i (m_msg (copy_in i bs m))) = bs"
proof (rule nth_equalityI)
  show len: "length (take (length bs) (drop i (m_msg (copy_in i bs m)))) = length bs"
    using assms by simp
  fix j assume "j < length (take (length bs) (drop i (m_msg (copy_in i bs m))))"
  then have "j < length bs" using len by simp
  then have "take (length bs) (drop i (m_msg (copy_in i bs m))) ! j
      = rd (copy_in i bs m) (i + j)"
    using assms by (simp add: rd_def)
  also have "\<dots> = bs ! j"
    using assms \<open>j < length bs\<close> by (simp add: copy_in_rd)
  finally show "take (length bs) (drop i (m_msg (copy_in i bs m))) ! j = bs ! j" .
qed

lemma copy_in_rd_before [simp]:
  "length (m_msg m) = CEC_MAX_MSG_SIZE \<Longrightarrow> i + length bs \<le> CEC_MAX_MSG_SIZE \<Longrightarrow> j < i \<Longrightarrow>
     rd (copy_in i bs m) j = rd m j"
  by (simp add: copy_in_rd)

lemma broadcast_or [simp]:
  "to_u8 (drop_bit 4 (i8 (to_u8 (i8 x OR 0xf)))) = to_u8 (drop_bit 4 (i8 x))"
  "i8 (to_u8 (i8 x OR 0xf)) AND 0xf = 0xf"
proof -
  have mask4: "(0xf :: u32) = mask 4" by (simp add: mask_eq_exp_minus_1)
  show "to_u8 (drop_bit 4 (i8 (to_u8 (i8 x OR 0xf)))) = to_u8 (drop_bit 4 (i8 x))"
    unfolding mask4
    by (rule bit_word_eqI) (auto simp: bit_simps dest: bit_imp_le_length)
  show "i8 (to_u8 (i8 x OR 0xf)) AND 0xf = 0xf"
    unfolding mask4 by (rule bit_word_eqI) (auto simp: bit_simps)
qed

lemmas cec_kit = keeps_def good_msg_def cec_msg_initiator_def cec_msg_destination_def
  cec_msg_is_broadcast_def

end
