(* ===== verification/Cec_Types.thy ===== *)
theory Cec_Types
  imports Cec
begin

unbundle bit_operations_syntax

text \<open>
  The opcodes and operand values of \<open>include/linux/cec.h\<close> that the builders use, the operand
  structures of \<open>include/linux/cec-funcs.h\<close>, and the codec lemmas for operand bytes that the
  message theories share.
\<close>

section \<open>Opcodes and operand values\<close>

abbreviation (input) CEC_MSG_ACTIVE_SOURCE :: u8 where "CEC_MSG_ACTIVE_SOURCE \<equiv> 0x82"
abbreviation (input) CEC_MSG_IMAGE_VIEW_ON :: u8 where "CEC_MSG_IMAGE_VIEW_ON \<equiv> 0x04"
abbreviation (input) CEC_MSG_TEXT_VIEW_ON :: u8 where "CEC_MSG_TEXT_VIEW_ON \<equiv> 0x0d"
abbreviation (input) CEC_MSG_INACTIVE_SOURCE :: u8 where "CEC_MSG_INACTIVE_SOURCE \<equiv> 0x9d"
abbreviation (input) CEC_MSG_REQUEST_ACTIVE_SOURCE :: u8 where "CEC_MSG_REQUEST_ACTIVE_SOURCE \<equiv> 0x85"
abbreviation (input) CEC_MSG_ROUTING_CHANGE :: u8 where "CEC_MSG_ROUTING_CHANGE \<equiv> 0x80"
abbreviation (input) CEC_MSG_ROUTING_INFORMATION :: u8 where "CEC_MSG_ROUTING_INFORMATION \<equiv> 0x81"
abbreviation (input) CEC_MSG_SET_STREAM_PATH :: u8 where "CEC_MSG_SET_STREAM_PATH \<equiv> 0x86"
abbreviation (input) CEC_MSG_STANDBY :: u8 where "CEC_MSG_STANDBY \<equiv> 0x36"
abbreviation (input) CEC_MSG_RECORD_OFF :: u8 where "CEC_MSG_RECORD_OFF \<equiv> 0x0b"
abbreviation (input) CEC_MSG_RECORD_ON :: u8 where "CEC_MSG_RECORD_ON \<equiv> 0x09"
abbreviation (input) CEC_OP_RECORD_SRC_OWN :: u8 where "CEC_OP_RECORD_SRC_OWN \<equiv> 1"
abbreviation (input) CEC_OP_RECORD_SRC_DIGITAL :: u8 where "CEC_OP_RECORD_SRC_DIGITAL \<equiv> 2"
abbreviation (input) CEC_OP_RECORD_SRC_ANALOG :: u8 where "CEC_OP_RECORD_SRC_ANALOG \<equiv> 3"
abbreviation (input) CEC_OP_RECORD_SRC_EXT_PLUG :: u8 where "CEC_OP_RECORD_SRC_EXT_PLUG \<equiv> 4"
abbreviation (input) CEC_OP_RECORD_SRC_EXT_PHYS_ADDR :: u8 where "CEC_OP_RECORD_SRC_EXT_PHYS_ADDR \<equiv> 5"
abbreviation (input) CEC_OP_SERVICE_ID_METHOD_BY_DIG_ID :: u8 where "CEC_OP_SERVICE_ID_METHOD_BY_DIG_ID \<equiv> 0"
abbreviation (input) CEC_OP_SERVICE_ID_METHOD_BY_CHANNEL :: u8 where "CEC_OP_SERVICE_ID_METHOD_BY_CHANNEL \<equiv> 1"
abbreviation (input) CEC_OP_DIG_SERVICE_BCAST_SYSTEM_ATSC_GEN :: u8 where "CEC_OP_DIG_SERVICE_BCAST_SYSTEM_ATSC_GEN \<equiv> 0x01"
abbreviation (input) CEC_OP_DIG_SERVICE_BCAST_SYSTEM_ATSC_CABLE :: u8 where "CEC_OP_DIG_SERVICE_BCAST_SYSTEM_ATSC_CABLE \<equiv> 0x10"
abbreviation (input) CEC_OP_DIG_SERVICE_BCAST_SYSTEM_ATSC_SAT :: u8 where "CEC_OP_DIG_SERVICE_BCAST_SYSTEM_ATSC_SAT \<equiv> 0x11"
abbreviation (input) CEC_OP_DIG_SERVICE_BCAST_SYSTEM_ATSC_T :: u8 where "CEC_OP_DIG_SERVICE_BCAST_SYSTEM_ATSC_T \<equiv> 0x12"
abbreviation (input) CEC_MSG_RECORD_STATUS :: u8 where "CEC_MSG_RECORD_STATUS \<equiv> 0x0a"
abbreviation (input) CEC_MSG_RECORD_TV_SCREEN :: u8 where "CEC_MSG_RECORD_TV_SCREEN \<equiv> 0x0f"
abbreviation (input) CEC_MSG_CLEAR_ANALOGUE_TIMER :: u8 where "CEC_MSG_CLEAR_ANALOGUE_TIMER \<equiv> 0x33"
abbreviation (input) CEC_MSG_CLEAR_DIGITAL_TIMER :: u8 where "CEC_MSG_CLEAR_DIGITAL_TIMER \<equiv> 0x99"
abbreviation (input) CEC_MSG_CLEAR_EXT_TIMER :: u8 where "CEC_MSG_CLEAR_EXT_TIMER \<equiv> 0xa1"
abbreviation (input) CEC_MSG_SET_ANALOGUE_TIMER :: u8 where "CEC_MSG_SET_ANALOGUE_TIMER \<equiv> 0x34"
abbreviation (input) CEC_MSG_SET_DIGITAL_TIMER :: u8 where "CEC_MSG_SET_DIGITAL_TIMER \<equiv> 0x97"
abbreviation (input) CEC_MSG_SET_EXT_TIMER :: u8 where "CEC_MSG_SET_EXT_TIMER \<equiv> 0xa2"
abbreviation (input) CEC_MSG_SET_TIMER_PROGRAM_TITLE :: u8 where "CEC_MSG_SET_TIMER_PROGRAM_TITLE \<equiv> 0x67"
abbreviation (input) CEC_MSG_TIMER_CLEARED_STATUS :: u8 where "CEC_MSG_TIMER_CLEARED_STATUS \<equiv> 0x43"
abbreviation (input) CEC_MSG_TIMER_STATUS :: u8 where "CEC_MSG_TIMER_STATUS \<equiv> 0x35"
abbreviation (input) CEC_OP_PROG_INFO_NOT_ENOUGH_SPACE :: u8 where "CEC_OP_PROG_INFO_NOT_ENOUGH_SPACE \<equiv> 0x09"
abbreviation (input) CEC_OP_PROG_INFO_MIGHT_NOT_BE_ENOUGH_SPACE :: u8 where "CEC_OP_PROG_INFO_MIGHT_NOT_BE_ENOUGH_SPACE \<equiv> 0x0b"
abbreviation (input) CEC_OP_PROG_ERROR_DUPLICATE :: u8 where "CEC_OP_PROG_ERROR_DUPLICATE \<equiv> 0x0e"
abbreviation (input) CEC_MSG_CEC_VERSION :: u8 where "CEC_MSG_CEC_VERSION \<equiv> 0x9e"
abbreviation (input) CEC_MSG_GET_CEC_VERSION :: u8 where "CEC_MSG_GET_CEC_VERSION \<equiv> 0x9f"
abbreviation (input) CEC_MSG_GIVE_PHYSICAL_ADDR :: u8 where "CEC_MSG_GIVE_PHYSICAL_ADDR \<equiv> 0x83"
abbreviation (input) CEC_MSG_GET_MENU_LANGUAGE :: u8 where "CEC_MSG_GET_MENU_LANGUAGE \<equiv> 0x91"
abbreviation (input) CEC_MSG_REPORT_PHYSICAL_ADDR :: u8 where "CEC_MSG_REPORT_PHYSICAL_ADDR \<equiv> 0x84"
abbreviation (input) CEC_MSG_SET_MENU_LANGUAGE :: u8 where "CEC_MSG_SET_MENU_LANGUAGE \<equiv> 0x32"
abbreviation (input) CEC_MSG_REPORT_FEATURES :: u8 where "CEC_MSG_REPORT_FEATURES \<equiv> 0xa6"
abbreviation (input) CEC_OP_FEAT_EXT :: u8 where "CEC_OP_FEAT_EXT \<equiv> 0x80"
abbreviation (input) CEC_MSG_GIVE_FEATURES :: u8 where "CEC_MSG_GIVE_FEATURES \<equiv> 0xa5"
abbreviation (input) CEC_MSG_DECK_CONTROL :: u8 where "CEC_MSG_DECK_CONTROL \<equiv> 0x42"
abbreviation (input) CEC_MSG_DECK_STATUS :: u8 where "CEC_MSG_DECK_STATUS \<equiv> 0x1b"
abbreviation (input) CEC_MSG_GIVE_DECK_STATUS :: u8 where "CEC_MSG_GIVE_DECK_STATUS \<equiv> 0x1a"
abbreviation (input) CEC_OP_STATUS_REQ_OFF :: u8 where "CEC_OP_STATUS_REQ_OFF \<equiv> 2"
abbreviation (input) CEC_MSG_PLAY :: u8 where "CEC_MSG_PLAY \<equiv> 0x41"
abbreviation (input) CEC_MSG_GIVE_TUNER_DEVICE_STATUS :: u8 where "CEC_MSG_GIVE_TUNER_DEVICE_STATUS \<equiv> 0x08"
abbreviation (input) CEC_MSG_SELECT_ANALOGUE_SERVICE :: u8 where "CEC_MSG_SELECT_ANALOGUE_SERVICE \<equiv> 0x92"
abbreviation (input) CEC_MSG_SELECT_DIGITAL_SERVICE :: u8 where "CEC_MSG_SELECT_DIGITAL_SERVICE \<equiv> 0x93"
abbreviation (input) CEC_MSG_TUNER_DEVICE_STATUS :: u8 where "CEC_MSG_TUNER_DEVICE_STATUS \<equiv> 0x07"
abbreviation (input) CEC_MSG_TUNER_STEP_DECREMENT :: u8 where "CEC_MSG_TUNER_STEP_DECREMENT \<equiv> 0x06"
abbreviation (input) CEC_MSG_TUNER_STEP_INCREMENT :: u8 where "CEC_MSG_TUNER_STEP_INCREMENT \<equiv> 0x05"
abbreviation (input) CEC_MSG_DEVICE_VENDOR_ID :: u8 where "CEC_MSG_DEVICE_VENDOR_ID \<equiv> 0x87"
abbreviation (input) CEC_MSG_GIVE_DEVICE_VENDOR_ID :: u8 where "CEC_MSG_GIVE_DEVICE_VENDOR_ID \<equiv> 0x8c"
abbreviation (input) CEC_MSG_VENDOR_COMMAND :: u8 where "CEC_MSG_VENDOR_COMMAND \<equiv> 0x89"
abbreviation (input) CEC_MSG_VENDOR_COMMAND_WITH_ID :: u8 where "CEC_MSG_VENDOR_COMMAND_WITH_ID \<equiv> 0xa0"
abbreviation (input) CEC_MSG_VENDOR_REMOTE_BUTTON_DOWN :: u8 where "CEC_MSG_VENDOR_REMOTE_BUTTON_DOWN \<equiv> 0x8a"
abbreviation (input) CEC_MSG_VENDOR_REMOTE_BUTTON_UP :: u8 where "CEC_MSG_VENDOR_REMOTE_BUTTON_UP \<equiv> 0x8b"
abbreviation (input) CEC_MSG_SET_OSD_STRING :: u8 where "CEC_MSG_SET_OSD_STRING \<equiv> 0x64"
abbreviation (input) CEC_MSG_GIVE_OSD_NAME :: u8 where "CEC_MSG_GIVE_OSD_NAME \<equiv> 0x46"
abbreviation (input) CEC_MSG_SET_OSD_NAME :: u8 where "CEC_MSG_SET_OSD_NAME \<equiv> 0x47"
abbreviation (input) CEC_MSG_MENU_REQUEST :: u8 where "CEC_MSG_MENU_REQUEST \<equiv> 0x8d"
abbreviation (input) CEC_MSG_MENU_STATUS :: u8 where "CEC_MSG_MENU_STATUS \<equiv> 0x8e"
abbreviation (input) CEC_MSG_USER_CONTROL_PRESSED :: u8 where "CEC_MSG_USER_CONTROL_PRESSED \<equiv> 0x44"
abbreviation (input) CEC_MSG_USER_CONTROL_RELEASED :: u8 where "CEC_MSG_USER_CONTROL_RELEASED \<equiv> 0x45"
abbreviation (input) CEC_MSG_GIVE_DEVICE_POWER_STATUS :: u8 where "CEC_MSG_GIVE_DEVICE_POWER_STATUS \<equiv> 0x8f"
abbreviation (input) CEC_MSG_REPORT_POWER_STATUS :: u8 where "CEC_MSG_REPORT_POWER_STATUS \<equiv> 0x90"
abbreviation (input) CEC_MSG_FEATURE_ABORT :: u8 where "CEC_MSG_FEATURE_ABORT \<equiv> 0x00"
abbreviation (input) CEC_MSG_ABORT :: u8 where "CEC_MSG_ABORT \<equiv> 0xff"
abbreviation (input) CEC_MSG_GIVE_AUDIO_STATUS :: u8 where "CEC_MSG_GIVE_AUDIO_STATUS \<equiv> 0x71"
abbreviation (input) CEC_MSG_GIVE_SYSTEM_AUDIO_MODE_STATUS :: u8 where "CEC_MSG_GIVE_SYSTEM_AUDIO_MODE_STATUS \<equiv> 0x7d"
abbreviation (input) CEC_MSG_REPORT_AUDIO_STATUS :: u8 where "CEC_MSG_REPORT_AUDIO_STATUS \<equiv> 0x7a"
abbreviation (input) CEC_MSG_REPORT_SHORT_AUDIO_DESCRIPTOR :: u8 where "CEC_MSG_REPORT_SHORT_AUDIO_DESCRIPTOR \<equiv> 0xa3"
abbreviation (input) CEC_MSG_REQUEST_SHORT_AUDIO_DESCRIPTOR :: u8 where "CEC_MSG_REQUEST_SHORT_AUDIO_DESCRIPTOR \<equiv> 0xa4"
abbreviation (input) CEC_MSG_SET_SYSTEM_AUDIO_MODE :: u8 where "CEC_MSG_SET_SYSTEM_AUDIO_MODE \<equiv> 0x72"
abbreviation (input) CEC_MSG_SYSTEM_AUDIO_MODE_REQUEST :: u8 where "CEC_MSG_SYSTEM_AUDIO_MODE_REQUEST \<equiv> 0x70"
abbreviation (input) CEC_MSG_SYSTEM_AUDIO_MODE_STATUS :: u8 where "CEC_MSG_SYSTEM_AUDIO_MODE_STATUS \<equiv> 0x7e"
abbreviation (input) CEC_MSG_SET_AUDIO_RATE :: u8 where "CEC_MSG_SET_AUDIO_RATE \<equiv> 0x9a"
abbreviation (input) CEC_MSG_INITIATE_ARC :: u8 where "CEC_MSG_INITIATE_ARC \<equiv> 0xc0"
abbreviation (input) CEC_MSG_REPORT_ARC_INITIATED :: u8 where "CEC_MSG_REPORT_ARC_INITIATED \<equiv> 0xc1"
abbreviation (input) CEC_MSG_REPORT_ARC_TERMINATED :: u8 where "CEC_MSG_REPORT_ARC_TERMINATED \<equiv> 0xc2"
abbreviation (input) CEC_MSG_REQUEST_ARC_INITIATION :: u8 where "CEC_MSG_REQUEST_ARC_INITIATION \<equiv> 0xc3"
abbreviation (input) CEC_MSG_REQUEST_ARC_TERMINATION :: u8 where "CEC_MSG_REQUEST_ARC_TERMINATION \<equiv> 0xc4"
abbreviation (input) CEC_MSG_TERMINATE_ARC :: u8 where "CEC_MSG_TERMINATE_ARC \<equiv> 0xc5"
abbreviation (input) CEC_MSG_REQUEST_CURRENT_LATENCY :: u8 where "CEC_MSG_REQUEST_CURRENT_LATENCY \<equiv> 0xa7"
abbreviation (input) CEC_MSG_REPORT_CURRENT_LATENCY :: u8 where "CEC_MSG_REPORT_CURRENT_LATENCY \<equiv> 0xa8"
abbreviation (input) CEC_MSG_CDC_MESSAGE :: u8 where "CEC_MSG_CDC_MESSAGE \<equiv> 0xf8"
abbreviation (input) CEC_MSG_CDC_HEC_INQUIRE_STATE :: u8 where "CEC_MSG_CDC_HEC_INQUIRE_STATE \<equiv> 0x00"
abbreviation (input) CEC_MSG_CDC_HEC_REPORT_STATE :: u8 where "CEC_MSG_CDC_HEC_REPORT_STATE \<equiv> 0x01"
abbreviation (input) CEC_MSG_CDC_HEC_SET_STATE_ADJACENT :: u8 where "CEC_MSG_CDC_HEC_SET_STATE_ADJACENT \<equiv> 0x02"
abbreviation (input) CEC_MSG_CDC_HEC_SET_STATE :: u8 where "CEC_MSG_CDC_HEC_SET_STATE \<equiv> 0x03"
abbreviation (input) CEC_MSG_CDC_HEC_REQUEST_DEACTIVATION :: u8 where "CEC_MSG_CDC_HEC_REQUEST_DEACTIVATION \<equiv> 0x04"
abbreviation (input) CEC_MSG_CDC_HEC_NOTIFY_ALIVE :: u8 where "CEC_MSG_CDC_HEC_NOTIFY_ALIVE \<equiv> 0x05"
abbreviation (input) CEC_MSG_CDC_HEC_DISCOVER :: u8 where "CEC_MSG_CDC_HEC_DISCOVER \<equiv> 0x06"
abbreviation (input) CEC_MSG_CDC_HPD_SET_STATE :: u8 where "CEC_MSG_CDC_HPD_SET_STATE \<equiv> 0x10"
abbreviation (input) CEC_MSG_CDC_HPD_REPORT_STATE :: u8 where "CEC_MSG_CDC_HPD_REPORT_STATE \<equiv> 0x11"
abbreviation (input) CEC_PHYS_ADDR_INVALID :: u16 where "CEC_PHYS_ADDR_INVALID \<equiv> 0xffff"

section \<open>Operand structures\<close>

text \<open>
  \<open>struct cec_op_digital_service_id\<close> ends in a union of four structures. On the x86-64 layout
  all of them are made of three 16-bit words: \<open>transport_id\<close>, \<open>service_id\<close> and
  \<open>orig_network_id\<close> of \<open>arib\<close> and \<open>dvb\<close>; \<open>transport_id\<close> and \<open>program_number\<close> of \<open>atsc\<close>;
  \<open>channel_number_fmt\<close> (the low byte of the first word), \<open>major\<close> and \<open>minor\<close> of \<open>channel\<close>.
  The model keeps the three words, so writing one member is seen through the others.
\<close>

record cec_op_digital_service_id =
  ds_service_id_method :: u8
  ds_dig_bcast_system :: u8
  ds_w0 :: u16
  ds_w1 :: u16
  ds_w2 :: u16

abbreviation dvb_transport_id :: "cec_op_digital_service_id \<Rightarrow> u16" where
  "dvb_transport_id \<equiv> ds_w0"
abbreviation dvb_service_id :: "cec_op_digital_service_id \<Rightarrow> u16" where
  "dvb_service_id \<equiv> ds_w1"
abbreviation dvb_orig_network_id :: "cec_op_digital_service_id \<Rightarrow> u16" where
  "dvb_orig_network_id \<equiv> ds_w2"
abbreviation atsc_transport_id :: "cec_op_digital_service_id \<Rightarrow> u16" where
  "atsc_transport_id \<equiv> ds_w0"
abbreviation atsc_program_number :: "cec_op_digital_service_id \<Rightarrow> u16" where
  "atsc_program_number \<equiv> ds_w1"
abbreviation channel_major :: "cec_op_digital_service_id \<Rightarrow> u16" where
  "channel_major \<equiv> ds_w1"
abbreviation channel_minor :: "cec_op_digital_service_id \<Rightarrow> u16" where
  "channel_minor \<equiv> ds_w2"

definition channel_channel_number_fmt :: "cec_op_digital_service_id \<Rightarrow> u8" where
  "channel_channel_number_fmt d = ucast (ds_w0 d)"

definition set_channel_channel_number_fmt ::
    "u8 \<Rightarrow> cec_op_digital_service_id \<Rightarrow> cec_op_digital_service_id" where
  "set_channel_channel_number_fmt v d =
     d\<lparr>ds_w0 := push_bit 8 (drop_bit 8 (ds_w0 d)) OR ucast v\<rparr>"

text \<open>
  The unions of the next two structures are always read through the member their tag selects,
  so their members are separate fields here.
\<close>

record cec_op_record_src =
  rs_type :: u8
  rs_digital :: cec_op_digital_service_id
  rs_ana_bcast_type :: u8
  rs_ana_freq :: u16
  rs_bcast_system :: u8
  rs_plug :: u8
  rs_phys_addr :: u16

record cec_op_tuner_device_info =
  td_rec_flag :: u8
  td_tuner_display_info :: u8
  td_is_analog :: u8
  td_digital :: cec_op_digital_service_id
  td_ana_bcast_type :: u8
  td_ana_freq :: u16
  td_bcast_system :: u8

text \<open>
  The one-byte members of the union of \<open>struct cec_op_ui_command\<close> (\<open>play_mode\<close> and the others)
  share their byte with \<open>channel_identifier.channel_number_fmt\<close>.
\<close>

record cec_op_ui_command =
  ui_ui_cmd :: u8
  ui_has_opt_arg :: u8
  ui_byte0 :: u8
  ui_major :: u16
  ui_minor :: u16

abbreviation ui_play_mode :: "cec_op_ui_command \<Rightarrow> u8" where
  "ui_play_mode \<equiv> ui_byte0"
abbreviation ui_channel_number_fmt :: "cec_op_ui_command \<Rightarrow> u8" where
  "ui_channel_number_fmt \<equiv> ui_byte0"

section \<open>Appending a byte\<close>

text \<open>\<open>msg->msg[msg->len++] = v\<close>.\<close>

definition push_byte :: "u8 \<Rightarrow> cec_msg \<Rightarrow> cec_msg" where
  "push_byte v m = (st (unat (m_len m)) v m)\<lparr>m_len := m_len m + 1\<rparr>"

lemma push_byte_fields [simp]:
  "m_len (push_byte v m) = m_len m + 1" "m_reply (push_byte v m) = m_reply m"
  "length (m_msg (push_byte v m)) = length (m_msg m)"
  "m_oob (push_byte v m) = (m_oob m \<or> \<not> unat (m_len m) < CEC_MAX_MSG_SIZE)"
  by (simp_all add: push_byte_def)

lemma rd_push_byte [simp]:
  "length (m_msg m) = CEC_MAX_MSG_SIZE \<Longrightarrow> unat (m_len m) < CEC_MAX_MSG_SIZE \<Longrightarrow>
     rd (push_byte v m) j = (if unat (m_len m) = j then v else rd m j)"
  by (simp add: push_byte_def)

section \<open>Length field\<close>

lemma len_2_word: "n \<le> 14 \<Longrightarrow> (1 :: u32) \<le> 2 + of_nat n \<and> 2 + of_nat n \<le> (16 :: u32)"
  and len_3_word: "n \<le> 13 \<Longrightarrow> (1 :: u32) \<le> 3 + of_nat n \<and> 3 + of_nat n \<le> (16 :: u32)"
  by (simp_all add: word_le_nat_alt unat_add_small unat_of_nat_small)

text \<open>A parser recovers the number of payload bytes from the length field.\<close>

lemma len_2_decode:
  fixes l :: u32
  assumes "l = 2 + of_nat n" and "n \<le> 14"
  shows "unat (if (if l > 2 then l - 2 else 0) > 14 then 14
      else if l > 2 then l - 2 else 0) = n"
  using assms by (auto simp: word_less_nat_alt unat_add_small unat_of_nat_small)

lemma len_3_decode:
  fixes l :: u32
  assumes "l = 3 + of_nat n" and "n \<le> 13"
  shows "unat (if (if l > 3 then l - 3 else 0) > 13 then 13
      else if l > 3 then l - 3 else 0) = n"
  using assms by (auto simp: word_less_nat_alt unat_add_small unat_of_nat_small)

section \<open>Operand bytes\<close>

text \<open>The two nibbles of a byte.\<close>

lemma nibbles [byte_codec]:
  assumes "d < 16" and "r < 16"
  shows "drop_bit 4 (i8 (to_u8 (push_bit 4 d OR r))) = d"
    and "i8 (to_u8 (push_bit 4 d OR r)) AND 0xf = r"
  using assms
  by (auto intro!: bit_word_eqI simp: bit_simps and_masks dest: word_bit_bounds)

lemma nibbles_u8 [byte_codec]:
  fixes d r :: u8
  assumes "d < 16" and "r < 16"
  shows "to_u8 (drop_bit 4 (i8 (to_u8 (push_bit 4 (i8 d) OR i8 r)))) = d"
    and "to_u8 (i8 (to_u8 (push_bit 4 (i8 d) OR i8 r)) AND 0xf) = r"
  using nibbles [of "i8 d" "i8 r"] assms by simp_all

text \<open>A flag in bit 7 above a seven-bit value.\<close>

lemma flag7 [byte_codec]:
  assumes "a < 2" and "b < 128"
  shows "to_u8 (drop_bit 7 (i8 (to_u8 (push_bit 7 (i8 a) OR i8 b)))) = a"
    and "to_u8 (i8 (to_u8 (push_bit 7 (i8 a) OR i8 b)) AND 0x7f) = b"
  using assms
  by (auto intro!: bit_word_eqI simp: bit_simps and_masks dest: word_bit_bounds)

lemma and_7f_small [byte_codec]: "b < 128 \<Longrightarrow> i8 b AND 0x7f = i8 b"
  by (auto intro!: bit_word_eqI simp: bit_simps and_masks dest: word_bit_bounds)

text \<open>Two binary-coded decimal digits hold every number up to 99.\<close>

lemma bcd_roundtrip [byte_codec]:
  fixes x :: u8
  assumes "x < 100"
  shows "to_u8 ((drop_bit 4 (i8 (to_u8 (push_bit 4 (i8 x div 10) OR (i8 x mod 10)))) * 10)
      + (i8 (to_u8 (push_bit 4 (i8 x div 10) OR (i8 x mod 10))) AND 0xf)) = x"
proof -
  have "unat x < 100" using assms by (simp add: word_less_nat_alt)
  then have "i8 x div 10 < 16" and "i8 x mod 10 < 16"
    by (simp_all add: word_less_nat_alt unat_div unat_mod)
  then show ?thesis
    by (simp add: nibbles word_mod_div_equality)
qed

end
