(* ===== verification/Cec_Msg1.thy ===== *)
theory Cec_Msg1
  imports Cec_Types
begin

unbundle bit_operations_syntax

text \<open>
  The message builders (\<open>cec_msg_*\<close>) and parsers (\<open>cec_ops_*\<close>) of
  \<open>include/linux/cec-funcs.h\<close> for one touch play, routing control, standby, one
  touch record and timer programming. Each builder takes the message structure and returns it
  updated; each parser returns the values of its output parameters, in the order of the C
  parameter list. After a builder comes the lemma that it keeps the message well formed, after a
  parser the lemma that it reads back what the builder wrote.
\<close>

definition cec_msg_active_source :: "cec_msg \<Rightarrow> u16 \<Rightarrow> cec_msg" where
  "cec_msg_active_source m phys_addr =
     (let m = m\<lparr>m_len := 4\<rparr>;
          m = st 0 (to_u8 (i8 (rd m 0) OR 0xf)) m;
          m = st 1 CEC_MSG_ACTIVE_SOURCE m;
          m = st 2 (to_u8 (drop_bit 8 (i16 phys_addr))) m;
          m = st 3 (to_u8 (i16 phys_addr AND 0xff)) m
      in m)"

lemma cec_msg_active_source_keeps [cec_wf]: "keeps m (cec_msg_active_source m phys_addr)"
  by (simp add: cec_msg_active_source_def Let_def cec_kit)

definition cec_ops_active_source :: "cec_msg \<Rightarrow> u16" where
  "cec_ops_active_source m = to_u16 (push_bit 8 (i8 (rd m 2)) OR i8 (rd m 3))"

lemma msg_active_source_roundtrip:
  "length (m_msg m) = CEC_MAX_MSG_SIZE \<Longrightarrow>
     cec_ops_active_source (cec_msg_active_source m phys_addr)
     = phys_addr"
  by (simp add: cec_ops_active_source_def cec_msg_active_source_def Let_def byte_codec)

definition cec_msg_image_view_on :: "cec_msg \<Rightarrow> cec_msg" where
  "cec_msg_image_view_on m =
     (let m = m\<lparr>m_len := 2\<rparr>;
          m = st 1 CEC_MSG_IMAGE_VIEW_ON m
      in m)"

lemma cec_msg_image_view_on_keeps [cec_wf]: "keeps m (cec_msg_image_view_on m)"
  by (simp add: cec_msg_image_view_on_def Let_def cec_kit)

definition cec_msg_text_view_on :: "cec_msg \<Rightarrow> cec_msg" where
  "cec_msg_text_view_on m =
     (let m = m\<lparr>m_len := 2\<rparr>;
          m = st 1 CEC_MSG_TEXT_VIEW_ON m
      in m)"

lemma cec_msg_text_view_on_keeps [cec_wf]: "keeps m (cec_msg_text_view_on m)"
  by (simp add: cec_msg_text_view_on_def Let_def cec_kit)

definition cec_msg_inactive_source :: "cec_msg \<Rightarrow> u16 \<Rightarrow> cec_msg" where
  "cec_msg_inactive_source m phys_addr =
     (let m = m\<lparr>m_len := 4\<rparr>;
          m = st 1 CEC_MSG_INACTIVE_SOURCE m;
          m = st 2 (to_u8 (drop_bit 8 (i16 phys_addr))) m;
          m = st 3 (to_u8 (i16 phys_addr AND 0xff)) m
      in m)"

lemma cec_msg_inactive_source_keeps [cec_wf]: "keeps m (cec_msg_inactive_source m phys_addr)"
  by (simp add: cec_msg_inactive_source_def Let_def cec_kit)

definition cec_ops_inactive_source :: "cec_msg \<Rightarrow> u16" where
  "cec_ops_inactive_source m = to_u16 (push_bit 8 (i8 (rd m 2)) OR i8 (rd m 3))"

lemma msg_inactive_source_roundtrip:
  "length (m_msg m) = CEC_MAX_MSG_SIZE \<Longrightarrow>
     cec_ops_inactive_source (cec_msg_inactive_source m phys_addr)
     = phys_addr"
  by (simp add: cec_ops_inactive_source_def cec_msg_inactive_source_def Let_def byte_codec)

definition cec_msg_request_active_source :: "cec_msg \<Rightarrow> int \<Rightarrow> cec_msg" where
  "cec_msg_request_active_source m reply =
     (let m = m\<lparr>m_len := 2\<rparr>;
          m = st 0 (to_u8 (i8 (rd m 0) OR 0xf)) m;
          m = st 1 CEC_MSG_REQUEST_ACTIVE_SOURCE m;
          m = m\<lparr>m_reply := (if reply \<noteq> 0 then CEC_MSG_ACTIVE_SOURCE else 0)\<rparr>
      in m)"

lemma cec_msg_request_active_source_keeps [cec_wf]: "keeps m (cec_msg_request_active_source m
    reply)"
  by (simp add: cec_msg_request_active_source_def Let_def cec_kit)

definition cec_msg_routing_information :: "cec_msg \<Rightarrow> u16 \<Rightarrow> cec_msg" where
  "cec_msg_routing_information m phys_addr =
     (let m = m\<lparr>m_len := 4\<rparr>;
          m = st 0 (to_u8 (i8 (rd m 0) OR 0xf)) m;
          m = st 1 CEC_MSG_ROUTING_INFORMATION m;
          m = st 2 (to_u8 (drop_bit 8 (i16 phys_addr))) m;
          m = st 3 (to_u8 (i16 phys_addr AND 0xff)) m
      in m)"

lemma cec_msg_routing_information_keeps [cec_wf]: "keeps m (cec_msg_routing_information m
    phys_addr)"
  by (simp add: cec_msg_routing_information_def Let_def cec_kit)

definition cec_ops_routing_information :: "cec_msg \<Rightarrow> u16" where
  "cec_ops_routing_information m = to_u16 (push_bit 8 (i8 (rd m 2)) OR i8 (rd m 3))"

lemma msg_routing_information_roundtrip:
  "length (m_msg m) = CEC_MAX_MSG_SIZE \<Longrightarrow>
     cec_ops_routing_information (cec_msg_routing_information m phys_addr)
     = phys_addr"
  by (simp add: cec_ops_routing_information_def cec_msg_routing_information_def Let_def byte_codec)

definition cec_msg_routing_change ::
    "cec_msg \<Rightarrow> int \<Rightarrow> u16 \<Rightarrow> u16 \<Rightarrow> cec_msg" where
  "cec_msg_routing_change m reply orig_phys_addr new_phys_addr =
     (let m = m\<lparr>m_len := 6\<rparr>;
          m = st 0 (to_u8 (i8 (rd m 0) OR 0xf)) m;
          m = st 1 CEC_MSG_ROUTING_CHANGE m;
          m = st 2 (to_u8 (drop_bit 8 (i16 orig_phys_addr))) m;
          m = st 3 (to_u8 (i16 orig_phys_addr AND 0xff)) m;
          m = st 4 (to_u8 (drop_bit 8 (i16 new_phys_addr))) m;
          m = st 5 (to_u8 (i16 new_phys_addr AND 0xff)) m;
          m = m\<lparr>m_reply := (if reply \<noteq> 0 then CEC_MSG_ROUTING_INFORMATION else
              0)\<rparr>
      in m)"

lemma cec_msg_routing_change_keeps [cec_wf]: "keeps m (cec_msg_routing_change m reply
    orig_phys_addr new_phys_addr)"
  by (simp add: cec_msg_routing_change_def Let_def cec_kit)

definition cec_ops_routing_change :: "cec_msg \<Rightarrow> u16 \<times> u16" where
  "cec_ops_routing_change m =
     (to_u16 (push_bit 8 (i8 (rd m 2)) OR i8 (rd m 3)),
      to_u16 (push_bit 8 (i8 (rd m 4)) OR i8 (rd m 5)))"

lemma msg_routing_change_roundtrip:
  "length (m_msg m) = CEC_MAX_MSG_SIZE \<Longrightarrow>
     cec_ops_routing_change (cec_msg_routing_change m reply orig_phys_addr new_phys_addr)
     = (orig_phys_addr, new_phys_addr)"
  by (simp add: cec_ops_routing_change_def cec_msg_routing_change_def Let_def byte_codec)

definition cec_msg_set_stream_path :: "cec_msg \<Rightarrow> u16 \<Rightarrow> cec_msg" where
  "cec_msg_set_stream_path m phys_addr =
     (let m = m\<lparr>m_len := 4\<rparr>;
          m = st 0 (to_u8 (i8 (rd m 0) OR 0xf)) m;
          m = st 1 CEC_MSG_SET_STREAM_PATH m;
          m = st 2 (to_u8 (drop_bit 8 (i16 phys_addr))) m;
          m = st 3 (to_u8 (i16 phys_addr AND 0xff)) m
      in m)"

lemma cec_msg_set_stream_path_keeps [cec_wf]: "keeps m (cec_msg_set_stream_path m phys_addr)"
  by (simp add: cec_msg_set_stream_path_def Let_def cec_kit)

definition cec_ops_set_stream_path :: "cec_msg \<Rightarrow> u16" where
  "cec_ops_set_stream_path m = to_u16 (push_bit 8 (i8 (rd m 2)) OR i8 (rd m 3))"

lemma msg_set_stream_path_roundtrip:
  "length (m_msg m) = CEC_MAX_MSG_SIZE \<Longrightarrow>
     cec_ops_set_stream_path (cec_msg_set_stream_path m phys_addr)
     = phys_addr"
  by (simp add: cec_ops_set_stream_path_def cec_msg_set_stream_path_def Let_def byte_codec)

definition cec_msg_standby :: "cec_msg \<Rightarrow> cec_msg" where
  "cec_msg_standby m =
     (let m = m\<lparr>m_len := 2\<rparr>;
          m = st 1 CEC_MSG_STANDBY m
      in m)"

lemma cec_msg_standby_keeps [cec_wf]: "keeps m (cec_msg_standby m)"
  by (simp add: cec_msg_standby_def Let_def cec_kit)

definition cec_msg_record_off :: "cec_msg \<Rightarrow> int \<Rightarrow> cec_msg" where
  "cec_msg_record_off m reply =
     (let m = m\<lparr>m_len := 2\<rparr>;
          m = st 1 CEC_MSG_RECORD_OFF m;
          m = m\<lparr>m_reply := (if reply \<noteq> 0 then CEC_MSG_RECORD_STATUS else 0)\<rparr>
      in m)"

lemma cec_msg_record_off_keeps [cec_wf]: "keeps m (cec_msg_record_off m reply)"
  by (simp add: cec_msg_record_off_def Let_def cec_kit)

definition cec_set_digital_service_id ::
    "nat \<Rightarrow> cec_op_digital_service_id \<Rightarrow> cec_msg \<Rightarrow> cec_msg" where
  "cec_set_digital_service_id p digital m =
     (let m = st p (to_u8 (push_bit 7 (i8 (ds_service_id_method digital))
                OR i8 (ds_dig_bcast_system digital))) m
      in if ds_service_id_method digital = CEC_OP_SERVICE_ID_METHOD_BY_CHANNEL then
        (let m = st (p + 1) (to_u8 (push_bit 2 (i8 (channel_channel_number_fmt digital))
                   OR drop_bit 8 (i16 (channel_major digital)))) m;
             m = st (p + 2) (to_u8 (i16 (channel_major digital) AND 0xff)) m;
             m = st (p + 3) (to_u8 (drop_bit 8 (i16 (channel_minor digital)))) m;
             m = st (p + 4) (to_u8 (i16 (channel_minor digital) AND 0xff)) m;
             m = st (p + 5) 0 m;
             m = st (p + 6) 0 m
         in m)
      else if ds_dig_bcast_system digital \<in> {CEC_OP_DIG_SERVICE_BCAST_SYSTEM_ATSC_GEN,
          CEC_OP_DIG_SERVICE_BCAST_SYSTEM_ATSC_CABLE, CEC_OP_DIG_SERVICE_BCAST_SYSTEM_ATSC_SAT,
          CEC_OP_DIG_SERVICE_BCAST_SYSTEM_ATSC_T} then
        (let m = st (p + 1) (to_u8 (drop_bit 8 (i16 (atsc_transport_id digital)))) m;
             m = st (p + 2) (to_u8 (i16 (atsc_transport_id digital) AND 0xff)) m;
             m = st (p + 3) (to_u8 (drop_bit 8 (i16 (atsc_program_number digital)))) m;
             m = st (p + 4) (to_u8 (i16 (atsc_program_number digital) AND 0xff)) m;
             m = st (p + 5) 0 m;
             m = st (p + 6) 0 m
         in m)
      else
        (let m = st (p + 1) (to_u8 (drop_bit 8 (i16 (dvb_transport_id digital)))) m;
             m = st (p + 2) (to_u8 (i16 (dvb_transport_id digital) AND 0xff)) m;
             m = st (p + 3) (to_u8 (drop_bit 8 (i16 (dvb_service_id digital)))) m;
             m = st (p + 4) (to_u8 (i16 (dvb_service_id digital) AND 0xff)) m;
             m = st (p + 5) (to_u8 (drop_bit 8 (i16 (dvb_orig_network_id digital)))) m;
             m = st (p + 6) (to_u8 (i16 (dvb_orig_network_id digital) AND 0xff)) m
         in m))"

lemma set_digital_fields [simp]:
  "m_len (cec_set_digital_service_id p d m) = m_len m"
  "m_reply (cec_set_digital_service_id p d m) = m_reply m"
  "length (m_msg (cec_set_digital_service_id p d m)) = length (m_msg m)"
  by (simp_all add: cec_set_digital_service_id_def Let_def)

lemma set_digital_bounds [simp]:
  assumes "p + 6 < CEC_MAX_MSG_SIZE"
  shows "m_oob (cec_set_digital_service_id p d m) = m_oob m"
    and "length (m_msg m) = CEC_MAX_MSG_SIZE \<Longrightarrow> j < p \<Longrightarrow>
      rd (cec_set_digital_service_id p d m) j = rd m j"
  using assms by (auto simp: cec_set_digital_service_id_def Let_def)

definition cec_get_digital_service_id ::
    "nat \<Rightarrow> cec_msg \<Rightarrow> cec_op_digital_service_id \<Rightarrow>
         cec_op_digital_service_id" where
  "cec_get_digital_service_id p m digital =
     (let digital = digital\<lparr>ds_service_id_method := to_u8 (drop_bit 7 (i8 (rd m p)))\<rparr>;
          digital = digital\<lparr>ds_dig_bcast_system := to_u8 (i8 (rd m p) AND 0x7f)\<rparr>
      in if ds_service_id_method digital = CEC_OP_SERVICE_ID_METHOD_BY_CHANNEL then
        (let digital = set_channel_channel_number_fmt
               (to_u8 (drop_bit 2 (i8 (rd m (p + 1))))) digital;
             digital = digital\<lparr>ds_w1 :=
               to_u16 (push_bit 6 (i8 (rd m (p + 1)) AND 3) OR i8 (rd m (p + 2)))\<rparr>;
             digital = digital\<lparr>ds_w2 :=
               to_u16 (push_bit 8 (i8 (rd m (p + 3))) OR i8 (rd m (p + 4)))\<rparr>
         in digital)
      else
        (let digital = digital\<lparr>ds_w0 :=
               to_u16 (push_bit 8 (i8 (rd m (p + 1))) OR i8 (rd m (p + 2)))\<rparr>;
             digital = digital\<lparr>ds_w1 :=
               to_u16 (push_bit 8 (i8 (rd m (p + 3))) OR i8 (rd m (p + 4)))\<rparr>;
             digital = digital\<lparr>ds_w2 :=
               to_u16 (push_bit 8 (i8 (rd m (p + 5))) OR i8 (rd m (p + 6)))\<rparr>
         in digital))"

text \<open>
  A service given by its identification triple comes back unchanged; for an ATSC system the
  encoder sends only two words, so the third one is read back as zero.
\<close>

definition is_atsc :: "u8 \<Rightarrow> bool" where
  "is_atsc system \<longleftrightarrow> system \<in> {CEC_OP_DIG_SERVICE_BCAST_SYSTEM_ATSC_GEN,
     CEC_OP_DIG_SERVICE_BCAST_SYSTEM_ATSC_CABLE, CEC_OP_DIG_SERVICE_BCAST_SYSTEM_ATSC_SAT,
     CEC_OP_DIG_SERVICE_BCAST_SYSTEM_ATSC_T}"

lemma digital_id_roundtrip:
  assumes "length (m_msg m) = CEC_MAX_MSG_SIZE" and "p + 6 < CEC_MAX_MSG_SIZE"
    and "ds_service_id_method d = CEC_OP_SERVICE_ID_METHOD_BY_DIG_ID"
    and "ds_dig_bcast_system d < 128"
  shows "cec_get_digital_service_id p (cec_set_digital_service_id p d m) d0
    = (if is_atsc (ds_dig_bcast_system d) then d\<lparr>ds_w2 := 0\<rparr> else d)"
proof -
  have "i8 (ds_dig_bcast_system d) AND 0x7f = i8 (ds_dig_bcast_system d)"
    and "to_u8 (drop_bit 7 (i8 (ds_dig_bcast_system d))) = 0"
    using assms(4)
    by (auto intro!: bit_word_eqI simp: bit_simps and_masks dest: word_bit_bounds)
  with assms show ?thesis
    by (auto simp: cec_get_digital_service_id_def cec_set_digital_service_id_def Let_def
        is_atsc_def be16_roundtrip)
qed

text \<open>
  A service given by its channel number comes back when the major number fits in eight bits;
  the decoder shifts the two high bits of a larger one by six instead of eight places.
\<close>

lemma channel_major_decode:
  fixes fmt :: u8 and maj :: u16
  assumes "fmt < 64" and "maj < 1024"
  shows "to_u8 (drop_bit 2 (i8 (to_u8 (push_bit 2 (i8 fmt) OR drop_bit 8 (i16 maj))))) = fmt"
    and "to_u16 (push_bit 6 (i8 (to_u8 (push_bit 2 (i8 fmt) OR drop_bit 8 (i16 maj))) AND 3)
      OR i8 (to_u8 (i16 maj AND 0xff))) = push_bit 6 (drop_bit 8 maj) OR take_bit 8 maj"
  using assms
  by (auto intro!: bit_word_eqI simp: bit_simps and_masks dest: word_bit_bounds)

lemma channel_major_small: "maj < 256 \<Longrightarrow> push_bit 6 (drop_bit 8 maj) OR take_bit 8
    maj = maj"
  for maj :: u16
  by (auto intro!: bit_word_eqI simp: bit_simps dest: word_bit_bounds)

lemma digital_channel_roundtrip:
  fixes d0 :: cec_op_digital_service_id
  assumes "length (m_msg m) = CEC_MAX_MSG_SIZE" and "p + 6 < CEC_MAX_MSG_SIZE"
    and "ds_service_id_method d = CEC_OP_SERVICE_ID_METHOD_BY_CHANNEL"
    and "ds_dig_bcast_system d < 128" and "channel_channel_number_fmt d < 64"
    and "channel_major d < 1024"
  defines "r \<equiv> cec_get_digital_service_id p (cec_set_digital_service_id p d m) d0"
  shows "ds_service_id_method r = ds_service_id_method d"
    and "ds_dig_bcast_system r = ds_dig_bcast_system d"
    and "channel_channel_number_fmt r = channel_channel_number_fmt d"
    and "channel_major r = push_bit 6 (drop_bit 8 (channel_major d)) OR take_bit 8 (channel_major
        d)"
    and "channel_minor r = channel_minor d"
proof -
  have header: "to_u8 (drop_bit 7 (i8 (to_u8 (push_bit 7 1 OR i8 (ds_dig_bcast_system d))))) = 1"
      "to_u8 (i8 (to_u8 (push_bit 7 1 OR i8 (ds_dig_bcast_system d))) AND 0x7f)
         = ds_dig_bcast_system d"
    using flag7 [of 1 "ds_dig_bcast_system d"] assms(4) by simp_all
  have fmt_get: "channel_channel_number_fmt (set_channel_channel_number_fmt v x) = v" for v x
    unfolding channel_channel_number_fmt_def set_channel_channel_number_fmt_def
    by (rule bit_word_eqI) (auto simp: bit_simps)
  have fmt_frame: "channel_channel_number_fmt (x\<lparr>ds_w1 := a, ds_w2 := b\<rparr>)
      = channel_channel_number_fmt x" for x a b
    by (simp add: channel_channel_number_fmt_def)
  note defs = r_def cec_get_digital_service_id_def cec_set_digital_service_id_def Let_def
  show "ds_service_id_method r = ds_service_id_method d"
    and "ds_dig_bcast_system r = ds_dig_bcast_system d"
    using assms(1-4) header
    by (simp_all add: defs set_channel_channel_number_fmt_def)
  show "channel_channel_number_fmt r = channel_channel_number_fmt d"
    using assms(1-6) header
    by (simp add: defs fmt_frame fmt_get channel_major_decode)
  show "channel_major r = push_bit 6 (drop_bit 8 (channel_major d)) OR take_bit 8 (channel_major d)"
    using assms(1-6) header
    by (simp add: defs channel_major_decode del: push_bit_and)
  show "channel_minor r = channel_minor d"
    using assms(1-4) header
    by (simp add: defs be16_roundtrip)
qed

definition cec_msg_record_on_own :: "cec_msg \<Rightarrow> cec_msg" where
  "cec_msg_record_on_own m =
     (let m = m\<lparr>m_len := 3\<rparr>;
          m = st 1 CEC_MSG_RECORD_ON m;
          m = st 2 CEC_OP_RECORD_SRC_OWN m
      in m)"

lemma cec_msg_record_on_own_keeps [cec_wf]: "keeps m (cec_msg_record_on_own m)"
  by (simp add: cec_msg_record_on_own_def Let_def cec_kit)

definition cec_msg_record_on_digital ::
    "cec_msg \<Rightarrow> cec_op_digital_service_id \<Rightarrow> cec_msg" where
  "cec_msg_record_on_digital m digital =
     (let m = m\<lparr>m_len := 10\<rparr>;
          m = st 1 CEC_MSG_RECORD_ON m;
          m = st 2 CEC_OP_RECORD_SRC_DIGITAL m;
          m = cec_set_digital_service_id 3 digital m
      in m)"

lemma cec_msg_record_on_digital_keeps [cec_wf]: "keeps m (cec_msg_record_on_digital m digital)"
  by (simp add: cec_msg_record_on_digital_def Let_def cec_kit)

definition cec_msg_record_on_analog ::
    "cec_msg \<Rightarrow> u8 \<Rightarrow> u16 \<Rightarrow> u8 \<Rightarrow> cec_msg" where
  "cec_msg_record_on_analog m ana_bcast_type ana_freq bcast_system =
     (let m = m\<lparr>m_len := 7\<rparr>;
          m = st 1 CEC_MSG_RECORD_ON m;
          m = st 2 CEC_OP_RECORD_SRC_ANALOG m;
          m = st 3 ana_bcast_type m;
          m = st 4 (to_u8 (drop_bit 8 (i16 ana_freq))) m;
          m = st 5 (to_u8 (i16 ana_freq AND 0xff)) m;
          m = st 6 bcast_system m
      in m)"

lemma cec_msg_record_on_analog_keeps [cec_wf]: "keeps m (cec_msg_record_on_analog m
    ana_bcast_type ana_freq bcast_system)"
  by (simp add: cec_msg_record_on_analog_def Let_def cec_kit)

definition cec_msg_record_on_plug :: "cec_msg \<Rightarrow> u8 \<Rightarrow> cec_msg" where
  "cec_msg_record_on_plug m plug =
     (let m = m\<lparr>m_len := 4\<rparr>;
          m = st 1 CEC_MSG_RECORD_ON m;
          m = st 2 CEC_OP_RECORD_SRC_EXT_PLUG m;
          m = st 3 plug m
      in m)"

lemma cec_msg_record_on_plug_keeps [cec_wf]: "keeps m (cec_msg_record_on_plug m plug)"
  by (simp add: cec_msg_record_on_plug_def Let_def cec_kit)

definition cec_msg_record_on_phys_addr :: "cec_msg \<Rightarrow> u16 \<Rightarrow> cec_msg" where
  "cec_msg_record_on_phys_addr m phys_addr =
     (let m = m\<lparr>m_len := 5\<rparr>;
          m = st 1 CEC_MSG_RECORD_ON m;
          m = st 2 CEC_OP_RECORD_SRC_EXT_PHYS_ADDR m;
          m = st 3 (to_u8 (drop_bit 8 (i16 phys_addr))) m;
          m = st 4 (to_u8 (i16 phys_addr AND 0xff)) m
      in m)"

lemma cec_msg_record_on_phys_addr_keeps [cec_wf]: "keeps m (cec_msg_record_on_phys_addr m
    phys_addr)"
  by (simp add: cec_msg_record_on_phys_addr_def Let_def cec_kit)

definition cec_msg_record_on ::
    "cec_msg \<Rightarrow> int \<Rightarrow> cec_op_record_src \<Rightarrow> cec_msg" where
  "cec_msg_record_on m reply rec_src =
     (let m = (if rs_type rec_src = CEC_OP_RECORD_SRC_OWN then cec_msg_record_on_own m
               else if rs_type rec_src = CEC_OP_RECORD_SRC_DIGITAL
                 then cec_msg_record_on_digital m (rs_digital rec_src)
               else if rs_type rec_src = CEC_OP_RECORD_SRC_ANALOG
                 then cec_msg_record_on_analog m (rs_ana_bcast_type rec_src)
                        (rs_ana_freq rec_src) (rs_bcast_system rec_src)
               else if rs_type rec_src = CEC_OP_RECORD_SRC_EXT_PLUG
                 then cec_msg_record_on_plug m (rs_plug rec_src)
               else if rs_type rec_src = CEC_OP_RECORD_SRC_EXT_PHYS_ADDR
                 then cec_msg_record_on_phys_addr m (rs_phys_addr rec_src)
               else m);
          m = m\<lparr>m_reply := (if reply \<noteq> 0 then CEC_MSG_RECORD_STATUS else 0)\<rparr>
      in m)"

lemma cec_msg_record_on_keeps [cec_wf]: "keeps m (cec_msg_record_on m reply rec_src)"
proof -
  have reply_upd: "keeps m m' \<Longrightarrow> keeps m (m'\<lparr>m_reply := r\<rparr>)" for m' r
    by (simp add: cec_kit)
  have "keeps m m" by (simp add: cec_kit)
  then show ?thesis
    by (simp add: cec_msg_record_on_def reply_upd cec_wf)
qed

definition cec_ops_record_on ::
    "cec_msg \<Rightarrow> cec_op_record_src \<Rightarrow> cec_op_record_src" where
  "cec_ops_record_on m rec_src =
     (let rec_src = rec_src\<lparr>rs_type := rd m 2\<rparr>
      in if rs_type rec_src = CEC_OP_RECORD_SRC_OWN then rec_src
      else if rs_type rec_src = CEC_OP_RECORD_SRC_DIGITAL
        then rec_src\<lparr>rs_digital := cec_get_digital_service_id 3 m (rs_digital
            rec_src)\<rparr>
      else if rs_type rec_src = CEC_OP_RECORD_SRC_ANALOG
        then rec_src\<lparr>rs_ana_bcast_type := rd m 3,
               rs_ana_freq := to_u16 (push_bit 8 (i8 (rd m 4)) OR i8 (rd m 5)),
               rs_bcast_system := rd m 6\<rparr>
      else if rs_type rec_src = CEC_OP_RECORD_SRC_EXT_PLUG
        then rec_src\<lparr>rs_plug := rd m 3\<rparr>
      else if rs_type rec_src = CEC_OP_RECORD_SRC_EXT_PHYS_ADDR
        then rec_src\<lparr>rs_phys_addr := to_u16 (push_bit 8 (i8 (rd m 3)) OR i8 (rd m 4))\<rparr>
      else rec_src)"

lemma record_on_roundtrip:
  assumes "length (m_msg m) = CEC_MAX_MSG_SIZE"
  shows "rs_type rs = CEC_OP_RECORD_SRC_OWN \<Longrightarrow>
      rs_type (cec_ops_record_on (cec_msg_record_on m reply rs) rs0) = rs_type rs"
    and "rs_type rs = CEC_OP_RECORD_SRC_ANALOG \<Longrightarrow>
      (let rs' = cec_ops_record_on (cec_msg_record_on m reply rs) rs0
       in rs_type rs' = rs_type rs \<and> rs_ana_bcast_type rs' = rs_ana_bcast_type rs \<and>
          rs_ana_freq rs' = rs_ana_freq rs \<and> rs_bcast_system rs' = rs_bcast_system rs)"
    and "rs_type rs = CEC_OP_RECORD_SRC_EXT_PLUG \<Longrightarrow>
      (let rs' = cec_ops_record_on (cec_msg_record_on m reply rs) rs0
       in rs_type rs' = rs_type rs \<and> rs_plug rs' = rs_plug rs)"
    and "rs_type rs = CEC_OP_RECORD_SRC_EXT_PHYS_ADDR \<Longrightarrow>
      (let rs' = cec_ops_record_on (cec_msg_record_on m reply rs) rs0
       in rs_type rs' = rs_type rs \<and> rs_phys_addr rs' = rs_phys_addr rs)"
  using assms
  by (auto simp: cec_ops_record_on_def cec_msg_record_on_def Let_def be16_roundtrip
      cec_msg_record_on_own_def cec_msg_record_on_analog_def cec_msg_record_on_plug_def
      cec_msg_record_on_phys_addr_def)

lemma record_on_digital_roundtrip:
  assumes "length (m_msg m) = CEC_MAX_MSG_SIZE" and "rs_type rs = CEC_OP_RECORD_SRC_DIGITAL"
    and "ds_service_id_method (rs_digital rs) = CEC_OP_SERVICE_ID_METHOD_BY_DIG_ID"
    and "ds_dig_bcast_system (rs_digital rs) < 128"
    and "\<not> is_atsc (ds_dig_bcast_system (rs_digital rs))"
  shows "let rs' = cec_ops_record_on (cec_msg_record_on m reply rs) rs0
    in rs_type rs' = rs_type rs \<and> rs_digital rs' = rs_digital rs"
proof -
  have field_upd: "cec_get_digital_service_id p (x\<lparr>m_reply := r\<rparr>) d
      = cec_get_digital_service_id p x d" for p x r d
    by (simp add: cec_get_digital_service_id_def Let_def)
  show ?thesis
    using assms
    by (simp add: cec_ops_record_on_def cec_msg_record_on_def Let_def cec_msg_record_on_digital_def
        digital_id_roundtrip field_upd)
qed

definition cec_msg_record_status :: "cec_msg \<Rightarrow> u8 \<Rightarrow> cec_msg" where
  "cec_msg_record_status m rec_status =
     (let m = m\<lparr>m_len := 3\<rparr>;
          m = st 1 CEC_MSG_RECORD_STATUS m;
          m = st 2 rec_status m
      in m)"

lemma cec_msg_record_status_keeps [cec_wf]: "keeps m (cec_msg_record_status m rec_status)"
  by (simp add: cec_msg_record_status_def Let_def cec_kit)

definition cec_ops_record_status :: "cec_msg \<Rightarrow> u8" where
  "cec_ops_record_status m = rd m 2"

lemma msg_record_status_roundtrip:
  "length (m_msg m) = CEC_MAX_MSG_SIZE \<Longrightarrow>
     cec_ops_record_status (cec_msg_record_status m rec_status)
     = rec_status"
  by (simp add: cec_ops_record_status_def cec_msg_record_status_def Let_def byte_codec)

definition cec_msg_record_tv_screen :: "cec_msg \<Rightarrow> int \<Rightarrow> cec_msg" where
  "cec_msg_record_tv_screen m reply =
     (let m = m\<lparr>m_len := 2\<rparr>;
          m = st 1 CEC_MSG_RECORD_TV_SCREEN m;
          m = m\<lparr>m_reply := (if reply \<noteq> 0 then CEC_MSG_RECORD_ON else 0)\<rparr>
      in m)"

lemma cec_msg_record_tv_screen_keeps [cec_wf]: "keeps m (cec_msg_record_tv_screen m reply)"
  by (simp add: cec_msg_record_tv_screen_def Let_def cec_kit)

definition cec_msg_timer_status ::
    "cec_msg \<Rightarrow> u8 \<Rightarrow> u8 \<Rightarrow> u8 \<Rightarrow> u8 \<Rightarrow> u8
         \<Rightarrow> u8 \<Rightarrow> cec_msg" where
  "cec_msg_timer_status m timer_overlap_warning media_info prog_info prog_error
       duration_hr duration_min =
     (let m = m\<lparr>m_len := 3\<rparr>;
          m = st 1 CEC_MSG_TIMER_STATUS m;
          m = st 2 (to_u8 (push_bit 7 (i8 timer_overlap_warning) OR push_bit 5 (i8 media_info)
                OR (if prog_info \<noteq> 0 then 0x10 else 0)
                OR i8 (if prog_info \<noteq> 0 then prog_info else prog_error))) m
      in if prog_info = CEC_OP_PROG_INFO_NOT_ENOUGH_SPACE \<or>
            prog_info = CEC_OP_PROG_INFO_MIGHT_NOT_BE_ENOUGH_SPACE \<or>
            prog_error = CEC_OP_PROG_ERROR_DUPLICATE then
        (let m = m\<lparr>m_len := m_len m + 2\<rparr>;
             m = st 3 (to_u8 (push_bit 4 (i8 duration_hr div 10) OR (i8 duration_hr mod 10))) m;
             m = st 4 (to_u8 (push_bit 4 (i8 duration_min div 10) OR (i8 duration_min mod 10))) m
         in m)
      else m)"

lemma cec_msg_timer_status_keeps [cec_wf]: "keeps m (cec_msg_timer_status m timer_overlap_warning
    media_info prog_info prog_error duration_hr duration_min)"
  by (simp add: cec_msg_timer_status_def Let_def cec_kit)

definition cec_ops_timer_status ::
    "cec_msg \<Rightarrow> u8 \<times> u8 \<times> u8 \<times> u8 \<times> u8 \<times> u8" where
  "cec_ops_timer_status m =
     (let timer_overlap_warning = to_u8 (drop_bit 7 (i8 (rd m 2)));
          media_info = to_u8 (drop_bit 5 (i8 (rd m 2)) AND 3);
          (prog_info, prog_error) =
            (if i8 (rd m 2) AND 0x10 \<noteq> 0 then (to_u8 (i8 (rd m 2) AND 0xf), 0)
             else (0, to_u8 (i8 (rd m 2) AND 0xf)));
          (duration_hr, duration_min) =
            (if prog_info = CEC_OP_PROG_INFO_NOT_ENOUGH_SPACE \<or>
                prog_info = CEC_OP_PROG_INFO_MIGHT_NOT_BE_ENOUGH_SPACE \<or>
                prog_error = CEC_OP_PROG_ERROR_DUPLICATE
             then (to_u8 ((drop_bit 4 (i8 (rd m 3)) * 10) + (i8 (rd m 3) AND 0xf)),
                   to_u8 ((drop_bit 4 (i8 (rd m 4)) * 10) + (i8 (rd m 4) AND 0xf)))
             else (0, 0))
      in (timer_overlap_warning, media_info, prog_info, prog_error, duration_hr, duration_min))"

text \<open>
  The program info and the program error share one nibble, told apart by bit 4; a message
  carries one of them, and the duration only in the cases where the encoder appends it.
\<close>

lemma timer_status_byte:
  fixes w mi v :: u8
  assumes "w < 2" and "mi < 4" and "v < 16"
  defines "b \<equiv> to_u8 (push_bit 7 (i8 w) OR push_bit 5 (i8 mi) OR 0x10 OR i8 v)"
    and "c \<equiv> to_u8 (push_bit 7 (i8 w) OR push_bit 5 (i8 mi) OR 0 OR i8 v)"
  shows "to_u8 (drop_bit 7 (i8 b)) = w" "to_u8 (drop_bit 5 (i8 b) AND 3) = mi"
    "i8 b AND 0x10 \<noteq> 0" "to_u8 (i8 b AND 0xf) = v"
    "to_u8 (drop_bit 7 (i8 c)) = w" "to_u8 (drop_bit 5 (i8 c) AND 3) = mi"
    "i8 c AND 0x10 = 0" "to_u8 (i8 c AND 0xf) = v"
proof -
  have "bit (i8 b AND 0x10) 4" unfolding b_def by (simp add: bit_simps bit_int_16)
  then show "i8 b AND 0x10 \<noteq> 0" by auto
  show "to_u8 (drop_bit 7 (i8 b)) = w" "to_u8 (drop_bit 5 (i8 b) AND 3) = mi"
    "to_u8 (i8 b AND 0xf) = v"
    "to_u8 (drop_bit 7 (i8 c)) = w" "to_u8 (drop_bit 5 (i8 c) AND 3) = mi"
    "i8 c AND 0x10 = 0" "to_u8 (i8 c AND 0xf) = v"
    unfolding b_def c_def using assms(1-3)
    by (auto intro!: bit_word_eqI
        simp: bit_simps and_masks bit_int_16 word_high_bits not_less
        dest: word_bit_bounds)
qed

lemma timer_status_roundtrip:
  assumes "length (m_msg m) = CEC_MAX_MSG_SIZE"
    and "w < 2" and "mi < 4" and "info < 16" and "err < 16" and "hr < 100" and "mn < 100"
    and "info = 0 \<or> err = 0"
  shows "cec_ops_timer_status (cec_msg_timer_status m w mi info err hr mn)
    = (w, mi, info, err,
       (if info = CEC_OP_PROG_INFO_NOT_ENOUGH_SPACE \<or>
           info = CEC_OP_PROG_INFO_MIGHT_NOT_BE_ENOUGH_SPACE \<or>
           err = CEC_OP_PROG_ERROR_DUPLICATE then (hr, mn) else (0, 0)))"
proof -
  let ?m = "cec_msg_timer_status m w mi info err hr mn"
  define b where "b = to_u8 (push_bit 7 (i8 w) OR push_bit 5 (i8 mi) OR 0x10 OR i8 info)"
  define c where "c = to_u8 (push_bit 7 (i8 w) OR push_bit 5 (i8 mi) OR 0 OR i8 err)"
  note bytes = timer_status_byte [OF assms(2,3,4), folded b_def]
    timer_status_byte [OF assms(2,3,5), folded c_def]
  have rd2: "rd ?m 2 = (if info = 0 then c else b)"
    using assms(1) by (simp add: cec_msg_timer_status_def Let_def b_def c_def)
  have rd34: "rd ?m 3 = to_u8 (push_bit 4 (i8 hr div 10) OR (i8 hr mod 10))"
      "rd ?m 4 = to_u8 (push_bit 4 (i8 mn div 10) OR (i8 mn mod 10))"
    if "info = CEC_OP_PROG_INFO_NOT_ENOUGH_SPACE \<or>
      info = CEC_OP_PROG_INFO_MIGHT_NOT_BE_ENOUGH_SPACE \<or> err = CEC_OP_PROG_ERROR_DUPLICATE"
    using that assms(1) by (auto simp: cec_msg_timer_status_def Let_def)
  show ?thesis
    using assms(6-8) bytes(1-4) bytes(13-16) rd34
    by (auto simp: cec_ops_timer_status_def rd2 Let_def bcd_roundtrip)
qed

definition cec_msg_timer_cleared_status :: "cec_msg \<Rightarrow> u8 \<Rightarrow> cec_msg" where
  "cec_msg_timer_cleared_status m timer_cleared_status =
     (let m = m\<lparr>m_len := 3\<rparr>;
          m = st 1 CEC_MSG_TIMER_CLEARED_STATUS m;
          m = st 2 timer_cleared_status m
      in m)"

lemma cec_msg_timer_cleared_status_keeps [cec_wf]: "keeps m (cec_msg_timer_cleared_status m
    timer_cleared_status)"
  by (simp add: cec_msg_timer_cleared_status_def Let_def cec_kit)

definition cec_ops_timer_cleared_status :: "cec_msg \<Rightarrow> u8" where
  "cec_ops_timer_cleared_status m = rd m 2"

lemma msg_timer_cleared_status_roundtrip:
  "length (m_msg m) = CEC_MAX_MSG_SIZE \<Longrightarrow>
     cec_ops_timer_cleared_status (cec_msg_timer_cleared_status m timer_cleared_status)
     = timer_cleared_status"
  by (simp add: cec_ops_timer_cleared_status_def cec_msg_timer_cleared_status_def Let_def
      byte_codec)

definition cec_msg_clear_analogue_timer ::
    "cec_msg \<Rightarrow> int \<Rightarrow> u8 \<Rightarrow> u8 \<Rightarrow> u8 \<Rightarrow>
     u8 \<Rightarrow> u8 \<Rightarrow> u8 \<Rightarrow> u8 \<Rightarrow> u8 \<Rightarrow> u16
     \<Rightarrow> u8 \<Rightarrow> cec_msg" where
  "cec_msg_clear_analogue_timer m reply day month start_hr start_min duration_hr duration_min
       recording_seq ana_bcast_type ana_freq bcast_system =
     (let m = m\<lparr>m_len := 13\<rparr>;
          m = st 1 CEC_MSG_CLEAR_ANALOGUE_TIMER m;
          m = st 2 day m;
          m = st 3 month m;
          m = st 4 (to_u8 (push_bit 4 (i8 start_hr div 10) OR (i8 start_hr mod 10))) m;
          m = st 5 (to_u8 (push_bit 4 (i8 start_min div 10) OR (i8 start_min mod 10))) m;
          m = st 6 (to_u8 (push_bit 4 (i8 duration_hr div 10) OR (i8 duration_hr mod 10))) m;
          m = st 7 (to_u8 (push_bit 4 (i8 duration_min div 10) OR (i8 duration_min mod 10))) m;
          m = st 8 recording_seq m;
          m = st 9 ana_bcast_type m;
          m = st 10 (to_u8 (drop_bit 8 (i16 ana_freq))) m;
          m = st 11 (to_u8 (i16 ana_freq AND 0xff)) m;
          m = st 12 bcast_system m;
          m = m\<lparr>m_reply := (if reply \<noteq> 0 then CEC_MSG_TIMER_CLEARED_STATUS else
              0)\<rparr>
      in m)"

lemma cec_msg_clear_analogue_timer_keeps [cec_wf]: "keeps m (cec_msg_clear_analogue_timer m reply
    day month start_hr start_min duration_hr duration_min recording_seq ana_bcast_type ana_freq
    bcast_system)"
  by (simp add: cec_msg_clear_analogue_timer_def Let_def cec_kit)

definition cec_ops_clear_analogue_timer ::
    "cec_msg \<Rightarrow> u8 \<times> u8 \<times> u8 \<times> u8 \<times> u8 \<times> u8
     \<times> u8 \<times> u8 \<times> u16 \<times> u8" where
  "cec_ops_clear_analogue_timer m =
     (rd m 2,
      rd m 3,
      to_u8 ((drop_bit 4 (i8 (rd m 4)) * 10) + (i8 (rd m 4) AND 0xf)),
      to_u8 ((drop_bit 4 (i8 (rd m 5)) * 10) + (i8 (rd m 5) AND 0xf)),
      to_u8 ((drop_bit 4 (i8 (rd m 6)) * 10) + (i8 (rd m 6) AND 0xf)),
      to_u8 ((drop_bit 4 (i8 (rd m 7)) * 10) + (i8 (rd m 7) AND 0xf)),
      rd m 8,
      rd m 9,
      to_u16 (push_bit 8 (i8 (rd m 10)) OR i8 (rd m 11)),
      rd m 12)"

lemma msg_clear_analogue_timer_roundtrip:
  "length (m_msg m) = CEC_MAX_MSG_SIZE \<Longrightarrow> start_hr < 100 \<Longrightarrow>
       start_min < 100 \<Longrightarrow> duration_hr < 100 \<Longrightarrow> duration_min < 100
       \<Longrightarrow>
     cec_ops_clear_analogue_timer (cec_msg_clear_analogue_timer m reply day month start_hr
         start_min duration_hr duration_min recording_seq ana_bcast_type ana_freq bcast_system)
     = (day, month, start_hr, start_min, duration_hr, duration_min, recording_seq,
         ana_bcast_type, ana_freq, bcast_system)"
  by (simp add: cec_ops_clear_analogue_timer_def cec_msg_clear_analogue_timer_def Let_def
      byte_codec)

definition cec_msg_clear_digital_timer ::
    "cec_msg \<Rightarrow> int \<Rightarrow> u8 \<Rightarrow> u8 \<Rightarrow> u8 \<Rightarrow>
     u8 \<Rightarrow> u8 \<Rightarrow> u8 \<Rightarrow> u8 \<Rightarrow>
     cec_op_digital_service_id \<Rightarrow> cec_msg" where
  "cec_msg_clear_digital_timer m reply day month start_hr start_min duration_hr duration_min
       recording_seq digital =
     (let m = m\<lparr>m_len := 16\<rparr>;
          m = m\<lparr>m_reply := (if reply \<noteq> 0 then CEC_MSG_TIMER_CLEARED_STATUS else
              0)\<rparr>;
          m = st 1 CEC_MSG_CLEAR_DIGITAL_TIMER m;
          m = st 2 day m;
          m = st 3 month m;
          m = st 4 (to_u8 (push_bit 4 (i8 start_hr div 10) OR (i8 start_hr mod 10))) m;
          m = st 5 (to_u8 (push_bit 4 (i8 start_min div 10) OR (i8 start_min mod 10))) m;
          m = st 6 (to_u8 (push_bit 4 (i8 duration_hr div 10) OR (i8 duration_hr mod 10))) m;
          m = st 7 (to_u8 (push_bit 4 (i8 duration_min div 10) OR (i8 duration_min mod 10))) m;
          m = st 8 recording_seq m;
          m = cec_set_digital_service_id 9 digital m
      in m)"

lemma cec_msg_clear_digital_timer_keeps [cec_wf]: "keeps m (cec_msg_clear_digital_timer m reply
    day month start_hr start_min duration_hr duration_min recording_seq digital)"
  by (simp add: cec_msg_clear_digital_timer_def Let_def cec_kit)

definition cec_ops_clear_digital_timer ::
    "cec_msg \<Rightarrow> cec_op_digital_service_id \<Rightarrow> u8 \<times> u8 \<times> u8
     \<times> u8 \<times> u8 \<times> u8 \<times> u8 \<times> cec_op_digital_service_id" where
  "cec_ops_clear_digital_timer m digital =
     (rd m 2,
      rd m 3,
      to_u8 ((drop_bit 4 (i8 (rd m 4)) * 10) + (i8 (rd m 4) AND 0xf)),
      to_u8 ((drop_bit 4 (i8 (rd m 5)) * 10) + (i8 (rd m 5) AND 0xf)),
      to_u8 ((drop_bit 4 (i8 (rd m 6)) * 10) + (i8 (rd m 6) AND 0xf)),
      to_u8 ((drop_bit 4 (i8 (rd m 7)) * 10) + (i8 (rd m 7) AND 0xf)),
      rd m 8,
      cec_get_digital_service_id 9 m digital)"

lemma msg_clear_digital_timer_roundtrip:
  assumes "length (m_msg m) = CEC_MAX_MSG_SIZE"
    and "start_hr < 100" and "start_min < 100" and "duration_hr < 100" and "duration_min < 100"
    and "ds_service_id_method digital = CEC_OP_SERVICE_ID_METHOD_BY_DIG_ID"
    and "ds_dig_bcast_system digital < 128" and "\<not> is_atsc (ds_dig_bcast_system digital)"
  shows "cec_ops_clear_digital_timer (cec_msg_clear_digital_timer m reply day month start_hr
      start_min duration_hr duration_min recording_seq digital) d0
    = (day, month, start_hr, start_min, duration_hr, duration_min, recording_seq, digital)"
  using assms
  by (simp add: cec_ops_clear_digital_timer_def cec_msg_clear_digital_timer_def Let_def
      digital_id_roundtrip bcd_roundtrip)

definition cec_msg_clear_ext_timer ::
    "cec_msg \<Rightarrow> int \<Rightarrow> u8 \<Rightarrow> u8 \<Rightarrow> u8 \<Rightarrow>
     u8 \<Rightarrow> u8 \<Rightarrow> u8 \<Rightarrow> u8 \<Rightarrow> u8 \<Rightarrow> u8
     \<Rightarrow> u16 \<Rightarrow> cec_msg" where
  "cec_msg_clear_ext_timer m reply day month start_hr start_min duration_hr duration_min
       recording_seq ext_src_spec plug phys_addr =
     (let m = m\<lparr>m_len := 13\<rparr>;
          m = st 1 CEC_MSG_CLEAR_EXT_TIMER m;
          m = st 2 day m;
          m = st 3 month m;
          m = st 4 (to_u8 (push_bit 4 (i8 start_hr div 10) OR (i8 start_hr mod 10))) m;
          m = st 5 (to_u8 (push_bit 4 (i8 start_min div 10) OR (i8 start_min mod 10))) m;
          m = st 6 (to_u8 (push_bit 4 (i8 duration_hr div 10) OR (i8 duration_hr mod 10))) m;
          m = st 7 (to_u8 (push_bit 4 (i8 duration_min div 10) OR (i8 duration_min mod 10))) m;
          m = st 8 recording_seq m;
          m = st 9 ext_src_spec m;
          m = st 10 plug m;
          m = st 11 (to_u8 (drop_bit 8 (i16 phys_addr))) m;
          m = st 12 (to_u8 (i16 phys_addr AND 0xff)) m;
          m = m\<lparr>m_reply := (if reply \<noteq> 0 then CEC_MSG_TIMER_CLEARED_STATUS else
              0)\<rparr>
      in m)"

lemma cec_msg_clear_ext_timer_keeps [cec_wf]: "keeps m (cec_msg_clear_ext_timer m reply day month
    start_hr start_min duration_hr duration_min recording_seq ext_src_spec plug phys_addr)"
  by (simp add: cec_msg_clear_ext_timer_def Let_def cec_kit)

definition cec_ops_clear_ext_timer ::
    "cec_msg \<Rightarrow> u8 \<times> u8 \<times> u8 \<times> u8 \<times> u8 \<times> u8
     \<times> u8 \<times> u8 \<times> u8 \<times> u16" where
  "cec_ops_clear_ext_timer m =
     (rd m 2,
      rd m 3,
      to_u8 ((drop_bit 4 (i8 (rd m 4)) * 10) + (i8 (rd m 4) AND 0xf)),
      to_u8 ((drop_bit 4 (i8 (rd m 5)) * 10) + (i8 (rd m 5) AND 0xf)),
      to_u8 ((drop_bit 4 (i8 (rd m 6)) * 10) + (i8 (rd m 6) AND 0xf)),
      to_u8 ((drop_bit 4 (i8 (rd m 7)) * 10) + (i8 (rd m 7) AND 0xf)),
      rd m 8,
      rd m 9,
      rd m 10,
      to_u16 (push_bit 8 (i8 (rd m 11)) OR i8 (rd m 12)))"

lemma msg_clear_ext_timer_roundtrip:
  "length (m_msg m) = CEC_MAX_MSG_SIZE \<Longrightarrow> start_hr < 100 \<Longrightarrow>
       start_min < 100 \<Longrightarrow> duration_hr < 100 \<Longrightarrow> duration_min < 100
       \<Longrightarrow>
     cec_ops_clear_ext_timer (cec_msg_clear_ext_timer m reply day month start_hr start_min
         duration_hr duration_min recording_seq ext_src_spec plug phys_addr)
     = (day, month, start_hr, start_min, duration_hr, duration_min, recording_seq, ext_src_spec,
         plug, phys_addr)"
  by (simp add: cec_ops_clear_ext_timer_def cec_msg_clear_ext_timer_def Let_def byte_codec)

definition cec_msg_set_analogue_timer ::
    "cec_msg \<Rightarrow> int \<Rightarrow> u8 \<Rightarrow> u8 \<Rightarrow> u8 \<Rightarrow>
     u8 \<Rightarrow> u8 \<Rightarrow> u8 \<Rightarrow> u8 \<Rightarrow> u8 \<Rightarrow> u16
     \<Rightarrow> u8 \<Rightarrow> cec_msg" where
  "cec_msg_set_analogue_timer m reply day month start_hr start_min duration_hr duration_min
       recording_seq ana_bcast_type ana_freq bcast_system =
     (let m = m\<lparr>m_len := 13\<rparr>;
          m = st 1 CEC_MSG_SET_ANALOGUE_TIMER m;
          m = st 2 day m;
          m = st 3 month m;
          m = st 4 (to_u8 (push_bit 4 (i8 start_hr div 10) OR (i8 start_hr mod 10))) m;
          m = st 5 (to_u8 (push_bit 4 (i8 start_min div 10) OR (i8 start_min mod 10))) m;
          m = st 6 (to_u8 (push_bit 4 (i8 duration_hr div 10) OR (i8 duration_hr mod 10))) m;
          m = st 7 (to_u8 (push_bit 4 (i8 duration_min div 10) OR (i8 duration_min mod 10))) m;
          m = st 8 recording_seq m;
          m = st 9 ana_bcast_type m;
          m = st 10 (to_u8 (drop_bit 8 (i16 ana_freq))) m;
          m = st 11 (to_u8 (i16 ana_freq AND 0xff)) m;
          m = st 12 bcast_system m;
          m = m\<lparr>m_reply := (if reply \<noteq> 0 then CEC_MSG_TIMER_STATUS else 0)\<rparr>
      in m)"

lemma cec_msg_set_analogue_timer_keeps [cec_wf]: "keeps m (cec_msg_set_analogue_timer m reply day
    month start_hr start_min duration_hr duration_min recording_seq ana_bcast_type ana_freq
    bcast_system)"
  by (simp add: cec_msg_set_analogue_timer_def Let_def cec_kit)

definition cec_ops_set_analogue_timer ::
    "cec_msg \<Rightarrow> u8 \<times> u8 \<times> u8 \<times> u8 \<times> u8 \<times> u8
     \<times> u8 \<times> u8 \<times> u16 \<times> u8" where
  "cec_ops_set_analogue_timer m =
     (rd m 2,
      rd m 3,
      to_u8 ((drop_bit 4 (i8 (rd m 4)) * 10) + (i8 (rd m 4) AND 0xf)),
      to_u8 ((drop_bit 4 (i8 (rd m 5)) * 10) + (i8 (rd m 5) AND 0xf)),
      to_u8 ((drop_bit 4 (i8 (rd m 6)) * 10) + (i8 (rd m 6) AND 0xf)),
      to_u8 ((drop_bit 4 (i8 (rd m 7)) * 10) + (i8 (rd m 7) AND 0xf)),
      rd m 8,
      rd m 9,
      to_u16 (push_bit 8 (i8 (rd m 10)) OR i8 (rd m 11)),
      rd m 12)"

lemma msg_set_analogue_timer_roundtrip:
  "length (m_msg m) = CEC_MAX_MSG_SIZE \<Longrightarrow> start_hr < 100 \<Longrightarrow>
       start_min < 100 \<Longrightarrow> duration_hr < 100 \<Longrightarrow> duration_min < 100
       \<Longrightarrow>
     cec_ops_set_analogue_timer (cec_msg_set_analogue_timer m reply day month start_hr start_min
         duration_hr duration_min recording_seq ana_bcast_type ana_freq bcast_system)
     = (day, month, start_hr, start_min, duration_hr, duration_min, recording_seq,
         ana_bcast_type, ana_freq, bcast_system)"
  by (simp add: cec_ops_set_analogue_timer_def cec_msg_set_analogue_timer_def Let_def byte_codec)

definition cec_msg_set_digital_timer ::
    "cec_msg \<Rightarrow> int \<Rightarrow> u8 \<Rightarrow> u8 \<Rightarrow> u8 \<Rightarrow>
     u8 \<Rightarrow> u8 \<Rightarrow> u8 \<Rightarrow> u8 \<Rightarrow>
     cec_op_digital_service_id \<Rightarrow> cec_msg" where
  "cec_msg_set_digital_timer m reply day month start_hr start_min duration_hr duration_min
       recording_seq digital =
     (let m = m\<lparr>m_len := 16\<rparr>;
          m = m\<lparr>m_reply := (if reply \<noteq> 0 then CEC_MSG_TIMER_STATUS else 0)\<rparr>;
          m = st 1 CEC_MSG_SET_DIGITAL_TIMER m;
          m = st 2 day m;
          m = st 3 month m;
          m = st 4 (to_u8 (push_bit 4 (i8 start_hr div 10) OR (i8 start_hr mod 10))) m;
          m = st 5 (to_u8 (push_bit 4 (i8 start_min div 10) OR (i8 start_min mod 10))) m;
          m = st 6 (to_u8 (push_bit 4 (i8 duration_hr div 10) OR (i8 duration_hr mod 10))) m;
          m = st 7 (to_u8 (push_bit 4 (i8 duration_min div 10) OR (i8 duration_min mod 10))) m;
          m = st 8 recording_seq m;
          m = cec_set_digital_service_id 9 digital m
      in m)"

lemma cec_msg_set_digital_timer_keeps [cec_wf]: "keeps m (cec_msg_set_digital_timer m reply day
    month start_hr start_min duration_hr duration_min recording_seq digital)"
  by (simp add: cec_msg_set_digital_timer_def Let_def cec_kit)

definition cec_ops_set_digital_timer ::
    "cec_msg \<Rightarrow> cec_op_digital_service_id \<Rightarrow> u8 \<times> u8 \<times> u8
     \<times> u8 \<times> u8 \<times> u8 \<times> u8 \<times> cec_op_digital_service_id" where
  "cec_ops_set_digital_timer m digital =
     (rd m 2,
      rd m 3,
      to_u8 ((drop_bit 4 (i8 (rd m 4)) * 10) + (i8 (rd m 4) AND 0xf)),
      to_u8 ((drop_bit 4 (i8 (rd m 5)) * 10) + (i8 (rd m 5) AND 0xf)),
      to_u8 ((drop_bit 4 (i8 (rd m 6)) * 10) + (i8 (rd m 6) AND 0xf)),
      to_u8 ((drop_bit 4 (i8 (rd m 7)) * 10) + (i8 (rd m 7) AND 0xf)),
      rd m 8,
      cec_get_digital_service_id 9 m digital)"

lemma msg_set_digital_timer_roundtrip:
  assumes "length (m_msg m) = CEC_MAX_MSG_SIZE"
    and "start_hr < 100" and "start_min < 100" and "duration_hr < 100" and "duration_min < 100"
    and "ds_service_id_method digital = CEC_OP_SERVICE_ID_METHOD_BY_DIG_ID"
    and "ds_dig_bcast_system digital < 128" and "\<not> is_atsc (ds_dig_bcast_system digital)"
  shows "cec_ops_set_digital_timer (cec_msg_set_digital_timer m reply day month start_hr
      start_min duration_hr duration_min recording_seq digital) d0
    = (day, month, start_hr, start_min, duration_hr, duration_min, recording_seq, digital)"
  using assms
  by (simp add: cec_ops_set_digital_timer_def cec_msg_set_digital_timer_def Let_def
      digital_id_roundtrip bcd_roundtrip)

definition cec_msg_set_ext_timer ::
    "cec_msg \<Rightarrow> int \<Rightarrow> u8 \<Rightarrow> u8 \<Rightarrow> u8 \<Rightarrow>
     u8 \<Rightarrow> u8 \<Rightarrow> u8 \<Rightarrow> u8 \<Rightarrow> u8 \<Rightarrow> u8
     \<Rightarrow> u16 \<Rightarrow> cec_msg" where
  "cec_msg_set_ext_timer m reply day month start_hr start_min duration_hr duration_min
       recording_seq ext_src_spec plug phys_addr =
     (let m = m\<lparr>m_len := 13\<rparr>;
          m = st 1 CEC_MSG_SET_EXT_TIMER m;
          m = st 2 day m;
          m = st 3 month m;
          m = st 4 (to_u8 (push_bit 4 (i8 start_hr div 10) OR (i8 start_hr mod 10))) m;
          m = st 5 (to_u8 (push_bit 4 (i8 start_min div 10) OR (i8 start_min mod 10))) m;
          m = st 6 (to_u8 (push_bit 4 (i8 duration_hr div 10) OR (i8 duration_hr mod 10))) m;
          m = st 7 (to_u8 (push_bit 4 (i8 duration_min div 10) OR (i8 duration_min mod 10))) m;
          m = st 8 recording_seq m;
          m = st 9 ext_src_spec m;
          m = st 10 plug m;
          m = st 11 (to_u8 (drop_bit 8 (i16 phys_addr))) m;
          m = st 12 (to_u8 (i16 phys_addr AND 0xff)) m;
          m = m\<lparr>m_reply := (if reply \<noteq> 0 then CEC_MSG_TIMER_STATUS else 0)\<rparr>
      in m)"

lemma cec_msg_set_ext_timer_keeps [cec_wf]: "keeps m (cec_msg_set_ext_timer m reply day month
    start_hr start_min duration_hr duration_min recording_seq ext_src_spec plug phys_addr)"
  by (simp add: cec_msg_set_ext_timer_def Let_def cec_kit)

definition cec_ops_set_ext_timer ::
    "cec_msg \<Rightarrow> u8 \<times> u8 \<times> u8 \<times> u8 \<times> u8 \<times> u8
     \<times> u8 \<times> u8 \<times> u8 \<times> u16" where
  "cec_ops_set_ext_timer m =
     (rd m 2,
      rd m 3,
      to_u8 ((drop_bit 4 (i8 (rd m 4)) * 10) + (i8 (rd m 4) AND 0xf)),
      to_u8 ((drop_bit 4 (i8 (rd m 5)) * 10) + (i8 (rd m 5) AND 0xf)),
      to_u8 ((drop_bit 4 (i8 (rd m 6)) * 10) + (i8 (rd m 6) AND 0xf)),
      to_u8 ((drop_bit 4 (i8 (rd m 7)) * 10) + (i8 (rd m 7) AND 0xf)),
      rd m 8,
      rd m 9,
      rd m 10,
      to_u16 (push_bit 8 (i8 (rd m 11)) OR i8 (rd m 12)))"

lemma msg_set_ext_timer_roundtrip:
  "length (m_msg m) = CEC_MAX_MSG_SIZE \<Longrightarrow> start_hr < 100 \<Longrightarrow>
       start_min < 100 \<Longrightarrow> duration_hr < 100 \<Longrightarrow> duration_min < 100
       \<Longrightarrow>
     cec_ops_set_ext_timer (cec_msg_set_ext_timer m reply day month start_hr start_min
         duration_hr duration_min recording_seq ext_src_spec plug phys_addr)
     = (day, month, start_hr, start_min, duration_hr, duration_min, recording_seq, ext_src_spec,
         plug, phys_addr)"
  by (simp add: cec_ops_set_ext_timer_def cec_msg_set_ext_timer_def Let_def byte_codec)

definition cec_msg_set_timer_program_title ::
    "cec_msg \<Rightarrow> u8 list \<Rightarrow> cec_msg" where
  "cec_msg_set_timer_program_title m prog_title =
     (let len = length prog_title;
          len = (if len > 14 then 14 else len);
          m = m\<lparr>m_len := 2 + of_nat len\<rparr>;
          m = st 1 CEC_MSG_SET_TIMER_PROGRAM_TITLE m;
          m = copy_in 2 (take len prog_title) m
      in m)"

lemma cec_msg_set_timer_program_title_keeps [cec_wf]: "keeps m (cec_msg_set_timer_program_title m prog_title)"
  by (auto simp: cec_msg_set_timer_program_title_def Let_def cec_kit len_2_word)

end
