(* ===== verification/Cec_Msg2.thy ===== *)
theory Cec_Msg2
  imports Cec_Msg1
begin

unbundle bit_operations_syntax

text \<open>
  The message builders (\<open>cec_msg_*\<close>) and parsers (\<open>cec_ops_*\<close>) of
  \<open>include/linux/cec-funcs.h\<close> for system information, deck control, tuner control,
  vendor commands, OSD display and device menu control. Each builder takes the message structure
  and returns it updated; each parser returns the values of its output parameters, in the order
  of the C parameter list. After a builder comes the lemma that it keeps the message well
  formed, after a parser the lemma that it reads back what the builder wrote.
\<close>

definition cec_ops_set_timer_program_title :: "cec_msg \<Rightarrow> u8 list" where
  "cec_ops_set_timer_program_title m =
     (let len = (if m_len m > 2 then m_len m - 2 else 0);
          len = (if len > 14 then 14 else len)
      in take (unat len) (drop 2 (m_msg m)) @ [0])"

lemma set_timer_program_title_roundtrip:
  assumes "length (m_msg m) = CEC_MAX_MSG_SIZE"
  shows "cec_ops_set_timer_program_title (cec_msg_set_timer_program_title m prog_title) = take 14 prog_title @ [0]"
proof -
  let ?s = "take 14 prog_title"
  let ?b = "st 1 CEC_MSG_SET_TIMER_PROGRAM_TITLE (m\<lparr>m_len := 2 + of_nat (length ?s)\<rparr>)"
  have msg: "cec_msg_set_timer_program_title m prog_title = copy_in 2 ?s ?b"
    by (auto simp: cec_msg_set_timer_program_title_def Let_def min_def)
  have len: "unat (if (if m_len (copy_in 2 ?s ?b) > 2 then m_len (copy_in 2 ?s ?b) - 2
      else 0) > 14 then 14 else if m_len (copy_in 2 ?s ?b) > 2
      then m_len (copy_in 2 ?s ?b) - 2 else 0) = length ?s"
    by (rule len_2_decode) simp_all
  have bytes: "take (length ?s) (drop 2 (m_msg (copy_in 2 ?s ?b))) = ?s"
    using assms by (intro take_drop_copy_in) auto
  show ?thesis
    unfolding msg cec_ops_set_timer_program_title_def Let_def len bytes  ..
qed

definition cec_msg_cec_version :: "cec_msg \<Rightarrow> u8 \<Rightarrow> cec_msg" where
  "cec_msg_cec_version m cec_version =
     (let m = m\<lparr>m_len := 3\<rparr>;
          m = st 1 CEC_MSG_CEC_VERSION m;
          m = st 2 cec_version m
      in m)"

lemma cec_msg_cec_version_keeps [cec_wf]: "keeps m (cec_msg_cec_version m cec_version)"
  by (simp add: cec_msg_cec_version_def Let_def cec_kit)

definition cec_ops_cec_version :: "cec_msg \<Rightarrow> u8" where
  "cec_ops_cec_version m = rd m 2"

lemma msg_cec_version_roundtrip:
  "length (m_msg m) = CEC_MAX_MSG_SIZE \<Longrightarrow>
     cec_ops_cec_version (cec_msg_cec_version m cec_version)
     = cec_version"
  by (simp add: cec_ops_cec_version_def cec_msg_cec_version_def Let_def byte_codec)

definition cec_msg_get_cec_version :: "cec_msg \<Rightarrow> int \<Rightarrow> cec_msg" where
  "cec_msg_get_cec_version m reply =
     (let m = m\<lparr>m_len := 2\<rparr>;
          m = st 1 CEC_MSG_GET_CEC_VERSION m;
          m = m\<lparr>m_reply := (if reply \<noteq> 0 then CEC_MSG_CEC_VERSION else 0)\<rparr>
      in m)"

lemma cec_msg_get_cec_version_keeps [cec_wf]: "keeps m (cec_msg_get_cec_version m reply)"
  by (simp add: cec_msg_get_cec_version_def Let_def cec_kit)

definition cec_msg_report_physical_addr ::
    "cec_msg \<Rightarrow> u16 \<Rightarrow> u8 \<Rightarrow> cec_msg" where
  "cec_msg_report_physical_addr m phys_addr prim_devtype =
     (let m = m\<lparr>m_len := 5\<rparr>;
          m = st 0 (to_u8 (i8 (rd m 0) OR 0xf)) m;
          m = st 1 CEC_MSG_REPORT_PHYSICAL_ADDR m;
          m = st 2 (to_u8 (drop_bit 8 (i16 phys_addr))) m;
          m = st 3 (to_u8 (i16 phys_addr AND 0xff)) m;
          m = st 4 prim_devtype m
      in m)"

lemma cec_msg_report_physical_addr_keeps [cec_wf]: "keeps m (cec_msg_report_physical_addr m
    phys_addr prim_devtype)"
  by (simp add: cec_msg_report_physical_addr_def Let_def cec_kit)

definition cec_ops_report_physical_addr :: "cec_msg \<Rightarrow> u16 \<times> u8" where
  "cec_ops_report_physical_addr m =
     (to_u16 (push_bit 8 (i8 (rd m 2)) OR i8 (rd m 3)),
      rd m 4)"

lemma msg_report_physical_addr_roundtrip:
  "length (m_msg m) = CEC_MAX_MSG_SIZE \<Longrightarrow>
     cec_ops_report_physical_addr (cec_msg_report_physical_addr m phys_addr prim_devtype)
     = (phys_addr, prim_devtype)"
  by (simp add: cec_ops_report_physical_addr_def cec_msg_report_physical_addr_def Let_def
      byte_codec)

definition cec_msg_give_physical_addr :: "cec_msg \<Rightarrow> int \<Rightarrow> cec_msg" where
  "cec_msg_give_physical_addr m reply =
     (let m = m\<lparr>m_len := 2\<rparr>;
          m = st 1 CEC_MSG_GIVE_PHYSICAL_ADDR m;
          m = m\<lparr>m_reply := (if reply \<noteq> 0 then CEC_MSG_REPORT_PHYSICAL_ADDR else
              0)\<rparr>
      in m)"

lemma cec_msg_give_physical_addr_keeps [cec_wf]: "keeps m (cec_msg_give_physical_addr m reply)"
  by (simp add: cec_msg_give_physical_addr_def Let_def cec_kit)

definition cec_msg_set_menu_language :: "cec_msg \<Rightarrow> u8 list \<Rightarrow> cec_msg" where
  "cec_msg_set_menu_language m language =
     (let m = m\<lparr>m_len := 5\<rparr>;
          m = st 0 (to_u8 (i8 (rd m 0) OR 0xf)) m;
          m = st 1 CEC_MSG_SET_MENU_LANGUAGE m;
          m = copy_in 2 (take 3 language) m
      in m)"

lemma cec_msg_set_menu_language_keeps [cec_wf]: "keeps m (cec_msg_set_menu_language m language)"
  by (auto simp: cec_msg_set_menu_language_def Let_def cec_kit)

definition cec_ops_set_menu_language :: "cec_msg \<Rightarrow> u8 list" where
  "cec_ops_set_menu_language m = take 3 (drop 2 (m_msg m)) @ [0]"

lemma set_menu_language_roundtrip:
  assumes "length (m_msg m) = CEC_MAX_MSG_SIZE" and "length language = 3"
  shows "cec_ops_set_menu_language (cec_msg_set_menu_language m language) = language @ [0]"
  using assms take_drop_copy_in [of "(st 1 CEC_MSG_SET_MENU_LANGUAGE
      (st 0 (to_u8 (i8 (rd m 0) OR 0xf)) m))\<lparr>m_len := 5\<rparr>" 2 language]
  by (simp add: cec_ops_set_menu_language_def cec_msg_set_menu_language_def Let_def)

definition cec_msg_get_menu_language :: "cec_msg \<Rightarrow> int \<Rightarrow> cec_msg" where
  "cec_msg_get_menu_language m reply =
     (let m = m\<lparr>m_len := 2\<rparr>;
          m = st 1 CEC_MSG_GET_MENU_LANGUAGE m;
          m = m\<lparr>m_reply := (if reply \<noteq> 0 then CEC_MSG_SET_MENU_LANGUAGE else
              0)\<rparr>
      in m)"

lemma cec_msg_get_menu_language_keeps [cec_wf]: "keeps m (cec_msg_get_menu_language m reply)"
  by (simp add: cec_msg_get_menu_language_def Let_def cec_kit)

definition cec_msg_report_features ::
    "cec_msg \<Rightarrow> u8 \<Rightarrow> u8 \<Rightarrow> u8 \<Rightarrow> u8 \<Rightarrow>
     cec_msg" where
  "cec_msg_report_features m cec_version all_device_types rc_profile dev_features =
     (let m = m\<lparr>m_len := 6\<rparr>;
          m = st 0 (to_u8 (i8 (rd m 0) OR 0xf)) m;
          m = st 1 CEC_MSG_REPORT_FEATURES m;
          m = st 2 cec_version m;
          m = st 3 all_device_types m;
          m = st 4 rc_profile m;
          m = st 5 dev_features m
      in m)"

lemma cec_msg_report_features_keeps [cec_wf]: "keeps m (cec_msg_report_features m cec_version
    all_device_types rc_profile dev_features)"
  by (simp add: cec_msg_report_features_def Let_def cec_kit)

text \<open>The loop \<open>while (p < limit && (*p & CEC_OP_FEAT_EXT)) p++\<close> over an index
    into the array.\<close>

function skip_ext :: "cec_msg \<Rightarrow> nat \<Rightarrow> nat \<Rightarrow> nat" where
  "skip_ext m limit p =
     (if p < limit \<and> i8 (rd m p) AND i8 CEC_OP_FEAT_EXT \<noteq> 0 then skip_ext m limit
         (Suc p) else p)"
  by pat_completeness auto
termination
  by (relation "measure (\<lambda>(m, limit, p). limit - p)") auto

declare skip_ext.simps [simp del]

text \<open>The two pointer results are indices into the array, \<open>None\<close> for a null
    pointer.\<close>

definition cec_ops_report_features ::
    "cec_msg \<Rightarrow> u8 \<times> u8 \<times> nat option \<times> nat option" where
  "cec_ops_report_features m =
     (let p = 4;
          cec_version = rd m 2;
          all_device_types = rd m 3;
          rc_profile = Some p;
          dev_features = None;
          p = skip_ext m 14 p;
          (dev_features, p) =
            (if i8 (rd m p) AND i8 CEC_OP_FEAT_EXT = 0
             then (Some (p + 1), skip_ext m 15 p) else (dev_features, p));
          (rc_profile, dev_features) =
            (if i8 (rd m p) AND i8 CEC_OP_FEAT_EXT \<noteq> 0 then (None, None)
             else (rc_profile, dev_features))
      in (cec_version, all_device_types, rc_profile, dev_features))"

lemma skip_ext_bounds: "p \<le> limit \<Longrightarrow> p \<le> skip_ext m limit p \<and> skip_ext m limit p \<le> limit"
proof (induction m limit p rule: skip_ext.induct)
  case (1 m limit p)
  then show ?case by (subst (1 2) skip_ext.simps) force
qed

lemma skip_ext_stop: "i8 (rd m p) AND i8 CEC_OP_FEAT_EXT = 0 \<Longrightarrow> skip_ext m limit p = p"
  by (subst skip_ext.simps) simp

text \<open>Both pointers, when they are not null, point into the payload array.\<close>

lemma report_features_bounds:
  "cec_ops_report_features m = (v, t, rc, dev) \<Longrightarrow>
     (rc = None \<longrightarrow> dev = None) \<and> rc \<in> {None, Some 4} \<and>
     (\<forall>k. dev = Some k \<longrightarrow> 4 < k \<and> k < CEC_MAX_MSG_SIZE)"
  using skip_ext_bounds [of 4 14 m]
  by (auto simp: cec_ops_report_features_def Let_def split: if_splits prod.splits)

text \<open>
  When the profile byte has no extension bit, the second loop stops at that same byte: the
  device-feature bytes are returned without their extension bits being looked at.
\<close>

lemma report_features_unchecked:
  "i8 (rd m 4) AND i8 CEC_OP_FEAT_EXT = 0 \<Longrightarrow>
     cec_ops_report_features m = (rd m 2, rd m 3, Some 4, Some 5)"
  by (simp add: cec_ops_report_features_def skip_ext_stop Let_def)

definition cec_msg_give_features :: "cec_msg \<Rightarrow> int \<Rightarrow> cec_msg" where
  "cec_msg_give_features m reply =
     (let m = m\<lparr>m_len := 2\<rparr>;
          m = st 1 CEC_MSG_GIVE_FEATURES m;
          m = m\<lparr>m_reply := (if reply \<noteq> 0 then CEC_MSG_REPORT_FEATURES else 0)\<rparr>
      in m)"

lemma cec_msg_give_features_keeps [cec_wf]: "keeps m (cec_msg_give_features m reply)"
  by (simp add: cec_msg_give_features_def Let_def cec_kit)

definition cec_msg_deck_control :: "cec_msg \<Rightarrow> u8 \<Rightarrow> cec_msg" where
  "cec_msg_deck_control m deck_control_mode =
     (let m = m\<lparr>m_len := 3\<rparr>;
          m = st 1 CEC_MSG_DECK_CONTROL m;
          m = st 2 deck_control_mode m
      in m)"

lemma cec_msg_deck_control_keeps [cec_wf]: "keeps m (cec_msg_deck_control m deck_control_mode)"
  by (simp add: cec_msg_deck_control_def Let_def cec_kit)

definition cec_ops_deck_control :: "cec_msg \<Rightarrow> u8" where
  "cec_ops_deck_control m = rd m 2"

lemma msg_deck_control_roundtrip:
  "length (m_msg m) = CEC_MAX_MSG_SIZE \<Longrightarrow>
     cec_ops_deck_control (cec_msg_deck_control m deck_control_mode)
     = deck_control_mode"
  by (simp add: cec_ops_deck_control_def cec_msg_deck_control_def Let_def byte_codec)

definition cec_msg_deck_status :: "cec_msg \<Rightarrow> u8 \<Rightarrow> cec_msg" where
  "cec_msg_deck_status m deck_info =
     (let m = m\<lparr>m_len := 3\<rparr>;
          m = st 1 CEC_MSG_DECK_STATUS m;
          m = st 2 deck_info m
      in m)"

lemma cec_msg_deck_status_keeps [cec_wf]: "keeps m (cec_msg_deck_status m deck_info)"
  by (simp add: cec_msg_deck_status_def Let_def cec_kit)

definition cec_ops_deck_status :: "cec_msg \<Rightarrow> u8" where
  "cec_ops_deck_status m = rd m 2"

lemma msg_deck_status_roundtrip:
  "length (m_msg m) = CEC_MAX_MSG_SIZE \<Longrightarrow>
     cec_ops_deck_status (cec_msg_deck_status m deck_info)
     = deck_info"
  by (simp add: cec_ops_deck_status_def cec_msg_deck_status_def Let_def byte_codec)

definition cec_msg_give_deck_status ::
    "cec_msg \<Rightarrow> int \<Rightarrow> u8 \<Rightarrow> cec_msg" where
  "cec_msg_give_deck_status m reply status_req =
     (let m = m\<lparr>m_len := 3\<rparr>;
          m = st 1 CEC_MSG_GIVE_DECK_STATUS m;
          m = st 2 status_req m;
          m = m\<lparr>m_reply := (if reply \<noteq> 0 \<and> status_req \<noteq>
              CEC_OP_STATUS_REQ_OFF then CEC_MSG_DECK_STATUS else 0)\<rparr>
      in m)"

lemma cec_msg_give_deck_status_keeps [cec_wf]: "keeps m (cec_msg_give_deck_status m reply
    status_req)"
  by (simp add: cec_msg_give_deck_status_def Let_def cec_kit)

definition cec_ops_give_deck_status :: "cec_msg \<Rightarrow> u8" where
  "cec_ops_give_deck_status m = rd m 2"

lemma msg_give_deck_status_roundtrip:
  "length (m_msg m) = CEC_MAX_MSG_SIZE \<Longrightarrow>
     cec_ops_give_deck_status (cec_msg_give_deck_status m reply status_req)
     = status_req"
  by (simp add: cec_ops_give_deck_status_def cec_msg_give_deck_status_def Let_def byte_codec)

definition cec_msg_play :: "cec_msg \<Rightarrow> u8 \<Rightarrow> cec_msg" where
  "cec_msg_play m play_mode =
     (let m = m\<lparr>m_len := 3\<rparr>;
          m = st 1 CEC_MSG_PLAY m;
          m = st 2 play_mode m
      in m)"

lemma cec_msg_play_keeps [cec_wf]: "keeps m (cec_msg_play m play_mode)"
  by (simp add: cec_msg_play_def Let_def cec_kit)

definition cec_ops_play :: "cec_msg \<Rightarrow> u8" where
  "cec_ops_play m = rd m 2"

lemma msg_play_roundtrip:
  "length (m_msg m) = CEC_MAX_MSG_SIZE \<Longrightarrow>
     cec_ops_play (cec_msg_play m play_mode)
     = play_mode"
  by (simp add: cec_ops_play_def cec_msg_play_def Let_def byte_codec)

definition cec_msg_tuner_device_status_analog ::
    "cec_msg \<Rightarrow> u8 \<Rightarrow> u8 \<Rightarrow> u8 \<Rightarrow> u16 \<Rightarrow>
     u8 \<Rightarrow> cec_msg" where
  "cec_msg_tuner_device_status_analog m rec_flag tuner_display_info ana_bcast_type ana_freq
       bcast_system =
     (let m = m\<lparr>m_len := 7\<rparr>;
          m = st 1 CEC_MSG_TUNER_DEVICE_STATUS m;
          m = st 2 (to_u8 (push_bit 7 (i8 rec_flag) OR i8 tuner_display_info)) m;
          m = st 3 ana_bcast_type m;
          m = st 4 (to_u8 (drop_bit 8 (i16 ana_freq))) m;
          m = st 5 (to_u8 (i16 ana_freq AND 0xff)) m;
          m = st 6 bcast_system m
      in m)"

lemma cec_msg_tuner_device_status_analog_keeps [cec_wf]: "keeps m
    (cec_msg_tuner_device_status_analog m rec_flag tuner_display_info ana_bcast_type ana_freq
    bcast_system)"
  by (simp add: cec_msg_tuner_device_status_analog_def Let_def cec_kit)

definition cec_msg_tuner_device_status_digital ::
    "cec_msg \<Rightarrow> u8 \<Rightarrow> u8 \<Rightarrow> cec_op_digital_service_id
     \<Rightarrow> cec_msg" where
  "cec_msg_tuner_device_status_digital m rec_flag tuner_display_info digital =
     (let m = m\<lparr>m_len := 10\<rparr>;
          m = st 1 CEC_MSG_TUNER_DEVICE_STATUS m;
          m = st 2 (to_u8 (push_bit 7 (i8 rec_flag) OR i8 tuner_display_info)) m;
          m = cec_set_digital_service_id 3 digital m
      in m)"

lemma cec_msg_tuner_device_status_digital_keeps [cec_wf]: "keeps m
    (cec_msg_tuner_device_status_digital m rec_flag tuner_display_info digital)"
  by (simp add: cec_msg_tuner_device_status_digital_def Let_def cec_kit)

definition cec_msg_tuner_device_status ::
    "cec_msg \<Rightarrow> cec_op_tuner_device_info \<Rightarrow> cec_msg" where
  "cec_msg_tuner_device_status m tuner_dev_info =
     (if td_is_analog tuner_dev_info \<noteq> 0 then
        cec_msg_tuner_device_status_analog m (td_rec_flag tuner_dev_info)
          (td_tuner_display_info tuner_dev_info) (td_ana_bcast_type tuner_dev_info)
          (td_ana_freq tuner_dev_info) (td_bcast_system tuner_dev_info)
      else
        cec_msg_tuner_device_status_digital m (td_rec_flag tuner_dev_info)
          (td_tuner_display_info tuner_dev_info) (td_digital tuner_dev_info))"

lemma cec_msg_tuner_device_status_keeps [cec_wf]:
  "keeps m (cec_msg_tuner_device_status m tuner_dev_info)"
  by (simp add: cec_msg_tuner_device_status_def cec_wf)

definition cec_ops_tuner_device_status ::
    "cec_msg \<Rightarrow> cec_op_tuner_device_info \<Rightarrow> cec_op_tuner_device_info" where
  "cec_ops_tuner_device_status m tuner_dev_info =
     (let t = tuner_dev_info\<lparr>td_is_analog := (if m_len m < 10 then 1 else 0)\<rparr>;
          t = t\<lparr>td_rec_flag := to_u8 (drop_bit 7 (i8 (rd m 2)))\<rparr>;
          t = t\<lparr>td_tuner_display_info := to_u8 (i8 (rd m 2) AND 0x7f)\<rparr>
      in if td_is_analog t \<noteq> 0 then
        t\<lparr>td_ana_bcast_type := rd m 3,
          td_ana_freq := to_u16 (push_bit 8 (i8 (rd m 4)) OR i8 (rd m 5)),
          td_bcast_system := rd m 6\<rparr>
      else t\<lparr>td_digital := cec_get_digital_service_id 3 m (td_digital t)\<rparr>)"

lemma tuner_device_status_analog_roundtrip:
  assumes "length (m_msg m) = CEC_MAX_MSG_SIZE" and "td_is_analog t = 1"
    and "td_rec_flag t < 2" and "td_tuner_display_info t < 128"
  shows "cec_ops_tuner_device_status (cec_msg_tuner_device_status m t) t0
    = t\<lparr>td_digital := td_digital t0\<rparr>"
  using assms
  by (simp add: cec_ops_tuner_device_status_def cec_msg_tuner_device_status_def
      cec_msg_tuner_device_status_analog_def Let_def be16_roundtrip flag7)

lemma tuner_device_status_digital_roundtrip:
  assumes "length (m_msg m) = CEC_MAX_MSG_SIZE" and "td_is_analog t = 0"
    and "td_rec_flag t < 2" and "td_tuner_display_info t < 128"
    and "ds_service_id_method (td_digital t) = CEC_OP_SERVICE_ID_METHOD_BY_DIG_ID"
    and "ds_dig_bcast_system (td_digital t) < 128"
    and "\<not> is_atsc (ds_dig_bcast_system (td_digital t))"
  shows "cec_ops_tuner_device_status (cec_msg_tuner_device_status m t) t0
    = t\<lparr>td_ana_bcast_type := td_ana_bcast_type t0, td_ana_freq := td_ana_freq t0,
        td_bcast_system := td_bcast_system t0\<rparr>"
  using assms
  by (simp add: cec_ops_tuner_device_status_def cec_msg_tuner_device_status_def
      cec_msg_tuner_device_status_digital_def Let_def flag7 digital_id_roundtrip)

definition cec_msg_give_tuner_device_status ::
    "cec_msg \<Rightarrow> int \<Rightarrow> u8 \<Rightarrow> cec_msg" where
  "cec_msg_give_tuner_device_status m reply status_req =
     (let m = m\<lparr>m_len := 3\<rparr>;
          m = st 1 CEC_MSG_GIVE_TUNER_DEVICE_STATUS m;
          m = st 2 status_req m;
          m = m\<lparr>m_reply := (if reply \<noteq> 0 \<and> status_req \<noteq>
              CEC_OP_STATUS_REQ_OFF then CEC_MSG_TUNER_DEVICE_STATUS else 0)\<rparr>
      in m)"

lemma cec_msg_give_tuner_device_status_keeps [cec_wf]: "keeps m (cec_msg_give_tuner_device_status
    m reply status_req)"
  by (simp add: cec_msg_give_tuner_device_status_def Let_def cec_kit)

definition cec_ops_give_tuner_device_status :: "cec_msg \<Rightarrow> u8" where
  "cec_ops_give_tuner_device_status m = rd m 2"

lemma msg_give_tuner_device_status_roundtrip:
  "length (m_msg m) = CEC_MAX_MSG_SIZE \<Longrightarrow>
     cec_ops_give_tuner_device_status (cec_msg_give_tuner_device_status m reply status_req)
     = status_req"
  by (simp add: cec_ops_give_tuner_device_status_def cec_msg_give_tuner_device_status_def Let_def
      byte_codec)

definition cec_msg_select_analogue_service ::
    "cec_msg \<Rightarrow> u8 \<Rightarrow> u16 \<Rightarrow> u8 \<Rightarrow> cec_msg" where
  "cec_msg_select_analogue_service m ana_bcast_type ana_freq bcast_system =
     (let m = m\<lparr>m_len := 6\<rparr>;
          m = st 1 CEC_MSG_SELECT_ANALOGUE_SERVICE m;
          m = st 2 ana_bcast_type m;
          m = st 3 (to_u8 (drop_bit 8 (i16 ana_freq))) m;
          m = st 4 (to_u8 (i16 ana_freq AND 0xff)) m;
          m = st 5 bcast_system m
      in m)"

lemma cec_msg_select_analogue_service_keeps [cec_wf]: "keeps m (cec_msg_select_analogue_service m
    ana_bcast_type ana_freq bcast_system)"
  by (simp add: cec_msg_select_analogue_service_def Let_def cec_kit)

definition cec_ops_select_analogue_service ::
    "cec_msg \<Rightarrow> u8 \<times> u16 \<times> u8" where
  "cec_ops_select_analogue_service m =
     (rd m 2,
      to_u16 (push_bit 8 (i8 (rd m 3)) OR i8 (rd m 4)),
      rd m 5)"

lemma msg_select_analogue_service_roundtrip:
  "length (m_msg m) = CEC_MAX_MSG_SIZE \<Longrightarrow>
     cec_ops_select_analogue_service (cec_msg_select_analogue_service m ana_bcast_type ana_freq
         bcast_system)
     = (ana_bcast_type, ana_freq, bcast_system)"
  by (simp add: cec_ops_select_analogue_service_def cec_msg_select_analogue_service_def Let_def
      byte_codec)

definition cec_msg_select_digital_service ::
    "cec_msg \<Rightarrow> cec_op_digital_service_id \<Rightarrow> cec_msg" where
  "cec_msg_select_digital_service m digital =
     (let m = m\<lparr>m_len := 9\<rparr>;
          m = st 1 CEC_MSG_SELECT_DIGITAL_SERVICE m;
          m = cec_set_digital_service_id 2 digital m
      in m)"

lemma cec_msg_select_digital_service_keeps [cec_wf]: "keeps m (cec_msg_select_digital_service m
    digital)"
  by (simp add: cec_msg_select_digital_service_def Let_def cec_kit)

definition cec_ops_select_digital_service ::
    "cec_msg \<Rightarrow> cec_op_digital_service_id \<Rightarrow> cec_op_digital_service_id" where
  "cec_ops_select_digital_service m digital = cec_get_digital_service_id 2 m digital"

lemma select_digital_service_roundtrip:
  assumes "length (m_msg m) = CEC_MAX_MSG_SIZE"
    and "ds_service_id_method digital = CEC_OP_SERVICE_ID_METHOD_BY_DIG_ID"
    and "ds_dig_bcast_system digital < 128" and "\<not> is_atsc (ds_dig_bcast_system digital)"
  shows "cec_ops_select_digital_service (cec_msg_select_digital_service m digital) d0 = digital"
  using assms
  by (simp add: cec_ops_select_digital_service_def cec_msg_select_digital_service_def Let_def
      digital_id_roundtrip)

definition cec_msg_tuner_step_decrement :: "cec_msg \<Rightarrow> cec_msg" where
  "cec_msg_tuner_step_decrement m =
     (let m = m\<lparr>m_len := 2\<rparr>;
          m = st 1 CEC_MSG_TUNER_STEP_DECREMENT m
      in m)"

lemma cec_msg_tuner_step_decrement_keeps [cec_wf]: "keeps m (cec_msg_tuner_step_decrement m)"
  by (simp add: cec_msg_tuner_step_decrement_def Let_def cec_kit)

definition cec_msg_tuner_step_increment :: "cec_msg \<Rightarrow> cec_msg" where
  "cec_msg_tuner_step_increment m =
     (let m = m\<lparr>m_len := 2\<rparr>;
          m = st 1 CEC_MSG_TUNER_STEP_INCREMENT m
      in m)"

lemma cec_msg_tuner_step_increment_keeps [cec_wf]: "keeps m (cec_msg_tuner_step_increment m)"
  by (simp add: cec_msg_tuner_step_increment_def Let_def cec_kit)

definition cec_msg_device_vendor_id :: "cec_msg \<Rightarrow> u32 \<Rightarrow> cec_msg" where
  "cec_msg_device_vendor_id m vendor_id =
     (let m = m\<lparr>m_len := 5\<rparr>;
          m = st 0 (to_u8 (i8 (rd m 0) OR 0xf)) m;
          m = st 1 CEC_MSG_DEVICE_VENDOR_ID m;
          m = st 2 (to_u8 (drop_bit 16 vendor_id)) m;
          m = st 3 (to_u8 (drop_bit 8 vendor_id AND 0xff)) m;
          m = st 4 (to_u8 (vendor_id AND 0xff)) m
      in m)"

lemma cec_msg_device_vendor_id_keeps [cec_wf]: "keeps m (cec_msg_device_vendor_id m vendor_id)"
  by (simp add: cec_msg_device_vendor_id_def Let_def cec_kit)

definition cec_ops_device_vendor_id :: "cec_msg \<Rightarrow> u32" where
  "cec_ops_device_vendor_id m = (push_bit 16 (i8 (rd m 2)) OR push_bit 8 (i8 (rd m 3))) OR i8 (rd
       m 4)"

lemma msg_device_vendor_id_roundtrip:
  "length (m_msg m) = CEC_MAX_MSG_SIZE \<Longrightarrow> vendor_id < 0x1000000 \<Longrightarrow>
     cec_ops_device_vendor_id (cec_msg_device_vendor_id m vendor_id)
     = vendor_id"
  by (simp add: cec_ops_device_vendor_id_def cec_msg_device_vendor_id_def Let_def byte_codec)

definition cec_msg_give_device_vendor_id :: "cec_msg \<Rightarrow> int \<Rightarrow> cec_msg" where
  "cec_msg_give_device_vendor_id m reply =
     (let m = m\<lparr>m_len := 2\<rparr>;
          m = st 1 CEC_MSG_GIVE_DEVICE_VENDOR_ID m;
          m = m\<lparr>m_reply := (if reply \<noteq> 0 then CEC_MSG_DEVICE_VENDOR_ID else 0)\<rparr>
      in m)"

lemma cec_msg_give_device_vendor_id_keeps [cec_wf]: "keeps m (cec_msg_give_device_vendor_id m
    reply)"
  by (simp add: cec_msg_give_device_vendor_id_def Let_def cec_kit)

definition cec_msg_vendor_command ::
    "cec_msg \<Rightarrow> u8 \<Rightarrow> u8 list \<Rightarrow> cec_msg" where
  "cec_msg_vendor_command m sz vendor_cmd =
     (let sz = (if sz > 14 then 14 else sz);
          m = m\<lparr>m_len := 2 + i8 sz\<rparr>;
          m = st 1 CEC_MSG_VENDOR_COMMAND m;
          m = copy_in 2 (take (unat sz) vendor_cmd) m
      in m)"

lemma cec_msg_vendor_command_keeps [cec_wf]: "keeps m (cec_msg_vendor_command m sz vendor_cmd)"
  by (auto simp: cec_msg_vendor_command_def Let_def cec_kit not_less word_le_nat_alt unat_add_small min_def)

text \<open>The pointer result \<open>msg->msg + 2\<close> is given as the bytes from there to
    the end of the array.\<close>

definition cec_ops_vendor_command :: "cec_msg \<Rightarrow> u8 \<times> u8 list" where
  "cec_ops_vendor_command m =
     (let sz = to_u8 (m_len m - 2);
          sz = (if sz > 14 then 14 else sz)
      in (sz, drop 2 (m_msg m)))"

lemma vendor_command_roundtrip:
  assumes "length (m_msg m) = CEC_MAX_MSG_SIZE" and "sz \<le> 14" and "length vendor_cmd = unat sz"
  shows "fst (cec_ops_vendor_command (cec_msg_vendor_command m sz vendor_cmd)) = sz"
    and "take (unat sz) (snd (cec_ops_vendor_command (cec_msg_vendor_command m sz vendor_cmd)))
      = vendor_cmd"
proof -
  have sz: "\<not> sz > 14" "unat sz \<le> 14" using assms(2) by (auto simp: word_le_nat_alt word_less_nat_alt)
  then show "fst (cec_ops_vendor_command (cec_msg_vendor_command m sz vendor_cmd)) = sz"
    by (simp add: cec_ops_vendor_command_def cec_msg_vendor_command_def Let_def)
  show "take (unat sz) (snd (cec_ops_vendor_command (cec_msg_vendor_command m sz vendor_cmd)))
      = vendor_cmd"
    using sz assms(1,3) take_drop_copy_in [of "st 1 CEC_MSG_VENDOR_COMMAND m" 2 vendor_cmd]
      take_drop_copy_in [of "(st 1 CEC_MSG_VENDOR_COMMAND m)\<lparr>m_len := 2 + i8 sz\<rparr>" 2 vendor_cmd]
    by (simp add: cec_ops_vendor_command_def cec_msg_vendor_command_def Let_def)
qed

definition cec_msg_vendor_command_with_id ::
    "cec_msg \<Rightarrow> u32 \<Rightarrow> u8 \<Rightarrow> u8 list \<Rightarrow> cec_msg" where
  "cec_msg_vendor_command_with_id m vendor_id sz vendor_cmd =
     (let sz = (if sz > 11 then 11 else sz);
          m = m\<lparr>m_len := 5 + i8 sz\<rparr>;
          m = st 1 CEC_MSG_VENDOR_COMMAND_WITH_ID m;
          m = st 2 (to_u8 (drop_bit 16 vendor_id)) m;
          m = st 3 (to_u8 (drop_bit 8 vendor_id AND 0xff)) m;
          m = st 4 (to_u8 (vendor_id AND 0xff)) m;
          m = copy_in 5 (take (unat sz) vendor_cmd) m
      in m)"

lemma cec_msg_vendor_command_with_id_keeps [cec_wf]: "keeps m (cec_msg_vendor_command_with_id m vendor_id sz vendor_cmd)"
  by (auto simp: cec_msg_vendor_command_with_id_def Let_def cec_kit not_less word_le_nat_alt unat_add_small min_def)

definition cec_ops_vendor_command_with_id ::
    "cec_msg \<Rightarrow> u32 \<times> u8 \<times> u8 list" where
  "cec_ops_vendor_command_with_id m =
     (let sz = to_u8 (m_len m - 5);
          sz = (if sz > 11 then 11 else sz)
      in (push_bit 16 (i8 (rd m 2)) OR push_bit 8 (i8 (rd m 3)) OR i8 (rd m 4), sz, drop 5 (m_msg
          m)))"

lemma vendor_command_with_id_roundtrip:
  assumes "length (m_msg m) = CEC_MAX_MSG_SIZE" and "sz \<le> 11" and "length vendor_cmd = unat sz"
    and "vendor_id < 0x1000000"
  defines "r \<equiv> cec_ops_vendor_command_with_id
    (cec_msg_vendor_command_with_id m vendor_id sz vendor_cmd)"
  shows "fst r = vendor_id" and "fst (snd r) = sz" and "take (unat sz) (snd (snd r)) = vendor_cmd"
proof -
  have sz: "\<not> sz > 11" "unat sz \<le> 11" using assms(2) by (auto simp: word_le_nat_alt word_less_nat_alt)
  note defs = r_def cec_ops_vendor_command_with_id_def cec_msg_vendor_command_with_id_def Let_def
  show "fst r = vendor_id" and "fst (snd r) = sz"
    using sz assms(1,3,4) by (simp_all add: defs be24_roundtrip)
  show "take (unat sz) (snd (snd r)) = vendor_cmd"
    using sz assms(1,3) take_drop_copy_in [of "(st 4 (to_u8 (vendor_id AND 0xff))
      (st 3 (to_u8 (drop_bit 8 vendor_id AND 0xff)) (st 2 (to_u8 (drop_bit 16 vendor_id))
      (st 1 CEC_MSG_VENDOR_COMMAND_WITH_ID m))))\<lparr>m_len := 5 + i8 sz\<rparr>" 5 vendor_cmd]
    by (simp add: defs)
qed

definition cec_msg_vendor_remote_button_down ::
    "cec_msg \<Rightarrow> u8 \<Rightarrow> u8 list \<Rightarrow> cec_msg" where
  "cec_msg_vendor_remote_button_down m sz rc_code =
     (let sz = (if sz > 14 then 14 else sz);
          m = m\<lparr>m_len := 2 + i8 sz\<rparr>;
          m = st 1 CEC_MSG_VENDOR_REMOTE_BUTTON_DOWN m;
          m = copy_in 2 (take (unat sz) rc_code) m
      in m)"

lemma cec_msg_vendor_remote_button_down_keeps [cec_wf]: "keeps m (cec_msg_vendor_remote_button_down m sz rc_code)"
  by (auto simp: cec_msg_vendor_remote_button_down_def Let_def cec_kit not_less word_le_nat_alt unat_add_small min_def)

definition cec_ops_vendor_remote_button_down :: "cec_msg \<Rightarrow> u8 \<times> u8 list" where
  "cec_ops_vendor_remote_button_down m =
     (let sz = to_u8 (m_len m - 2);
          sz = (if sz > 14 then 14 else sz)
      in (sz, drop 2 (m_msg m)))"

definition cec_msg_vendor_remote_button_up :: "cec_msg \<Rightarrow> cec_msg" where
  "cec_msg_vendor_remote_button_up m =
     (let m = m\<lparr>m_len := 2\<rparr>;
          m = st 1 CEC_MSG_VENDOR_REMOTE_BUTTON_UP m
      in m)"

lemma cec_msg_vendor_remote_button_up_keeps [cec_wf]: "keeps m (cec_msg_vendor_remote_button_up m)"
  by (simp add: cec_msg_vendor_remote_button_up_def Let_def cec_kit)

definition cec_msg_set_osd_string ::
    "cec_msg \<Rightarrow> u8 \<Rightarrow> u8 list \<Rightarrow> cec_msg" where
  "cec_msg_set_osd_string m disp_ctl osd =
     (let len = length osd;
          len = (if len > 13 then 13 else len);
          m = m\<lparr>m_len := 3 + of_nat len\<rparr>;
          m = st 1 CEC_MSG_SET_OSD_STRING m;
          m = st 2 disp_ctl m;
          m = copy_in 3 (take len osd) m
      in m)"

lemma cec_msg_set_osd_string_keeps [cec_wf]: "keeps m (cec_msg_set_osd_string m disp_ctl osd)"
  by (auto simp: cec_msg_set_osd_string_def Let_def cec_kit len_3_word)

definition cec_ops_set_osd_string :: "cec_msg \<Rightarrow> u8 \<times> u8 list" where
  "cec_ops_set_osd_string m =
     (let len = (if m_len m > 3 then m_len m - 3 else 0);
          len = (if len > 13 then 13 else len)
      in (rd m 2, take (unat len) (drop 3 (m_msg m)) @ [0]))"

lemma set_osd_string_roundtrip:
  assumes "length (m_msg m) = CEC_MAX_MSG_SIZE"
  shows "cec_ops_set_osd_string (cec_msg_set_osd_string m disp_ctl osd) = (disp_ctl, take 13 osd @ [0])"
proof -
  let ?s = "take 13 osd"
  let ?b = "st 2 disp_ctl (st 1 CEC_MSG_SET_OSD_STRING (m\<lparr>m_len := 3 + of_nat (length ?s)\<rparr>))"
  have msg: "cec_msg_set_osd_string m disp_ctl osd = copy_in 3 ?s ?b"
    by (auto simp: cec_msg_set_osd_string_def Let_def min_def)
  have len: "unat (if (if m_len (copy_in 3 ?s ?b) > 3 then m_len (copy_in 3 ?s ?b) - 3
      else 0) > 13 then 13 else if m_len (copy_in 3 ?s ?b) > 3
      then m_len (copy_in 3 ?s ?b) - 3 else 0) = length ?s"
    by (rule len_3_decode) simp_all
  have bytes: "take (length ?s) (drop 3 (m_msg (copy_in 3 ?s ?b))) = ?s"
    using assms by (intro take_drop_copy_in) auto
  have ctl: "rd (copy_in 3 ?s ?b) 2 = disp_ctl"
    using assms by simp
  show ?thesis
    unfolding msg cec_ops_set_osd_string_def Let_def len bytes ctl ..
qed

definition cec_msg_set_osd_name :: "cec_msg \<Rightarrow> u8 list \<Rightarrow> cec_msg" where
  "cec_msg_set_osd_name m osd_name =
     (let len = length osd_name;
          len = (if len > 14 then 14 else len);
          m = m\<lparr>m_len := 2 + of_nat len\<rparr>;
          m = st 1 CEC_MSG_SET_OSD_NAME m;
          m = copy_in 2 (take len osd_name) m
      in m)"

lemma cec_msg_set_osd_name_keeps [cec_wf]: "keeps m (cec_msg_set_osd_name m osd_name)"
  by (auto simp: cec_msg_set_osd_name_def Let_def cec_kit len_2_word)

definition cec_ops_set_osd_name :: "cec_msg \<Rightarrow> u8 list" where
  "cec_ops_set_osd_name m =
     (let len = (if m_len m > 2 then m_len m - 2 else 0);
          len = (if len > 14 then 14 else len)
      in take (unat len) (drop 2 (m_msg m)) @ [0])"

lemma set_osd_name_roundtrip:
  assumes "length (m_msg m) = CEC_MAX_MSG_SIZE"
  shows "cec_ops_set_osd_name (cec_msg_set_osd_name m osd_name) = take 14 osd_name @ [0]"
proof -
  let ?s = "take 14 osd_name"
  let ?b = "st 1 CEC_MSG_SET_OSD_NAME (m\<lparr>m_len := 2 + of_nat (length ?s)\<rparr>)"
  have msg: "cec_msg_set_osd_name m osd_name = copy_in 2 ?s ?b"
    by (auto simp: cec_msg_set_osd_name_def Let_def min_def)
  have len: "unat (if (if m_len (copy_in 2 ?s ?b) > 2 then m_len (copy_in 2 ?s ?b) - 2
      else 0) > 14 then 14 else if m_len (copy_in 2 ?s ?b) > 2
      then m_len (copy_in 2 ?s ?b) - 2 else 0) = length ?s"
    by (rule len_2_decode) simp_all
  have bytes: "take (length ?s) (drop 2 (m_msg (copy_in 2 ?s ?b))) = ?s"
    using assms by (intro take_drop_copy_in) auto
  show ?thesis
    unfolding msg cec_ops_set_osd_name_def Let_def len bytes  ..
qed

definition cec_msg_give_osd_name :: "cec_msg \<Rightarrow> int \<Rightarrow> cec_msg" where
  "cec_msg_give_osd_name m reply =
     (let m = m\<lparr>m_len := 2\<rparr>;
          m = st 1 CEC_MSG_GIVE_OSD_NAME m;
          m = m\<lparr>m_reply := (if reply \<noteq> 0 then CEC_MSG_SET_OSD_NAME else 0)\<rparr>
      in m)"

lemma cec_msg_give_osd_name_keeps [cec_wf]: "keeps m (cec_msg_give_osd_name m reply)"
  by (simp add: cec_msg_give_osd_name_def Let_def cec_kit)

definition cec_msg_menu_status :: "cec_msg \<Rightarrow> u8 \<Rightarrow> cec_msg" where
  "cec_msg_menu_status m menu_state =
     (let m = m\<lparr>m_len := 3\<rparr>;
          m = st 1 CEC_MSG_MENU_STATUS m;
          m = st 2 menu_state m
      in m)"

lemma cec_msg_menu_status_keeps [cec_wf]: "keeps m (cec_msg_menu_status m menu_state)"
  by (simp add: cec_msg_menu_status_def Let_def cec_kit)

definition cec_ops_menu_status :: "cec_msg \<Rightarrow> u8" where
  "cec_ops_menu_status m = rd m 2"

lemma msg_menu_status_roundtrip:
  "length (m_msg m) = CEC_MAX_MSG_SIZE \<Longrightarrow>
     cec_ops_menu_status (cec_msg_menu_status m menu_state)
     = menu_state"
  by (simp add: cec_ops_menu_status_def cec_msg_menu_status_def Let_def byte_codec)

definition cec_msg_menu_request ::
    "cec_msg \<Rightarrow> int \<Rightarrow> u8 \<Rightarrow> cec_msg" where
  "cec_msg_menu_request m reply menu_req =
     (let m = m\<lparr>m_len := 3\<rparr>;
          m = st 1 CEC_MSG_MENU_REQUEST m;
          m = st 2 menu_req m;
          m = m\<lparr>m_reply := (if reply \<noteq> 0 then CEC_MSG_MENU_STATUS else 0)\<rparr>
      in m)"

lemma cec_msg_menu_request_keeps [cec_wf]: "keeps m (cec_msg_menu_request m reply menu_req)"
  by (simp add: cec_msg_menu_request_def Let_def cec_kit)

definition cec_ops_menu_request :: "cec_msg \<Rightarrow> u8" where
  "cec_ops_menu_request m = rd m 2"

lemma msg_menu_request_roundtrip:
  "length (m_msg m) = CEC_MAX_MSG_SIZE \<Longrightarrow>
     cec_ops_menu_request (cec_msg_menu_request m reply menu_req)
     = menu_req"
  by (simp add: cec_ops_menu_request_def cec_msg_menu_request_def Let_def byte_codec)

definition cec_msg_user_control_pressed ::
    "cec_msg \<Rightarrow> cec_op_ui_command \<Rightarrow> cec_msg" where
  "cec_msg_user_control_pressed m ui =
     (let m = m\<lparr>m_len := 3\<rparr>;
          m = st 1 CEC_MSG_USER_CONTROL_PRESSED m;
          m = st 2 (ui_ui_cmd ui) m
      in if ui_has_opt_arg ui = 0 then m
      else if ui_ui_cmd ui \<in> {0x56, 0x57, 0x60, 0x68, 0x69, 0x6a} then
        (let m = m\<lparr>m_len := m_len m + 1\<rparr>;
             m = st 3 (ui_play_mode ui) m
         in m)
      else if ui_ui_cmd ui = 0x67 then
        (let m = m\<lparr>m_len := m_len m + 4\<rparr>;
             m = st 3 (to_u8 (push_bit 2 (i8 (ui_channel_number_fmt ui))
                   OR drop_bit 8 (i16 (ui_major ui)))) m;
             m = st 4 (to_u8 (i16 (ui_major ui) AND 0xff)) m;
             m = st 5 (to_u8 (drop_bit 8 (i16 (ui_minor ui)))) m;
             m = st 6 (to_u8 (i16 (ui_minor ui) AND 0xff)) m
         in m)
      else m)"

lemma cec_msg_user_control_pressed_keeps [cec_wf]: "keeps m (cec_msg_user_control_pressed m ui)"
  by (auto simp: cec_msg_user_control_pressed_def Let_def cec_kit)

definition cec_ops_user_control_pressed ::
    "cec_msg \<Rightarrow> cec_op_ui_command \<Rightarrow> cec_op_ui_command" where
  "cec_ops_user_control_pressed m ui =
     (let ui = ui\<lparr>ui_ui_cmd := rd m 2\<rparr>;
          ui = ui\<lparr>ui_has_opt_arg := 0\<rparr>
      in if m_len m = 3 then ui
      else if ui_ui_cmd ui \<in> {0x56, 0x57, 0x60, 0x68, 0x69, 0x6a} then
        ui\<lparr>ui_byte0 := rd m 3, ui_has_opt_arg := 1\<rparr>
      else if ui_ui_cmd ui = 0x67 then
        (if m_len m < 7 then ui
         else ui\<lparr>ui_has_opt_arg := 1,
                ui_byte0 := to_u8 (drop_bit 2 (i8 (rd m 3))),
                ui_major := to_u16 (push_bit 6 (i8 (rd m 3) AND 3) OR i8 (rd m 4)),
                ui_minor := to_u16 (push_bit 8 (i8 (rd m 5)) OR i8 (rd m 6))\<rparr>)
      else ui)"

text \<open>
  The optional operand comes back, except that the two high bits of a channel's major number
  land six instead of eight places up, as in \<open>cec_get_digital_service_id\<close>.
\<close>

lemma user_control_pressed_roundtrip:
  assumes "length (m_msg m) = CEC_MAX_MSG_SIZE"
  shows "ui_has_opt_arg ui = 0 \<Longrightarrow>
      cec_ops_user_control_pressed (cec_msg_user_control_pressed m ui) ui0
        = ui0\<lparr>ui_ui_cmd := ui_ui_cmd ui, ui_has_opt_arg := 0\<rparr>"
    and "ui_has_opt_arg ui = 1 \<Longrightarrow> ui_ui_cmd ui \<in> {0x56, 0x57, 0x60, 0x68, 0x69, 0x6a} \<Longrightarrow>
      cec_ops_user_control_pressed (cec_msg_user_control_pressed m ui) ui0
        = ui0\<lparr>ui_ui_cmd := ui_ui_cmd ui, ui_has_opt_arg := 1, ui_byte0 := ui_play_mode ui\<rparr>"
    and "ui_has_opt_arg ui = 1 \<Longrightarrow> ui_ui_cmd ui = 0x67 \<Longrightarrow> ui_channel_number_fmt ui < 64 \<Longrightarrow>
      ui_major ui < 1024 \<Longrightarrow>
      cec_ops_user_control_pressed (cec_msg_user_control_pressed m ui) ui0
        = ui\<lparr>ui_major := push_bit 6 (drop_bit 8 (ui_major ui)) OR take_bit 8 (ui_major ui)\<rparr>"
  using assms
  by (auto simp: cec_ops_user_control_pressed_def cec_msg_user_control_pressed_def Let_def
      be16_roundtrip channel_major_decode simp del: push_bit_and)

definition cec_msg_user_control_released :: "cec_msg \<Rightarrow> cec_msg" where
  "cec_msg_user_control_released m =
     (let m = m\<lparr>m_len := 2\<rparr>;
          m = st 1 CEC_MSG_USER_CONTROL_RELEASED m
      in m)"

lemma cec_msg_user_control_released_keeps [cec_wf]: "keeps m (cec_msg_user_control_released m)"
  by (simp add: cec_msg_user_control_released_def Let_def cec_kit)

definition cec_msg_report_power_status :: "cec_msg \<Rightarrow> u8 \<Rightarrow> cec_msg" where
  "cec_msg_report_power_status m pwr_state =
     (let m = m\<lparr>m_len := 3\<rparr>;
          m = st 1 CEC_MSG_REPORT_POWER_STATUS m;
          m = st 2 pwr_state m
      in m)"

lemma cec_msg_report_power_status_keeps [cec_wf]: "keeps m (cec_msg_report_power_status m
    pwr_state)"
  by (simp add: cec_msg_report_power_status_def Let_def cec_kit)

definition cec_ops_report_power_status :: "cec_msg \<Rightarrow> u8" where
  "cec_ops_report_power_status m = rd m 2"

lemma msg_report_power_status_roundtrip:
  "length (m_msg m) = CEC_MAX_MSG_SIZE \<Longrightarrow>
     cec_ops_report_power_status (cec_msg_report_power_status m pwr_state)
     = pwr_state"
  by (simp add: cec_ops_report_power_status_def cec_msg_report_power_status_def Let_def byte_codec)

end
