(* ===== verification/Cec_Msg3.thy ===== *)
theory Cec_Msg3
  imports Cec_Msg2
begin

unbundle bit_operations_syntax

text \<open>
  The message builders (\<open>cec_msg_*\<close>) and parsers (\<open>cec_ops_*\<close>) of
  \<open>include/linux/cec-funcs.h\<close> for power status, general protocol messages, system
  audio, audio rate, audio return channel, lip sync and capability discovery (CDC). Each builder
  takes the message structure and returns it updated; each parser returns the values of its
  output parameters, in the order of the C parameter list. After a builder comes the lemma that
  it keeps the message well formed, after a parser the lemma that it reads back what the builder
  wrote.
\<close>

definition cec_msg_give_device_power_status ::
    "cec_msg \<Rightarrow> int \<Rightarrow> cec_msg" where
  "cec_msg_give_device_power_status m reply =
     (let m = m\<lparr>m_len := 2\<rparr>;
          m = st 1 CEC_MSG_GIVE_DEVICE_POWER_STATUS m;
          m = m\<lparr>m_reply := (if reply \<noteq> 0 then CEC_MSG_REPORT_POWER_STATUS else
              0)\<rparr>
      in m)"

lemma cec_msg_give_device_power_status_keeps [cec_wf]: "keeps m (cec_msg_give_device_power_status
    m reply)"
  by (simp add: cec_msg_give_device_power_status_def Let_def cec_kit)

definition cec_msg_feature_abort ::
    "cec_msg \<Rightarrow> u8 \<Rightarrow> u8 \<Rightarrow> cec_msg" where
  "cec_msg_feature_abort m abort_msg reason =
     (let m = m\<lparr>m_len := 4\<rparr>;
          m = st 1 CEC_MSG_FEATURE_ABORT m;
          m = st 2 abort_msg m;
          m = st 3 reason m
      in m)"

lemma cec_msg_feature_abort_keeps [cec_wf]: "keeps m (cec_msg_feature_abort m abort_msg reason)"
  by (simp add: cec_msg_feature_abort_def Let_def cec_kit)

definition cec_ops_feature_abort :: "cec_msg \<Rightarrow> u8 \<times> u8" where
  "cec_ops_feature_abort m =
     (rd m 2,
      rd m 3)"

lemma msg_feature_abort_roundtrip:
  "length (m_msg m) = CEC_MAX_MSG_SIZE \<Longrightarrow>
     cec_ops_feature_abort (cec_msg_feature_abort m abort_msg reason)
     = (abort_msg, reason)"
  by (simp add: cec_ops_feature_abort_def cec_msg_feature_abort_def Let_def byte_codec)

definition cec_msg_reply_feature_abort :: "cec_msg \<Rightarrow> u8 \<Rightarrow> cec_msg" where
  "cec_msg_reply_feature_abort m reason =
     (let m = cec_msg_set_reply_to m m;
          m = m\<lparr>m_len := 4\<rparr>;
          m = st 2 (rd m 1) m;
          m = st 3 reason m;
          m = st 1 CEC_MSG_FEATURE_ABORT m
      in m)"

lemma reply_feature_abort_good:
  assumes "good_msg m"
  shows "good_msg (cec_msg_reply_feature_abort m reason)"
    and "cec_msg_initiator (cec_msg_reply_feature_abort m reason) = cec_msg_destination m"
    and "cec_msg_destination (cec_msg_reply_feature_abort m reason) = cec_msg_initiator m"
    and "cec_ops_feature_abort (cec_msg_reply_feature_abort m reason) = (rd m 1, reason)"
proof -
  have nib: "to_u8 (drop_bit 4 (i8 b)) < 16" "to_u8 (i8 b AND 0xf) < 16" for b
  proof -
    have "unat b < 256" using unsigned_less [of b, where 'a = nat] by simp
    then show "to_u8 (drop_bit 4 (i8 b)) < 16" "to_u8 (i8 b AND 0xf) < 16"
      by (simp_all add: word_less_nat_alt unsigned_ucast_eq take_bit_eq_mod drop_bit_eq_div
          unat_div unat_mod and_masks less_mult_imp_div_less)
  qed
  show "good_msg (cec_msg_reply_feature_abort m reason)"
    using assms
    by (simp add: good_msg_def cec_msg_reply_feature_abort_def cec_msg_set_reply_to_def Let_def)
  show "cec_ops_feature_abort (cec_msg_reply_feature_abort m reason) = (rd m 1, reason)"
    using assms
    by (simp add: good_msg_def cec_msg_reply_feature_abort_def cec_msg_set_reply_to_def Let_def
        cec_ops_feature_abort_def)
  show "cec_msg_initiator (cec_msg_reply_feature_abort m reason) = cec_msg_destination m"
    and "cec_msg_destination (cec_msg_reply_feature_abort m reason) = cec_msg_initiator m"
    using assms nibbles [of "i8 (cec_msg_destination m)" "i8 (cec_msg_initiator m)"] nib [of "rd m 0"]
    by (simp_all add: good_msg_def cec_msg_reply_feature_abort_def cec_msg_set_reply_to_def Let_def
        cec_msg_initiator_def cec_msg_destination_def)
qed

definition cec_msg_abort :: "cec_msg \<Rightarrow> cec_msg" where
  "cec_msg_abort m =
     (let m = m\<lparr>m_len := 2\<rparr>;
          m = st 1 CEC_MSG_ABORT m
      in m)"

lemma cec_msg_abort_keeps [cec_wf]: "keeps m (cec_msg_abort m)"
  by (simp add: cec_msg_abort_def Let_def cec_kit)

definition cec_msg_report_audio_status ::
    "cec_msg \<Rightarrow> u8 \<Rightarrow> u8 \<Rightarrow> cec_msg" where
  "cec_msg_report_audio_status m aud_mute_status aud_vol_status =
     (let m = m\<lparr>m_len := 3\<rparr>;
          m = st 1 CEC_MSG_REPORT_AUDIO_STATUS m;
          m = st 2 (to_u8 (push_bit 7 (i8 aud_mute_status) OR (i8 aud_vol_status AND 0x7f))) m
      in m)"

lemma cec_msg_report_audio_status_keeps [cec_wf]: "keeps m (cec_msg_report_audio_status m
    aud_mute_status aud_vol_status)"
  by (simp add: cec_msg_report_audio_status_def Let_def cec_kit)

definition cec_ops_report_audio_status :: "cec_msg \<Rightarrow> u8 \<times> u8" where
  "cec_ops_report_audio_status m =
     (to_u8 (drop_bit 7 (i8 (rd m 2))),
      to_u8 (i8 (rd m 2) AND 0x7f))"

lemma msg_report_audio_status_roundtrip:
  "length (m_msg m) = CEC_MAX_MSG_SIZE \<Longrightarrow> aud_mute_status < 2 \<Longrightarrow>
       aud_vol_status < 128 \<Longrightarrow>
     cec_ops_report_audio_status (cec_msg_report_audio_status m aud_mute_status aud_vol_status)
     = (aud_mute_status, aud_vol_status)"
  by (simp add: cec_ops_report_audio_status_def cec_msg_report_audio_status_def Let_def byte_codec)

definition cec_msg_give_audio_status :: "cec_msg \<Rightarrow> int \<Rightarrow> cec_msg" where
  "cec_msg_give_audio_status m reply =
     (let m = m\<lparr>m_len := 2\<rparr>;
          m = st 1 CEC_MSG_GIVE_AUDIO_STATUS m;
          m = m\<lparr>m_reply := (if reply \<noteq> 0 then CEC_MSG_REPORT_AUDIO_STATUS else
              0)\<rparr>
      in m)"

lemma cec_msg_give_audio_status_keeps [cec_wf]: "keeps m (cec_msg_give_audio_status m reply)"
  by (simp add: cec_msg_give_audio_status_def Let_def cec_kit)

definition cec_msg_set_system_audio_mode :: "cec_msg \<Rightarrow> u8 \<Rightarrow> cec_msg" where
  "cec_msg_set_system_audio_mode m sys_aud_status =
     (let m = m\<lparr>m_len := 3\<rparr>;
          m = st 1 CEC_MSG_SET_SYSTEM_AUDIO_MODE m;
          m = st 2 sys_aud_status m
      in m)"

lemma cec_msg_set_system_audio_mode_keeps [cec_wf]: "keeps m (cec_msg_set_system_audio_mode m
    sys_aud_status)"
  by (simp add: cec_msg_set_system_audio_mode_def Let_def cec_kit)

definition cec_ops_set_system_audio_mode :: "cec_msg \<Rightarrow> u8" where
  "cec_ops_set_system_audio_mode m = rd m 2"

lemma msg_set_system_audio_mode_roundtrip:
  "length (m_msg m) = CEC_MAX_MSG_SIZE \<Longrightarrow>
     cec_ops_set_system_audio_mode (cec_msg_set_system_audio_mode m sys_aud_status)
     = sys_aud_status"
  by (simp add: cec_ops_set_system_audio_mode_def cec_msg_set_system_audio_mode_def Let_def
      byte_codec)

definition cec_msg_system_audio_mode_request ::
    "cec_msg \<Rightarrow> int \<Rightarrow> u16 \<Rightarrow> cec_msg" where
  "cec_msg_system_audio_mode_request m reply phys_addr =
     (let m = m\<lparr>m_len := if phys_addr = 0xffff then 2 else 4\<rparr>;
          m = st 1 CEC_MSG_SYSTEM_AUDIO_MODE_REQUEST m;
          m = st 2 (to_u8 (drop_bit 8 (i16 phys_addr))) m;
          m = st 3 (to_u8 (i16 phys_addr AND 0xff)) m;
          m = m\<lparr>m_reply := (if reply \<noteq> 0 then CEC_MSG_SET_SYSTEM_AUDIO_MODE else
              0)\<rparr>
      in m)"

lemma cec_msg_system_audio_mode_request_keeps [cec_wf]: "keeps m
    (cec_msg_system_audio_mode_request m reply phys_addr)"
  by (simp add: cec_msg_system_audio_mode_request_def Let_def cec_kit)

definition cec_ops_system_audio_mode_request :: "cec_msg \<Rightarrow> u16" where
  "cec_ops_system_audio_mode_request m =
     (if m_len m < 4 then 0xffff else to_u16 (push_bit 8 (i8 (rd m 2)) OR i8 (rd m 3)))"

lemma system_audio_mode_request_roundtrip:
  "length (m_msg m) = CEC_MAX_MSG_SIZE \<Longrightarrow>
     cec_ops_system_audio_mode_request (cec_msg_system_audio_mode_request m reply pa) = pa"
  by (simp add: cec_ops_system_audio_mode_request_def cec_msg_system_audio_mode_request_def Let_def
      be16_roundtrip)

definition cec_msg_system_audio_mode_status ::
    "cec_msg \<Rightarrow> u8 \<Rightarrow> cec_msg" where
  "cec_msg_system_audio_mode_status m sys_aud_status =
     (let m = m\<lparr>m_len := 3\<rparr>;
          m = st 1 CEC_MSG_SYSTEM_AUDIO_MODE_STATUS m;
          m = st 2 sys_aud_status m
      in m)"

lemma cec_msg_system_audio_mode_status_keeps [cec_wf]: "keeps m (cec_msg_system_audio_mode_status
    m sys_aud_status)"
  by (simp add: cec_msg_system_audio_mode_status_def Let_def cec_kit)

definition cec_ops_system_audio_mode_status :: "cec_msg \<Rightarrow> u8" where
  "cec_ops_system_audio_mode_status m = rd m 2"

lemma msg_system_audio_mode_status_roundtrip:
  "length (m_msg m) = CEC_MAX_MSG_SIZE \<Longrightarrow>
     cec_ops_system_audio_mode_status (cec_msg_system_audio_mode_status m sys_aud_status)
     = sys_aud_status"
  by (simp add: cec_ops_system_audio_mode_status_def cec_msg_system_audio_mode_status_def Let_def
      byte_codec)

definition cec_msg_give_system_audio_mode_status ::
    "cec_msg \<Rightarrow> int \<Rightarrow> cec_msg" where
  "cec_msg_give_system_audio_mode_status m reply =
     (let m = m\<lparr>m_len := 2\<rparr>;
          m = st 1 CEC_MSG_GIVE_SYSTEM_AUDIO_MODE_STATUS m;
          m = m\<lparr>m_reply := (if reply \<noteq> 0 then CEC_MSG_SYSTEM_AUDIO_MODE_STATUS else
              0)\<rparr>
      in m)"

lemma cec_msg_give_system_audio_mode_status_keeps [cec_wf]: "keeps m
    (cec_msg_give_system_audio_mode_status m reply)"
  by (simp add: cec_msg_give_system_audio_mode_status_def Let_def cec_kit)

definition cec_msg_report_short_audio_descriptor ::
    "cec_msg \<Rightarrow> u8 \<Rightarrow> u32 list \<Rightarrow> cec_msg" where
  "cec_msg_report_short_audio_descriptor m num_descriptors descriptors =
     (let num_descriptors = (if num_descriptors > 4 then 4 else num_descriptors);
          m = m\<lparr>m_len := 2 + i8 num_descriptors * 3\<rparr>;
          m = st 1 CEC_MSG_REPORT_SHORT_AUDIO_DESCRIPTOR m
      in fold (\<lambda>i m.
           (let m = st (2 + i * 3) (to_u8 (drop_bit 16 (descriptors ! i) AND 0xff)) m;
                m = st (3 + i * 3) (to_u8 (drop_bit 8 (descriptors ! i) AND 0xff)) m;
                m = st (4 + i * 3) (to_u8 (descriptors ! i AND 0xff)) m
            in m)) [0..<unat num_descriptors] m)"

lemma cec_msg_report_short_audio_descriptor_keeps [cec_wf]:
  "keeps m (cec_msg_report_short_audio_descriptor m num_descriptors descriptors)"
proof (unfold keeps_def, intro impI)
  assume m: "good_msg m"
  define n where "n = (if num_descriptors > 4 then 4 else num_descriptors)"
  define b where "b = st 1 CEC_MSG_REPORT_SHORT_AUDIO_DESCRIPTOR (m\<lparr>m_len := 2 + i8 n * 3\<rparr>)"
  let ?same = "\<lambda>s. length (m_msg s) = 16 \<and> \<not> m_oob s \<and> m_len s = 2 + i8 n * 3 \<and> rd s 0 = rd m 0"
  have n: "unat n \<le> 4" by (auto simp: n_def word_le_nat_alt not_less)
  have "?same (cec_msg_report_short_audio_descriptor m num_descriptors descriptors)"
    unfolding cec_msg_report_short_audio_descriptor_def Let_def n_def [symmetric]
    by (rule fold_invariant [where Q = "\<lambda>i. i < 4"])
      (use m n in \<open>auto simp: good_msg_def\<close>)
  moreover have "unat (i8 n * 3) = unat n * 3" using n by (simp add: unat_word_ariths)
  then have "1 \<le> 2 + i8 n * 3" "2 + i8 n * 3 \<le> 16"
    using n by (simp_all add: word_le_nat_alt unat_add_small)
  ultimately show "good_msg (cec_msg_report_short_audio_descriptor m num_descriptors descriptors) \<and>
      cec_msg_initiator (cec_msg_report_short_audio_descriptor m num_descriptors descriptors)
        = cec_msg_initiator m \<and>
      (cec_msg_destination (cec_msg_report_short_audio_descriptor m num_descriptors descriptors)
        = cec_msg_destination m \<or>
       cec_msg_is_broadcast (cec_msg_report_short_audio_descriptor m num_descriptors descriptors))"
    by (simp add: good_msg_def cec_msg_initiator_def cec_msg_destination_def)
qed

definition cec_ops_report_short_audio_descriptor ::
    "cec_msg \<Rightarrow> u8 \<times> u32 list" where
  "cec_ops_report_short_audio_descriptor m =
     (let num_descriptors = to_u8 ((m_len m - 2) div 3);
          num_descriptors = (if num_descriptors > 4 then 4 else num_descriptors)
      in (num_descriptors,
          map (\<lambda>i. push_bit 16 (i8 (rd m (2 + i * 3))) OR push_bit 8 (i8 (rd m (3 + i * 3)))
                 OR i8 (rd m (4 + i * 3))) [0..<unat num_descriptors]))"

text \<open>The loop of the builder: after \<open>k\<close> rounds the first \<open>k\<close> descriptors are in place.\<close>

lemma short_audio_loop:
  fixes b :: cec_msg and ds :: "u32 list"
  assumes "length (m_msg b) = CEC_MAX_MSG_SIZE"
  defines "f \<equiv> \<lambda>i m. st (4 + i * 3) (to_u8 (ds ! i AND 0xff))
    (st (3 + i * 3) (to_u8 (drop_bit 8 (ds ! i) AND 0xff))
    (st (2 + i * 3) (to_u8 (drop_bit 16 (ds ! i) AND 0xff)) m))"
  shows "k \<le> 4 \<Longrightarrow> length (m_msg (fold f [0..<k] b)) = 16 \<and> m_len (fold f [0..<k] b) = m_len b \<and>
    (\<forall>i < k. rd (fold f [0..<k] b) (2 + i * 3) = to_u8 (drop_bit 16 (ds ! i) AND 0xff) \<and>
       rd (fold f [0..<k] b) (3 + i * 3) = to_u8 (drop_bit 8 (ds ! i) AND 0xff) \<and>
       rd (fold f [0..<k] b) (4 + i * 3) = to_u8 (ds ! i AND 0xff))"
proof (induction k)
  case 0
  then show ?case using assms(1) by simp
next
  case (Suc k)
  then have IH: "length (m_msg (fold f [0..<k] b)) = 16" "m_len (fold f [0..<k] b) = m_len b"
    "\<forall>i < k. rd (fold f [0..<k] b) (2 + i * 3) = to_u8 (drop_bit 16 (ds ! i) AND 0xff) \<and>
       rd (fold f [0..<k] b) (3 + i * 3) = to_u8 (drop_bit 8 (ds ! i) AND 0xff) \<and>
       rd (fold f [0..<k] b) (4 + i * 3) = to_u8 (ds ! i AND 0xff)"
    by simp_all
  have idx: "2 + k * 3 < 16" "3 + k * 3 < 16" "4 + k * 3 < 16" using Suc.prems by simp_all
  have neq: "\<And>i. 3 + k * 3 \<noteq> 2 + i * 3" "\<And>i. 4 + k * 3 \<noteq> 2 + i * 3"
    "\<And>i. 2 + k * 3 \<noteq> 3 + i * 3" "\<And>i. 4 + k * 3 \<noteq> 3 + i * 3"
    "\<And>i. 2 + k * 3 \<noteq> 4 + i * 3" "\<And>i. 3 + k * 3 \<noteq> 4 + i * 3"
    by presburger+
  have "fold f [0..<Suc k] b = f k (fold f [0..<k] b)" by simp
  then show ?case
    using IH idx neq by (simp add: f_def less_Suc_eq del: upt_Suc)
qed

lemma report_short_audio_descriptor_roundtrip:
  assumes "length (m_msg m) = CEC_MAX_MSG_SIZE" and "n \<le> 4" and "length ds = unat n"
    and "\<forall>d \<in> set ds. d < 0x1000000"
  shows "cec_ops_report_short_audio_descriptor (cec_msg_report_short_audio_descriptor m n ds)
    = (n, ds)"
proof -
  let ?b = "st 1 CEC_MSG_REPORT_SHORT_AUDIO_DESCRIPTOR (m\<lparr>m_len := 2 + i8 n * 3\<rparr>)"
  let ?m = "cec_msg_report_short_audio_descriptor m n ds"
  have n: "\<not> n > 4" "unat n \<le> 4" using assms(2) by (auto simp: word_le_nat_alt word_less_nat_alt)
  have byte: "to_u8 (drop_bit 16 x AND 0xff) = to_u8 (drop_bit 16 x)" for x :: u32
    by (rule bit_word_eqI) (auto simp: bit_simps and_masks)
  have "m_len ?m = 2 + i8 n * 3" and "\<forall>i < unat n. rd ?m (2 + i * 3) = to_u8 (drop_bit 16 (ds ! i)) \<and>
      rd ?m (3 + i * 3) = to_u8 (drop_bit 8 (ds ! i) AND 0xff) \<and>
      rd ?m (4 + i * 3) = to_u8 (ds ! i AND 0xff)"
    using short_audio_loop [of ?b "unat n" ds] assms(1) n
    by (simp_all add: cec_msg_report_short_audio_descriptor_def Let_def byte)
  moreover have "to_u8 ((2 + i8 n * 3 - 2) div 3) = n"
  proof -
    have "unat ((i8 n * 3) div 3) = unat n"
      using n by (simp add: unat_div unat_word_ariths)
    then have "(i8 n * 3) div 3 = i8 n" by (simp add: word_unat_eq_iff)
    then show ?thesis by simp
  qed
  ultimately show ?thesis
    using assms(3,4) n
    by (auto simp: cec_ops_report_short_audio_descriptor_def Let_def be24_roundtrip
        intro!: nth_equalityI)
qed

definition cec_msg_request_short_audio_descriptor ::
    "cec_msg \<Rightarrow> int \<Rightarrow> u8 \<Rightarrow> u8 list \<Rightarrow> u8 list
         \<Rightarrow> cec_msg" where
  "cec_msg_request_short_audio_descriptor m reply num_descriptors audio_format_id
       audio_format_code =
     (let num_descriptors = (if num_descriptors > 4 then 4 else num_descriptors);
          m = m\<lparr>m_len := 2 + i8 num_descriptors\<rparr>;
          m = st 1 CEC_MSG_REQUEST_SHORT_AUDIO_DESCRIPTOR m;
          m = m\<lparr>m_reply := (if reply \<noteq> 0 then CEC_MSG_REPORT_SHORT_AUDIO_DESCRIPTOR
              else 0)\<rparr>
      in fold (\<lambda>i. st (2 + i) (to_u8 (push_bit 6 (i8 (audio_format_id ! i))
             OR (i8 (audio_format_code ! i) AND 0x3f)))) [0..<unat num_descriptors] m)"

lemma cec_msg_request_short_audio_descriptor_keeps [cec_wf]:
  "keeps m (cec_msg_request_short_audio_descriptor m reply num_descriptors audio_format_id
     audio_format_code)" (is "keeps m ?m")
proof (unfold keeps_def, intro impI)
  assume m: "good_msg m"
  define n where "n = (if num_descriptors > 4 then 4 else num_descriptors)"
  let ?same = "\<lambda>s. length (m_msg s) = 16 \<and> \<not> m_oob s \<and> m_len s = 2 + i8 n \<and> rd s 0 = rd m 0"
  have n: "unat n \<le> 4" by (auto simp: n_def word_le_nat_alt not_less)
  have "?same ?m"
    unfolding cec_msg_request_short_audio_descriptor_def Let_def n_def [symmetric]
    by (rule fold_invariant [where Q = "\<lambda>i. i < 4"])
      (use m n in \<open>auto simp: good_msg_def\<close>)
  moreover have "1 \<le> 2 + i8 n" "2 + i8 n \<le> 16"
    using n by (simp_all add: word_le_nat_alt unat_add_small)
  ultimately show "good_msg ?m \<and> cec_msg_initiator ?m = cec_msg_initiator m \<and>
      (cec_msg_destination ?m = cec_msg_destination m \<or> cec_msg_is_broadcast ?m)"
    by (simp add: good_msg_def cec_msg_initiator_def cec_msg_destination_def)
qed

definition cec_ops_request_short_audio_descriptor ::
    "cec_msg \<Rightarrow> u8 \<times> u8 list \<times> u8 list" where
  "cec_ops_request_short_audio_descriptor m =
     (let num_descriptors = to_u8 (m_len m - 2);
          num_descriptors = (if num_descriptors > 4 then 4 else num_descriptors)
      in (num_descriptors,
          map (\<lambda>i. to_u8 (drop_bit 6 (i8 (rd m (2 + i))))) [0..<unat num_descriptors],
          map (\<lambda>i. to_u8 (i8 (rd m (2 + i)) AND 0x3f)) [0..<unat num_descriptors]))"

definition cec_msg_set_audio_rate :: "cec_msg \<Rightarrow> u8 \<Rightarrow> cec_msg" where
  "cec_msg_set_audio_rate m audio_rate =
     (let m = m\<lparr>m_len := 3\<rparr>;
          m = st 1 CEC_MSG_SET_AUDIO_RATE m;
          m = st 2 audio_rate m
      in m)"

lemma cec_msg_set_audio_rate_keeps [cec_wf]: "keeps m (cec_msg_set_audio_rate m audio_rate)"
  by (simp add: cec_msg_set_audio_rate_def Let_def cec_kit)

definition cec_ops_set_audio_rate :: "cec_msg \<Rightarrow> u8" where
  "cec_ops_set_audio_rate m = rd m 2"

lemma msg_set_audio_rate_roundtrip:
  "length (m_msg m) = CEC_MAX_MSG_SIZE \<Longrightarrow>
     cec_ops_set_audio_rate (cec_msg_set_audio_rate m audio_rate)
     = audio_rate"
  by (simp add: cec_ops_set_audio_rate_def cec_msg_set_audio_rate_def Let_def byte_codec)

definition cec_msg_report_arc_initiated :: "cec_msg \<Rightarrow> cec_msg" where
  "cec_msg_report_arc_initiated m =
     (let m = m\<lparr>m_len := 2\<rparr>;
          m = st 1 CEC_MSG_REPORT_ARC_INITIATED m
      in m)"

lemma cec_msg_report_arc_initiated_keeps [cec_wf]: "keeps m (cec_msg_report_arc_initiated m)"
  by (simp add: cec_msg_report_arc_initiated_def Let_def cec_kit)

definition cec_msg_initiate_arc :: "cec_msg \<Rightarrow> int \<Rightarrow> cec_msg" where
  "cec_msg_initiate_arc m reply =
     (let m = m\<lparr>m_len := 2\<rparr>;
          m = st 1 CEC_MSG_INITIATE_ARC m;
          m = m\<lparr>m_reply := (if reply \<noteq> 0 then CEC_MSG_REPORT_ARC_INITIATED else
              0)\<rparr>
      in m)"

lemma cec_msg_initiate_arc_keeps [cec_wf]: "keeps m (cec_msg_initiate_arc m reply)"
  by (simp add: cec_msg_initiate_arc_def Let_def cec_kit)

definition cec_msg_request_arc_initiation :: "cec_msg \<Rightarrow> int \<Rightarrow> cec_msg" where
  "cec_msg_request_arc_initiation m reply =
     (let m = m\<lparr>m_len := 2\<rparr>;
          m = st 1 CEC_MSG_REQUEST_ARC_INITIATION m;
          m = m\<lparr>m_reply := (if reply \<noteq> 0 then CEC_MSG_INITIATE_ARC else 0)\<rparr>
      in m)"

lemma cec_msg_request_arc_initiation_keeps [cec_wf]: "keeps m (cec_msg_request_arc_initiation m
    reply)"
  by (simp add: cec_msg_request_arc_initiation_def Let_def cec_kit)

definition cec_msg_report_arc_terminated :: "cec_msg \<Rightarrow> cec_msg" where
  "cec_msg_report_arc_terminated m =
     (let m = m\<lparr>m_len := 2\<rparr>;
          m = st 1 CEC_MSG_REPORT_ARC_TERMINATED m
      in m)"

lemma cec_msg_report_arc_terminated_keeps [cec_wf]: "keeps m (cec_msg_report_arc_terminated m)"
  by (simp add: cec_msg_report_arc_terminated_def Let_def cec_kit)

definition cec_msg_terminate_arc :: "cec_msg \<Rightarrow> int \<Rightarrow> cec_msg" where
  "cec_msg_terminate_arc m reply =
     (let m = m\<lparr>m_len := 2\<rparr>;
          m = st 1 CEC_MSG_TERMINATE_ARC m;
          m = m\<lparr>m_reply := (if reply \<noteq> 0 then CEC_MSG_REPORT_ARC_TERMINATED else
              0)\<rparr>
      in m)"

lemma cec_msg_terminate_arc_keeps [cec_wf]: "keeps m (cec_msg_terminate_arc m reply)"
  by (simp add: cec_msg_terminate_arc_def Let_def cec_kit)

definition cec_msg_request_arc_termination ::
    "cec_msg \<Rightarrow> int \<Rightarrow> cec_msg" where
  "cec_msg_request_arc_termination m reply =
     (let m = m\<lparr>m_len := 2\<rparr>;
          m = st 1 CEC_MSG_REQUEST_ARC_TERMINATION m;
          m = m\<lparr>m_reply := (if reply \<noteq> 0 then CEC_MSG_TERMINATE_ARC else 0)\<rparr>
      in m)"

lemma cec_msg_request_arc_termination_keeps [cec_wf]: "keeps m (cec_msg_request_arc_termination m
    reply)"
  by (simp add: cec_msg_request_arc_termination_def Let_def cec_kit)

definition cec_msg_report_current_latency ::
    "cec_msg \<Rightarrow> u16 \<Rightarrow> u8 \<Rightarrow> u8 \<Rightarrow> u8 \<Rightarrow>
         u8 \<Rightarrow> cec_msg" where
  "cec_msg_report_current_latency m phys_addr video_latency low_latency_mode
       audio_out_compensated audio_out_delay =
     (let m = m\<lparr>m_len := 6\<rparr>;
          m = st 0 (to_u8 (i8 (rd m 0) OR 0xf)) m;
          m = st 1 CEC_MSG_REPORT_CURRENT_LATENCY m;
          m = st 2 (to_u8 (drop_bit 8 (i16 phys_addr))) m;
          m = st 3 (to_u8 (i16 phys_addr AND 0xff)) m;
          m = st 4 video_latency m;
          m = st 5 (to_u8 (push_bit 2 (i8 low_latency_mode) OR i8 audio_out_compensated)) m
      in if audio_out_compensated = 3 then push_byte audio_out_delay m else m)"

lemma cec_msg_report_current_latency_keeps [cec_wf]: "keeps m (cec_msg_report_current_latency m
    phys_addr video_latency low_latency_mode audio_out_compensated audio_out_delay)"
  by (simp add: cec_msg_report_current_latency_def Let_def cec_kit)

definition cec_ops_report_current_latency ::
    "cec_msg \<Rightarrow> u16 \<times> u8 \<times> u8 \<times> u8 \<times> u8" where
  "cec_ops_report_current_latency m =
     (let phys_addr = to_u16 (push_bit 8 (i8 (rd m 2)) OR i8 (rd m 3));
          video_latency = rd m 4;
          low_latency_mode = to_u8 (drop_bit 2 (i8 (rd m 5)) AND 1);
          audio_out_compensated = to_u8 (i8 (rd m 5) AND 3);
          audio_out_delay =
            (if audio_out_compensated = 3 \<and> m_len m \<ge> 7 then rd m 6 else 0)
      in (phys_addr, video_latency, low_latency_mode, audio_out_compensated, audio_out_delay))"

lemma report_current_latency_roundtrip:
  assumes "length (m_msg m) = CEC_MAX_MSG_SIZE" and "llm < 2" and "aoc < 4"
  shows "cec_ops_report_current_latency (cec_msg_report_current_latency m pa vl llm aoc dl)
    = (pa, vl, llm, aoc, (if aoc = 3 then dl else 0))"
proof -
  have "drop_bit 2 (i8 (to_u8 (push_bit 2 (i8 llm) OR i8 aoc))) = i8 llm"
    and "to_u8 (i8 (to_u8 (push_bit 2 (i8 llm) OR i8 aoc)) AND 3) = aoc"
    using assms(2,3)
    by (auto intro!: bit_word_eqI simp: bit_simps and_masks word_high_bits
        dest: word_bit_bounds)
  moreover have "i8 llm AND 1 = i8 llm"
    using less_mask_eq [of "i8 llm" 1] assms(2) by (simp add: mask_eq_exp_minus_1)
  ultimately have "to_u8 (drop_bit 2 (i8 (to_u8 (push_bit 2 (i8 llm) OR i8 aoc))) AND 1) = llm"
    and "to_u8 (i8 (to_u8 (push_bit 2 (i8 llm) OR i8 aoc)) AND 3) = aoc"
    by simp_all
  with assms(1) show ?thesis
    by (auto simp: cec_ops_report_current_latency_def cec_msg_report_current_latency_def Let_def
        be16_roundtrip)
qed

definition cec_msg_request_current_latency ::
    "cec_msg \<Rightarrow> int \<Rightarrow> u16 \<Rightarrow> cec_msg" where
  "cec_msg_request_current_latency m reply phys_addr =
     (let m = m\<lparr>m_len := 4\<rparr>;
          m = st 0 (to_u8 (i8 (rd m 0) OR 0xf)) m;
          m = st 1 CEC_MSG_REQUEST_CURRENT_LATENCY m;
          m = st 2 (to_u8 (drop_bit 8 (i16 phys_addr))) m;
          m = st 3 (to_u8 (i16 phys_addr AND 0xff)) m;
          m = m\<lparr>m_reply := (if reply \<noteq> 0 then CEC_MSG_REPORT_CURRENT_LATENCY else
              0)\<rparr>
      in m)"

lemma cec_msg_request_current_latency_keeps [cec_wf]: "keeps m (cec_msg_request_current_latency m
    reply phys_addr)"
  by (simp add: cec_msg_request_current_latency_def Let_def cec_kit)

definition cec_ops_request_current_latency :: "cec_msg \<Rightarrow> u16" where
  "cec_ops_request_current_latency m = to_u16 (push_bit 8 (i8 (rd m 2)) OR i8 (rd m 3))"

lemma msg_request_current_latency_roundtrip:
  "length (m_msg m) = CEC_MAX_MSG_SIZE \<Longrightarrow>
     cec_ops_request_current_latency (cec_msg_request_current_latency m reply phys_addr)
     = phys_addr"
  by (simp add: cec_ops_request_current_latency_def cec_msg_request_current_latency_def Let_def
      byte_codec)

definition cec_msg_cdc_hec_inquire_state ::
    "cec_msg \<Rightarrow> u16 \<Rightarrow> u16 \<Rightarrow> cec_msg" where
  "cec_msg_cdc_hec_inquire_state m phys_addr1 phys_addr2 =
     (let m = m\<lparr>m_len := 9\<rparr>;
          m = st 0 (to_u8 (i8 (rd m 0) OR 0xf)) m;
          m = st 1 CEC_MSG_CDC_MESSAGE m;
          m = st 4 CEC_MSG_CDC_HEC_INQUIRE_STATE m;
          m = st 5 (to_u8 (drop_bit 8 (i16 phys_addr1))) m;
          m = st 6 (to_u8 (i16 phys_addr1 AND 0xff)) m;
          m = st 7 (to_u8 (drop_bit 8 (i16 phys_addr2))) m;
          m = st 8 (to_u8 (i16 phys_addr2 AND 0xff)) m
      in m)"

lemma cec_msg_cdc_hec_inquire_state_keeps [cec_wf]: "keeps m (cec_msg_cdc_hec_inquire_state m
    phys_addr1 phys_addr2)"
  by (simp add: cec_msg_cdc_hec_inquire_state_def Let_def cec_kit)

definition cec_ops_cdc_hec_inquire_state ::
    "cec_msg \<Rightarrow> u16 \<times> u16 \<times> u16" where
  "cec_ops_cdc_hec_inquire_state m =
     (to_u16 (push_bit 8 (i8 (rd m 2)) OR i8 (rd m 3)),
      to_u16 (push_bit 8 (i8 (rd m 5)) OR i8 (rd m 6)),
      to_u16 (push_bit 8 (i8 (rd m 7)) OR i8 (rd m 8)))"

lemma msg_cdc_hec_inquire_state_roundtrip:
  "length (m_msg m) = CEC_MAX_MSG_SIZE \<Longrightarrow>
     cec_ops_cdc_hec_inquire_state (cec_msg_cdc_hec_inquire_state m phys_addr1 phys_addr2)
     = (to_u16 (push_bit 8 (i8 (rd m 2)) OR i8 (rd m 3)), phys_addr1, phys_addr2)"
  by (simp add: cec_ops_cdc_hec_inquire_state_def cec_msg_cdc_hec_inquire_state_def Let_def
      byte_codec)

definition cec_msg_cdc_hec_report_state ::
    "cec_msg \<Rightarrow> u16 \<Rightarrow> u8 \<Rightarrow> u8 \<Rightarrow> u8 \<Rightarrow>
         u8 \<Rightarrow> u8 \<Rightarrow> u16 \<Rightarrow> cec_msg" where
  "cec_msg_cdc_hec_report_state m target_phys_addr hec_func_state host_func_state
       enc_func_state cdc_errcode has_field hec_field =
     (let m = m\<lparr>m_len := (if has_field \<noteq> 0 then 10 else 8)\<rparr>;
          m = st 0 (to_u8 (i8 (rd m 0) OR 0xf)) m;
          m = st 1 CEC_MSG_CDC_MESSAGE m;
          m = st 4 CEC_MSG_CDC_HEC_REPORT_STATE m;
          m = st 5 (to_u8 (drop_bit 8 (i16 target_phys_addr))) m;
          m = st 6 (to_u8 (i16 target_phys_addr AND 0xff)) m;
          m = st 7 (to_u8 (push_bit 6 (i8 hec_func_state) OR push_bit 4 (i8 host_func_state)
                OR push_bit 2 (i8 enc_func_state) OR i8 cdc_errcode)) m
      in if has_field \<noteq> 0 then
        (let m = st 8 (to_u8 (drop_bit 8 (i16 hec_field))) m;
             m = st 9 (to_u8 (i16 hec_field AND 0xff)) m
         in m)
      else m)"

lemma cec_msg_cdc_hec_report_state_keeps [cec_wf]: "keeps m (cec_msg_cdc_hec_report_state m
    target_phys_addr hec_func_state host_func_state enc_func_state cdc_errcode has_field
    hec_field)"
  by (simp add: cec_msg_cdc_hec_report_state_def Let_def cec_kit)

definition cec_ops_cdc_hec_report_state ::
    "cec_msg \<Rightarrow> u16 \<times> u16 \<times> u8 \<times> u8 \<times> u8 \<times> u8
         \<times> u8 \<times> u16" where
  "cec_ops_cdc_hec_report_state m =
     (let phys_addr = to_u16 (push_bit 8 (i8 (rd m 2)) OR i8 (rd m 3));
          target_phys_addr = to_u16 (push_bit 8 (i8 (rd m 5)) OR i8 (rd m 6));
          hec_func_state = to_u8 (drop_bit 6 (i8 (rd m 7)));
          host_func_state = to_u8 (drop_bit 4 (i8 (rd m 7)) AND 3);
          enc_func_state = to_u8 (drop_bit 4 (i8 (rd m 7)) AND 3);
          cdc_errcode = to_u8 (i8 (rd m 7) AND 3);
          has_field = (if m_len m \<ge> 10 then 1 else 0);
          hec_field = (if has_field \<noteq> 0
            then to_u16 (push_bit 8 (i8 (rd m 8)) OR i8 (rd m 9)) else 0)
      in (phys_addr, target_phys_addr, hec_func_state, host_func_state, enc_func_state,
          cdc_errcode, has_field, hec_field))"

text \<open>
  Everything comes back but the ENC functionality state: the parser takes it from the bits of
  the host functionality state.
\<close>

lemma cdc_hec_state_byte:
  fixes h ho e c :: u8
  assumes "h < 4" and "ho < 4" and "e < 4" and "c < 4"
  defines "b \<equiv> to_u8 (push_bit 6 (i8 h) OR push_bit 4 (i8 ho) OR push_bit 2 (i8 e) OR i8 c)"
  shows "to_u8 (drop_bit 6 (i8 b)) = h" "to_u8 (drop_bit 4 (i8 b) AND 3) = ho"
    "to_u8 (i8 b AND 3) = c"
  unfolding b_def using assms(1-4)
  by (auto intro!: bit_word_eqI simp: bit_simps and_masks word_high_bits dest: word_bit_bounds)

lemma cdc_hec_report_state_roundtrip:
  assumes "length (m_msg m) = CEC_MAX_MSG_SIZE"
    and "hec < 4" and "host < 4" and "enc < 4" and "err < 4" and "has = 0 \<or> has = 1"
  shows "cec_ops_cdc_hec_report_state (cec_msg_cdc_hec_report_state m tpa hec host enc err has fld)
    = (to_u16 (push_bit 8 (i8 (rd m 2)) OR i8 (rd m 3)), tpa, hec, host, host, err, has,
       (if has = 0 then 0 else fld))"
  using assms cdc_hec_state_byte [OF assms(2-5)]
  by (auto simp: cec_ops_cdc_hec_report_state_def cec_msg_cdc_hec_report_state_def Let_def
      be16_roundtrip)

definition cec_msg_cdc_hec_set_state ::
    "cec_msg \<Rightarrow> u16 \<Rightarrow> u16 \<Rightarrow> u8 \<Rightarrow> u16 \<Rightarrow>
         u16 \<Rightarrow> u16 \<Rightarrow> cec_msg" where
  "cec_msg_cdc_hec_set_state m phys_addr1 phys_addr2 hec_set_state phys_addr3 phys_addr4
       phys_addr5 =
     (let m = m\<lparr>m_len := 10\<rparr>;
          m = st 0 (to_u8 (i8 (rd m 0) OR 0xf)) m;
          m = st 1 CEC_MSG_CDC_MESSAGE m;
          m = st 4 CEC_MSG_CDC_HEC_INQUIRE_STATE m;
          m = st 5 (to_u8 (drop_bit 8 (i16 phys_addr1))) m;
          m = st 6 (to_u8 (i16 phys_addr1 AND 0xff)) m;
          m = st 7 (to_u8 (drop_bit 8 (i16 phys_addr2))) m;
          m = st 8 (to_u8 (i16 phys_addr2 AND 0xff)) m;
          m = st 9 hec_set_state m
      in if phys_addr3 \<noteq> CEC_PHYS_ADDR_INVALID then
        (let m = push_byte (to_u8 (drop_bit 8 (i16 phys_addr3))) m;
             m = push_byte (to_u8 (i16 phys_addr3 AND 0xff)) m
         in if phys_addr4 \<noteq> CEC_PHYS_ADDR_INVALID then
           (let m = push_byte (to_u8 (drop_bit 8 (i16 phys_addr4))) m;
                m = push_byte (to_u8 (i16 phys_addr4 AND 0xff)) m
            in if phys_addr5 \<noteq> CEC_PHYS_ADDR_INVALID then
              (let m = push_byte (to_u8 (drop_bit 8 (i16 phys_addr5))) m;
                   m = push_byte (to_u8 (i16 phys_addr5 AND 0xff)) m
               in m)
            else m)
         else m)
      else m)"

lemma cec_msg_cdc_hec_set_state_keeps [cec_wf]: "keeps m (cec_msg_cdc_hec_set_state m phys_addr1
    phys_addr2 hec_set_state phys_addr3 phys_addr4 phys_addr5)"
  by (simp add: cec_msg_cdc_hec_set_state_def Let_def cec_kit)

definition cec_ops_cdc_hec_set_state ::
    "cec_msg \<Rightarrow> u16 \<times> u16 \<times> u16 \<times> u8 \<times> u16 \<times> u16
         \<times> u16" where
  "cec_ops_cdc_hec_set_state m =
     (let phys_addr = to_u16 (push_bit 8 (i8 (rd m 2)) OR i8 (rd m 3));
          phys_addr1 = to_u16 (push_bit 8 (i8 (rd m 5)) OR i8 (rd m 6));
          phys_addr2 = to_u16 (push_bit 8 (i8 (rd m 7)) OR i8 (rd m 8));
          hec_set_state = rd m 9;
          phys_addr3 = (if m_len m \<ge> 12
            then to_u16 (push_bit 8 (i8 (rd m 10)) OR i8 (rd m 11)) else CEC_PHYS_ADDR_INVALID);
          phys_addr4 = (if m_len m \<ge> 14
            then to_u16 (push_bit 8 (i8 (rd m 12)) OR i8 (rd m 13)) else CEC_PHYS_ADDR_INVALID);
          phys_addr5 = (if m_len m \<ge> 16
            then to_u16 (push_bit 8 (i8 (rd m 14)) OR i8 (rd m 15)) else CEC_PHYS_ADDR_INVALID)
      in (phys_addr, phys_addr1, phys_addr2, hec_set_state, phys_addr3, phys_addr4, phys_addr5))"

text \<open>
  The physical addresses come back up to the first invalid one. The CDC opcode that the builder
  stores is that of an inquiry, not \<open>CEC_MSG_CDC_HEC_SET_STATE\<close>.
\<close>

lemma cdc_hec_set_state_roundtrip:
  assumes "length (m_msg m) = CEC_MAX_MSG_SIZE"
  shows "cec_ops_cdc_hec_set_state (cec_msg_cdc_hec_set_state m pa1 pa2 sv pa3 pa4 pa5)
    = (to_u16 (push_bit 8 (i8 (rd m 2)) OR i8 (rd m 3)), pa1, pa2, sv, pa3,
       (if pa3 = CEC_PHYS_ADDR_INVALID then CEC_PHYS_ADDR_INVALID else pa4),
       (if pa3 = CEC_PHYS_ADDR_INVALID \<or> pa4 = CEC_PHYS_ADDR_INVALID
        then CEC_PHYS_ADDR_INVALID else pa5))"
  using assms
  by (auto simp: cec_ops_cdc_hec_set_state_def cec_msg_cdc_hec_set_state_def Let_def
      be16_roundtrip)

lemma cdc_hec_set_state_opcode:
  "length (m_msg m) = CEC_MAX_MSG_SIZE \<Longrightarrow>
     rd (cec_msg_cdc_hec_set_state m pa1 pa2 sv pa3 pa4 pa5) 4 = CEC_MSG_CDC_HEC_INQUIRE_STATE"
  by (auto simp: cec_msg_cdc_hec_set_state_def Let_def)

definition cec_msg_cdc_hec_set_state_adjacent ::
    "cec_msg \<Rightarrow> u16 \<Rightarrow> u8 \<Rightarrow> cec_msg" where
  "cec_msg_cdc_hec_set_state_adjacent m phys_addr1 hec_set_state =
     (let m = m\<lparr>m_len := 8\<rparr>;
          m = st 0 (to_u8 (i8 (rd m 0) OR 0xf)) m;
          m = st 1 CEC_MSG_CDC_MESSAGE m;
          m = st 4 CEC_MSG_CDC_HEC_SET_STATE_ADJACENT m;
          m = st 5 (to_u8 (drop_bit 8 (i16 phys_addr1))) m;
          m = st 6 (to_u8 (i16 phys_addr1 AND 0xff)) m;
          m = st 7 hec_set_state m
      in m)"

lemma cec_msg_cdc_hec_set_state_adjacent_keeps [cec_wf]: "keeps m
    (cec_msg_cdc_hec_set_state_adjacent m phys_addr1 hec_set_state)"
  by (simp add: cec_msg_cdc_hec_set_state_adjacent_def Let_def cec_kit)

definition cec_ops_cdc_hec_set_state_adjacent ::
    "cec_msg \<Rightarrow> u16 \<times> u16 \<times> u8" where
  "cec_ops_cdc_hec_set_state_adjacent m =
     (to_u16 (push_bit 8 (i8 (rd m 2)) OR i8 (rd m 3)),
      to_u16 (push_bit 8 (i8 (rd m 5)) OR i8 (rd m 6)),
      rd m 7)"

lemma msg_cdc_hec_set_state_adjacent_roundtrip:
  "length (m_msg m) = CEC_MAX_MSG_SIZE \<Longrightarrow>
     cec_ops_cdc_hec_set_state_adjacent (cec_msg_cdc_hec_set_state_adjacent m phys_addr1
         hec_set_state)
     = (to_u16 (push_bit 8 (i8 (rd m 2)) OR i8 (rd m 3)), phys_addr1, hec_set_state)"
  by (simp add: cec_ops_cdc_hec_set_state_adjacent_def cec_msg_cdc_hec_set_state_adjacent_def
      Let_def byte_codec)

definition cec_msg_cdc_hec_request_deactivation ::
    "cec_msg \<Rightarrow> u16 \<Rightarrow> u16 \<Rightarrow> u16 \<Rightarrow> cec_msg" where
  "cec_msg_cdc_hec_request_deactivation m phys_addr1 phys_addr2 phys_addr3 =
     (let m = m\<lparr>m_len := 11\<rparr>;
          m = st 0 (to_u8 (i8 (rd m 0) OR 0xf)) m;
          m = st 1 CEC_MSG_CDC_MESSAGE m;
          m = st 4 CEC_MSG_CDC_HEC_REQUEST_DEACTIVATION m;
          m = st 5 (to_u8 (drop_bit 8 (i16 phys_addr1))) m;
          m = st 6 (to_u8 (i16 phys_addr1 AND 0xff)) m;
          m = st 7 (to_u8 (drop_bit 8 (i16 phys_addr2))) m;
          m = st 8 (to_u8 (i16 phys_addr2 AND 0xff)) m;
          m = st 9 (to_u8 (drop_bit 8 (i16 phys_addr3))) m;
          m = st 10 (to_u8 (i16 phys_addr3 AND 0xff)) m
      in m)"

lemma cec_msg_cdc_hec_request_deactivation_keeps [cec_wf]: "keeps m
    (cec_msg_cdc_hec_request_deactivation m phys_addr1 phys_addr2 phys_addr3)"
  by (simp add: cec_msg_cdc_hec_request_deactivation_def Let_def cec_kit)

definition cec_ops_cdc_hec_request_deactivation ::
    "cec_msg \<Rightarrow> u16 \<times> u16 \<times> u16 \<times> u16" where
  "cec_ops_cdc_hec_request_deactivation m =
     (to_u16 (push_bit 8 (i8 (rd m 2)) OR i8 (rd m 3)),
      to_u16 (push_bit 8 (i8 (rd m 5)) OR i8 (rd m 6)),
      to_u16 (push_bit 8 (i8 (rd m 7)) OR i8 (rd m 8)),
      to_u16 (push_bit 8 (i8 (rd m 9)) OR i8 (rd m 10)))"

lemma msg_cdc_hec_request_deactivation_roundtrip:
  "length (m_msg m) = CEC_MAX_MSG_SIZE \<Longrightarrow>
     cec_ops_cdc_hec_request_deactivation (cec_msg_cdc_hec_request_deactivation m phys_addr1
         phys_addr2 phys_addr3)
     = (to_u16 (push_bit 8 (i8 (rd m 2)) OR i8 (rd m 3)), phys_addr1, phys_addr2, phys_addr3)"
  by (simp add: cec_ops_cdc_hec_request_deactivation_def cec_msg_cdc_hec_request_deactivation_def
      Let_def byte_codec)

definition cec_msg_cdc_hec_notify_alive :: "cec_msg \<Rightarrow> cec_msg" where
  "cec_msg_cdc_hec_notify_alive m =
     (let m = m\<lparr>m_len := 5\<rparr>;
          m = st 0 (to_u8 (i8 (rd m 0) OR 0xf)) m;
          m = st 1 CEC_MSG_CDC_MESSAGE m;
          m = st 4 CEC_MSG_CDC_HEC_NOTIFY_ALIVE m
      in m)"

lemma cec_msg_cdc_hec_notify_alive_keeps [cec_wf]: "keeps m (cec_msg_cdc_hec_notify_alive m)"
  by (simp add: cec_msg_cdc_hec_notify_alive_def Let_def cec_kit)

definition cec_ops_cdc_hec_notify_alive :: "cec_msg \<Rightarrow> u16" where
  "cec_ops_cdc_hec_notify_alive m = to_u16 (push_bit 8 (i8 (rd m 2)) OR i8 (rd m 3))"

lemma msg_cdc_hec_notify_alive_roundtrip:
  "length (m_msg m) = CEC_MAX_MSG_SIZE \<Longrightarrow>
     cec_ops_cdc_hec_notify_alive (cec_msg_cdc_hec_notify_alive m )
     = to_u16 (push_bit 8 (i8 (rd m 2)) OR i8 (rd m 3))"
  by (simp add: cec_ops_cdc_hec_notify_alive_def cec_msg_cdc_hec_notify_alive_def Let_def
      byte_codec)

definition cec_msg_cdc_hec_discover :: "cec_msg \<Rightarrow> cec_msg" where
  "cec_msg_cdc_hec_discover m =
     (let m = m\<lparr>m_len := 5\<rparr>;
          m = st 0 (to_u8 (i8 (rd m 0) OR 0xf)) m;
          m = st 1 CEC_MSG_CDC_MESSAGE m;
          m = st 4 CEC_MSG_CDC_HEC_DISCOVER m
      in m)"

lemma cec_msg_cdc_hec_discover_keeps [cec_wf]: "keeps m (cec_msg_cdc_hec_discover m)"
  by (simp add: cec_msg_cdc_hec_discover_def Let_def cec_kit)

definition cec_ops_cdc_hec_discover :: "cec_msg \<Rightarrow> u16" where
  "cec_ops_cdc_hec_discover m = to_u16 (push_bit 8 (i8 (rd m 2)) OR i8 (rd m 3))"

lemma msg_cdc_hec_discover_roundtrip:
  "length (m_msg m) = CEC_MAX_MSG_SIZE \<Longrightarrow>
     cec_ops_cdc_hec_discover (cec_msg_cdc_hec_discover m )
     = to_u16 (push_bit 8 (i8 (rd m 2)) OR i8 (rd m 3))"
  by (simp add: cec_ops_cdc_hec_discover_def cec_msg_cdc_hec_discover_def Let_def byte_codec)

definition cec_msg_cdc_hpd_set_state ::
    "cec_msg \<Rightarrow> u8 \<Rightarrow> u8 \<Rightarrow> cec_msg" where
  "cec_msg_cdc_hpd_set_state m input_port hpd_state =
     (let m = m\<lparr>m_len := 6\<rparr>;
          m = st 0 (to_u8 (i8 (rd m 0) OR 0xf)) m;
          m = st 1 CEC_MSG_CDC_MESSAGE m;
          m = st 4 CEC_MSG_CDC_HPD_SET_STATE m;
          m = st 5 (to_u8 (push_bit 4 (i8 input_port) OR i8 hpd_state)) m
      in m)"

lemma cec_msg_cdc_hpd_set_state_keeps [cec_wf]: "keeps m (cec_msg_cdc_hpd_set_state m input_port
    hpd_state)"
  by (simp add: cec_msg_cdc_hpd_set_state_def Let_def cec_kit)

definition cec_ops_cdc_hpd_set_state :: "cec_msg \<Rightarrow> u16 \<times> u8 \<times> u8" where
  "cec_ops_cdc_hpd_set_state m =
     (to_u16 (push_bit 8 (i8 (rd m 2)) OR i8 (rd m 3)),
      to_u8 (drop_bit 4 (i8 (rd m 5))),
      to_u8 (i8 (rd m 5) AND 0xf))"

lemma msg_cdc_hpd_set_state_roundtrip:
  "length (m_msg m) = CEC_MAX_MSG_SIZE \<Longrightarrow> input_port < 16 \<Longrightarrow>
       hpd_state < 16 \<Longrightarrow>
     cec_ops_cdc_hpd_set_state (cec_msg_cdc_hpd_set_state m input_port hpd_state)
     = (to_u16 (push_bit 8 (i8 (rd m 2)) OR i8 (rd m 3)), input_port, hpd_state)"
  by (simp add: cec_ops_cdc_hpd_set_state_def cec_msg_cdc_hpd_set_state_def Let_def byte_codec)

definition cec_msg_cdc_hpd_report_state ::
    "cec_msg \<Rightarrow> u8 \<Rightarrow> u8 \<Rightarrow> cec_msg" where
  "cec_msg_cdc_hpd_report_state m hpd_state hpd_error =
     (let m = m\<lparr>m_len := 6\<rparr>;
          m = st 0 (to_u8 (i8 (rd m 0) OR 0xf)) m;
          m = st 1 CEC_MSG_CDC_MESSAGE m;
          m = st 4 CEC_MSG_CDC_HPD_REPORT_STATE m;
          m = st 5 (to_u8 (push_bit 4 (i8 hpd_state) OR i8 hpd_error)) m
      in m)"

lemma cec_msg_cdc_hpd_report_state_keeps [cec_wf]: "keeps m (cec_msg_cdc_hpd_report_state m
    hpd_state hpd_error)"
  by (simp add: cec_msg_cdc_hpd_report_state_def Let_def cec_kit)

definition cec_ops_cdc_hpd_report_state :: "cec_msg \<Rightarrow> u16 \<times> u8 \<times> u8" where
  "cec_ops_cdc_hpd_report_state m =
     (to_u16 (push_bit 8 (i8 (rd m 2)) OR i8 (rd m 3)),
      to_u8 (drop_bit 4 (i8 (rd m 5))),
      to_u8 (i8 (rd m 5) AND 0xf))"

lemma msg_cdc_hpd_report_state_roundtrip:
  "length (m_msg m) = CEC_MAX_MSG_SIZE \<Longrightarrow> hpd_state < 16 \<Longrightarrow>
       hpd_error < 16 \<Longrightarrow>
     cec_ops_cdc_hpd_report_state (cec_msg_cdc_hpd_report_state m hpd_state hpd_error)
     = (to_u16 (push_bit 8 (i8 (rd m 2)) OR i8 (rd m 3)), hpd_state, hpd_error)"
  by (simp add: cec_ops_cdc_hpd_report_state_def cec_msg_cdc_hpd_report_state_def Let_def
      byte_codec)

end
