(* ===== verification/Cec_Build.thy ===== *)
theory Cec_Build
  imports Cec_Msg3
begin

unbundle bit_operations_syntax

text \<open>
  Messages as sequences of calls: \<open>cec_step\<close> has one rule per builder of
  \<open>include/linux/cec-funcs.h\<close>, so a message reachable from \<open>cec_msg_init\<close> is one a program can
  make through this interface. The theory shows that every such message is well formed, states
  the contract of a builder/parser pair as a locale with its consequences proved once, and
  interprets it on the pairs of the model.
\<close>

section \<open>One builder call\<close>

inductive cec_step :: "cec_msg \<Rightarrow> cec_msg \<Rightarrow> bool" where
  active_source: "cec_step m (cec_msg_active_source m phys_addr)"
| image_view_on: "cec_step m (cec_msg_image_view_on m)"
| text_view_on: "cec_step m (cec_msg_text_view_on m)"
| inactive_source: "cec_step m (cec_msg_inactive_source m phys_addr)"
| request_active_source: "cec_step m (cec_msg_request_active_source m reply)"
| routing_information: "cec_step m (cec_msg_routing_information m phys_addr)"
| routing_change: "cec_step m (cec_msg_routing_change m reply orig_phys_addr new_phys_addr)"
| set_stream_path: "cec_step m (cec_msg_set_stream_path m phys_addr)"
| standby: "cec_step m (cec_msg_standby m)"
| record_off: "cec_step m (cec_msg_record_off m reply)"
| record_on_own: "cec_step m (cec_msg_record_on_own m)"
| record_on_digital: "cec_step m (cec_msg_record_on_digital m digital)"
| record_on_analog: "cec_step m (cec_msg_record_on_analog m ana_bcast_type ana_freq bcast_system)"
| record_on_plug: "cec_step m (cec_msg_record_on_plug m plug)"
| record_on_phys_addr: "cec_step m (cec_msg_record_on_phys_addr m phys_addr)"
| record_on: "cec_step m (cec_msg_record_on m reply rec_src)"
| record_status: "cec_step m (cec_msg_record_status m rec_status)"
| record_tv_screen: "cec_step m (cec_msg_record_tv_screen m reply)"
| timer_status: "cec_step m (cec_msg_timer_status m timer_overlap_warning media_info prog_info
    prog_error duration_hr duration_min)"
| timer_cleared_status: "cec_step m (cec_msg_timer_cleared_status m timer_cleared_status)"
| clear_analogue_timer: "cec_step m (cec_msg_clear_analogue_timer m reply day month start_hr
    start_min duration_hr duration_min recording_seq ana_bcast_type ana_freq bcast_system)"
| clear_digital_timer: "cec_step m (cec_msg_clear_digital_timer m reply day month start_hr
    start_min duration_hr duration_min recording_seq digital)"
| clear_ext_timer: "cec_step m (cec_msg_clear_ext_timer m reply day month start_hr start_min
    duration_hr duration_min recording_seq ext_src_spec plug phys_addr)"
| set_analogue_timer: "cec_step m (cec_msg_set_analogue_timer m reply day month start_hr
    start_min duration_hr duration_min recording_seq ana_bcast_type ana_freq bcast_system)"
| set_digital_timer: "cec_step m (cec_msg_set_digital_timer m reply day month start_hr
    start_min duration_hr duration_min recording_seq digital)"
| set_ext_timer: "cec_step m (cec_msg_set_ext_timer m reply day month start_hr start_min
    duration_hr duration_min recording_seq ext_src_spec plug phys_addr)"
| set_timer_program_title: "cec_step m (cec_msg_set_timer_program_title m prog_title)"
| cec_version: "cec_step m (cec_msg_cec_version m cec_version)"
| get_cec_version: "cec_step m (cec_msg_get_cec_version m reply)"
| report_physical_addr: "cec_step m (cec_msg_report_physical_addr m phys_addr prim_devtype)"
| give_physical_addr: "cec_step m (cec_msg_give_physical_addr m reply)"
| set_menu_language: "cec_step m (cec_msg_set_menu_language m language)"
| get_menu_language: "cec_step m (cec_msg_get_menu_language m reply)"
| report_features: "cec_step m (cec_msg_report_features m cec_version all_device_types
    rc_profile dev_features)"
| give_features: "cec_step m (cec_msg_give_features m reply)"
| deck_control: "cec_step m (cec_msg_deck_control m deck_control_mode)"
| deck_status: "cec_step m (cec_msg_deck_status m deck_info)"
| give_deck_status: "cec_step m (cec_msg_give_deck_status m reply status_req)"
| play: "cec_step m (cec_msg_play m play_mode)"
| tuner_device_status_analog: "cec_step m (cec_msg_tuner_device_status_analog m rec_flag
    tuner_display_info ana_bcast_type ana_freq bcast_system)"
| tuner_device_status_digital: "cec_step m (cec_msg_tuner_device_status_digital m rec_flag
    tuner_display_info digital)"
| tuner_device_status: "cec_step m (cec_msg_tuner_device_status m tuner_dev_info)"
| give_tuner_device_status: "cec_step m (cec_msg_give_tuner_device_status m reply status_req)"
| select_analogue_service: "cec_step m (cec_msg_select_analogue_service m ana_bcast_type
    ana_freq bcast_system)"
| select_digital_service: "cec_step m (cec_msg_select_digital_service m digital)"
| tuner_step_decrement: "cec_step m (cec_msg_tuner_step_decrement m)"
| tuner_step_increment: "cec_step m (cec_msg_tuner_step_increment m)"
| device_vendor_id: "cec_step m (cec_msg_device_vendor_id m vendor_id)"
| give_device_vendor_id: "cec_step m (cec_msg_give_device_vendor_id m reply)"
| vendor_command: "cec_step m (cec_msg_vendor_command m sz vendor_cmd)"
| vendor_command_with_id: "cec_step m (cec_msg_vendor_command_with_id m vendor_id sz vendor_cmd)"
| vendor_remote_button_down: "cec_step m (cec_msg_vendor_remote_button_down m sz rc_code)"
| vendor_remote_button_up: "cec_step m (cec_msg_vendor_remote_button_up m)"
| set_osd_string: "cec_step m (cec_msg_set_osd_string m disp_ctl osd)"
| set_osd_name: "cec_step m (cec_msg_set_osd_name m osd_name)"
| give_osd_name: "cec_step m (cec_msg_give_osd_name m reply)"
| menu_status: "cec_step m (cec_msg_menu_status m menu_state)"
| menu_request: "cec_step m (cec_msg_menu_request m reply menu_req)"
| user_control_pressed: "cec_step m (cec_msg_user_control_pressed m ui)"
| user_control_released: "cec_step m (cec_msg_user_control_released m)"
| report_power_status: "cec_step m (cec_msg_report_power_status m pwr_state)"
| give_device_power_status: "cec_step m (cec_msg_give_device_power_status m reply)"
| feature_abort: "cec_step m (cec_msg_feature_abort m abort_msg reason)"
| abort: "cec_step m (cec_msg_abort m)"
| report_audio_status: "cec_step m (cec_msg_report_audio_status m aud_mute_status aud_vol_status)"
| give_audio_status: "cec_step m (cec_msg_give_audio_status m reply)"
| set_system_audio_mode: "cec_step m (cec_msg_set_system_audio_mode m sys_aud_status)"
| system_audio_mode_request: "cec_step m (cec_msg_system_audio_mode_request m reply phys_addr)"
| system_audio_mode_status: "cec_step m (cec_msg_system_audio_mode_status m sys_aud_status)"
| give_system_audio_mode_status: "cec_step m (cec_msg_give_system_audio_mode_status m reply)"
| report_short_audio_descriptor: "cec_step m (cec_msg_report_short_audio_descriptor m
    num_descriptors descriptors)"
| request_short_audio_descriptor: "cec_step m (cec_msg_request_short_audio_descriptor m reply
    num_descriptors audio_format_id audio_format_code)"
| set_audio_rate: "cec_step m (cec_msg_set_audio_rate m audio_rate)"
| report_arc_initiated: "cec_step m (cec_msg_report_arc_initiated m)"
| initiate_arc: "cec_step m (cec_msg_initiate_arc m reply)"
| request_arc_initiation: "cec_step m (cec_msg_request_arc_initiation m reply)"
| report_arc_terminated: "cec_step m (cec_msg_report_arc_terminated m)"
| terminate_arc: "cec_step m (cec_msg_terminate_arc m reply)"
| request_arc_termination: "cec_step m (cec_msg_request_arc_termination m reply)"
| report_current_latency: "cec_step m (cec_msg_report_current_latency m phys_addr video_latency
    low_latency_mode audio_out_compensated audio_out_delay)"
| request_current_latency: "cec_step m (cec_msg_request_current_latency m reply phys_addr)"
| cdc_hec_inquire_state: "cec_step m (cec_msg_cdc_hec_inquire_state m phys_addr1 phys_addr2)"
| cdc_hec_report_state: "cec_step m (cec_msg_cdc_hec_report_state m target_phys_addr
    hec_func_state host_func_state enc_func_state cdc_errcode has_field hec_field)"
| cdc_hec_set_state: "cec_step m (cec_msg_cdc_hec_set_state m phys_addr1 phys_addr2
    hec_set_state phys_addr3 phys_addr4 phys_addr5)"
| cdc_hec_set_state_adjacent: "cec_step m (cec_msg_cdc_hec_set_state_adjacent m phys_addr1
    hec_set_state)"
| cdc_hec_request_deactivation: "cec_step m (cec_msg_cdc_hec_request_deactivation m phys_addr1
    phys_addr2 phys_addr3)"
| cdc_hec_notify_alive: "cec_step m (cec_msg_cdc_hec_notify_alive m)"
| cdc_hec_discover: "cec_step m (cec_msg_cdc_hec_discover m)"
| cdc_hpd_set_state: "cec_step m (cec_msg_cdc_hpd_set_state m input_port hpd_state)"
| cdc_hpd_report_state: "cec_step m (cec_msg_cdc_hpd_report_state m hpd_state hpd_error)"

lemma cec_step_keeps: "cec_step m m' \<Longrightarrow> keeps m m'"
  by (induction rule: cec_step.induct) (rule cec_wf)+

section \<open>Messages that programs can build\<close>

text \<open>
  A message under construction: freshly initialised, changed by a builder, or turned into a
  feature-abort reply.
\<close>

inductive cec_reachable :: "cec_msg \<Rightarrow> bool" where
  init: "cec_reachable (cec_msg_init initiator destination)"
| build: "cec_reachable m \<Longrightarrow> cec_step m m' \<Longrightarrow> cec_reachable m'"
| reply_abort: "cec_reachable m \<Longrightarrow> cec_reachable (cec_msg_reply_feature_abort m reason)"

lemma good_init: "good_msg (cec_msg_init initiator destination)"
  by (simp add: good_msg_def cec_msg_init_def cec_msg_zero_def Let_def)

lemma good_step: "good_msg m \<Longrightarrow> cec_step m m' \<Longrightarrow> good_msg m'"
  by (auto dest!: cec_step_keeps simp: keeps_def)

lemma reachable_good: "cec_reachable m \<Longrightarrow> good_msg m"
proof (induction rule: cec_reachable.induct)
  case (init initiator destination)
  show ?case by (rule good_init)
next
  case (build m m')
  then show ?case by (blast intro: good_step)
next
  case (reply_abort m reason)
  show ?case using reply_abort.IH by (rule reply_feature_abort_good)
qed

lemma reachable_size: "cec_reachable m \<Longrightarrow> length (m_msg m) = CEC_MAX_MSG_SIZE"
  using reachable_good [of m] by (simp add: good_msg_def)

text \<open>
  (C3) However a program combines the builders, starting from \<open>cec_msg_init\<close>, no store leaves the
  sixteen payload bytes and the length field is between 1 and 16.
\<close>

theorem cec_reachable_good:
  assumes "cec_reachable m"
  shows "length (m_msg m) = 16 \<and> \<not> m_oob m \<and> 1 \<le> m_len m \<and> m_len m \<le> 16"
  using reachable_good [OF assms] by (simp add: good_msg_def)

lemma cec_reachable_good_witness:
  "length (m_msg (cec_msg_active_source (cec_msg_init 4 0) 0x1000)) = 16 \<and>
   \<not> m_oob (cec_msg_active_source (cec_msg_init 4 0) 0x1000) \<and>
   1 \<le> m_len (cec_msg_active_source (cec_msg_init 4 0) 0x1000) \<and>
   m_len (cec_msg_active_source (cec_msg_init 4 0) 0x1000) \<le> 16"
  by (rule cec_reachable_good)
    (blast intro: cec_reachable.init cec_reachable.build cec_step.active_source)

text \<open>
  A builder never changes who sends a message: the initiator nibble stays as it was, and the
  destination either stays or becomes the broadcast address.
\<close>

theorem cec_step_header:
  assumes "good_msg m" and "cec_step m m'"
  shows "cec_msg_initiator m' = cec_msg_initiator m \<and>
    (cec_msg_destination m' = cec_msg_destination m \<or> cec_msg_is_broadcast m')"
  using cec_step_keeps [OF assms(2)] assms(1) by (simp add: keeps_def)

lemma cec_step_header_witness:
  "cec_msg_initiator (cec_msg_active_source (cec_msg_init 4 0) 0x1000) = 4 \<and>
   cec_msg_is_broadcast (cec_msg_active_source (cec_msg_init 4 0) 0x1000)"
  using cec_step_header [OF good_init [of 4 0] cec_step.active_source [of _ "0x1000"]]
  by (simp add: cec_msg_active_source_def cec_msg_init_def cec_msg_zero_def Let_def
      cec_msg_initiator_def cec_msg_destination_def cec_msg_is_broadcast_def rd_def st_def)

section \<open>The contract of a builder and its parser\<close>

locale cec_codec =
  fixes build :: "'a \<Rightarrow> cec_msg \<Rightarrow> cec_msg"
    and parse :: "cec_msg \<Rightarrow> 'a"
    and valid :: "'a \<Rightarrow> bool"
    and opcode :: int
  assumes build_keeps: "keeps m (build a m)"
    and build_opcode: "good_msg m \<Longrightarrow> cec_msg_opcode (build a m) = opcode"
    and parse_build: "good_msg m \<Longrightarrow> valid a \<Longrightarrow> parse (build a m) = a"
begin

lemma build_good: "good_msg m \<Longrightarrow> good_msg (build a m)"
  using build_keeps [of m a] by (simp add: keeps_def)

text \<open>Different operands have different wire forms.\<close>

lemma build_inj:
  assumes "good_msg m" and "good_msg m'" and "valid a" and "valid b"
    and "build a m = build b m'"
  shows "a = b"
proof -
  have "a = parse (build a m)" using assms(1,3) by (simp add: parse_build)
  also have "\<dots> = parse (build b m')" by (simp only: assms(5))
  also have "\<dots> = b" using assms(2,4) by (simp add: parse_build)
  finally show ?thesis .
qed

text \<open>A message structure can be reused: what an earlier build left behind is not read.\<close>

lemma parse_rebuild:
  "good_msg m \<Longrightarrow> valid b \<Longrightarrow> parse (build b (build a m)) = b"
  by (intro parse_build build_good)

end

text \<open>Two codecs with different opcodes never produce the same message.\<close>

locale cec_codec_pair =
  A: cec_codec build parse valid opcode + B: cec_codec build' parse' valid' opcode'
  for build :: "'a \<Rightarrow> cec_msg \<Rightarrow> cec_msg" and parse and valid and opcode
    and build' :: "'b \<Rightarrow> cec_msg \<Rightarrow> cec_msg" and parse' and valid' and opcode' +
  assumes opcodes_differ: "opcode \<noteq> opcode'"
begin

lemma build_disjoint:
  assumes "good_msg m" and "good_msg m'"
  shows "build a m \<noteq> build' b m'"
  using A.build_opcode [OF assms(1), of a] B.build_opcode [OF assms(2), of b] opcodes_differ
  by auto

end

section \<open>Interpretations on the model\<close>

text \<open>
  The codecs take their operands as one tuple; \<open>reply\<close> is part of the envelope and fixed to 0
  where a builder has it.
\<close>

definition routing_change_build :: "u16 \<times> u16 \<Rightarrow> cec_msg \<Rightarrow> cec_msg" where
  "routing_change_build a m = (case a of (old, new) \<Rightarrow> cec_msg_routing_change m 0 old new)"

interpretation routing_change: cec_codec routing_change_build cec_ops_routing_change
    "\<lambda>_. True" "0x80"
proof
  fix m and a :: "u16 \<times> u16"
  show "keeps m (routing_change_build a m)"
    by (cases a) (simp add: routing_change_build_def cec_msg_routing_change_keeps)
  show "good_msg m \<Longrightarrow> cec_msg_opcode (routing_change_build a m) = 0x80"
    by (cases a) (simp add: routing_change_build_def cec_msg_routing_change_def Let_def
        cec_msg_opcode_def good_msg_def)
  show "good_msg m \<Longrightarrow> True \<Longrightarrow> cec_ops_routing_change (routing_change_build a m) = a"
    by (cases a) (simp add: routing_change_build_def good_msg_def msg_routing_change_roundtrip)
qed

type_synonym analogue_timer = "u8 \<times> u8 \<times> u8 \<times> u8 \<times> u8 \<times> u8 \<times> u8 \<times> u8 \<times> u16 \<times> u8"

definition valid_timer :: "analogue_timer \<Rightarrow> bool" where
  "valid_timer a = (case a of (day, month, sh, sm, dh, dm, rest) \<Rightarrow>
     sh < 100 \<and> sm < 100 \<and> dh < 100 \<and> dm < 100)"

definition set_analogue_timer_build :: "analogue_timer \<Rightarrow> cec_msg \<Rightarrow> cec_msg" where
  "set_analogue_timer_build a m =
     (case a of (day, month, sh, sm, dh, dm, seq, ana, freq, sys) \<Rightarrow>
        cec_msg_set_analogue_timer m 0 day month sh sm dh dm seq ana freq sys)"

interpretation set_analogue_timer: cec_codec set_analogue_timer_build cec_ops_set_analogue_timer
    valid_timer "0x34"
proof
  fix m and a :: analogue_timer
  obtain day month sh sm dh dm seq ana freq sys
    where a: "a = (day, month, sh, sm, dh, dm, seq, ana, freq, sys)"
    by (metis prod_cases5 prod.exhaust)
  show "keeps m (set_analogue_timer_build a m)"
    by (simp add: a set_analogue_timer_build_def cec_msg_set_analogue_timer_keeps)
  show "good_msg m \<Longrightarrow> cec_msg_opcode (set_analogue_timer_build a m) = 0x34"
    by (simp add: a set_analogue_timer_build_def cec_msg_set_analogue_timer_def Let_def
        cec_msg_opcode_def good_msg_def)
  show "good_msg m \<Longrightarrow> valid_timer a \<Longrightarrow>
      cec_ops_set_analogue_timer (set_analogue_timer_build a m) = a"
    by (simp add: a set_analogue_timer_build_def good_msg_def valid_timer_def
        msg_set_analogue_timer_roundtrip)
qed

interpretation timer_routing: cec_codec_pair
    set_analogue_timer_build cec_ops_set_analogue_timer valid_timer "0x34"
    routing_change_build cec_ops_routing_change "\<lambda>_. True" "0x80"
  by unfold_locales simp

end
