(* ===== verification/Cec_Props.thy ===== *)
theory Cec_Props
  imports Cec_Build
begin

unbundle bit_operations_syntax

text \<open>
  What a program can rely on when it builds a CEC message and the receiver takes it apart: for
  each group of builders of \<open>include/linux/cec-funcs.h\<close>, which operands come back, and exactly
  what comes back where the parser does not invert the builder. The starting message is any
  message the interface can produce (\<open>cec_reachable\<close>).
\<close>

section \<open>Timers\<close>


definition sample_service :: cec_op_digital_service_id where
  "sample_service = \<lparr>ds_service_id_method = 0, ds_dig_bcast_system = 0x18, ds_w0 = 0x1234,
     ds_w1 = 0x5678, ds_w2 = 0x9abc\<rparr>"


text \<open>
  Two analogue timer messages that agree byte for byte and field for field were built from
  the same date, times and service, and no such message equals a routing change.
\<close>

theorem set_analogue_timer_injective:
  assumes "cec_reachable m" and "cec_reachable m'"
    and "valid_timer (day, month, sh, sm, dh, dm, rest)"
    and "valid_timer (day', month', sh', sm', dh', dm', rest')"
    and "set_analogue_timer_build (day, month, sh, sm, dh, dm, rest) m
       = set_analogue_timer_build (day', month', sh', sm', dh', dm', rest') m'"
  shows "(day, month, sh, sm, dh, dm, rest) = (day', month', sh', sm', dh', dm', rest') \<and>
    set_analogue_timer_build (day, month, sh, sm, dh, dm, rest) m \<noteq> routing_change_build c m'"
  using set_analogue_timer.build_inj [OF reachable_good [OF assms(1)] reachable_good [OF assms(2)]
      assms(3,4,5)]
    timer_routing.build_disjoint [OF reachable_good [OF assms(1)] reachable_good [OF assms(2)]]
  by blast

lemma set_analogue_timer_injective_witness:
  "set_analogue_timer_build (1, 2, 3, 4, 5, 6, 0, 0, 0, 0) (cec_msg_init 4 0)
     \<noteq> routing_change_build (0x1000, 0x2000) (cec_msg_init 4 0)"
  using set_analogue_timer_injective [OF cec_reachable.init [of 4 0] cec_reachable.init [of 4 0],
      of 1 2 3 4 5 6 "(0, 0, 0, 0)" 1 2 3 4 5 6 "(0, 0, 0, 0)" "(0x1000, 0x2000)"]
  by (simp add: valid_timer_def)

text \<open>
  A timer status report carries the overlap warning, the media information and either the
  program information or the program error; the receiver gets these back, with the remaining
  recording time exactly for the three codes the standard attaches it to and 0 otherwise.
\<close>

theorem timer_status_decoded:
  assumes "cec_reachable m"
    and "w < 2" and "mi < 4" and "info < 16" and "err < 16" and "hr < 100" and "mn < 100"
    and "info = 0 \<or> err = 0"
  shows "cec_ops_timer_status (cec_msg_timer_status m w mi info err hr mn)
    = (w, mi, info, err,
       (if info = CEC_OP_PROG_INFO_NOT_ENOUGH_SPACE \<or>
           info = CEC_OP_PROG_INFO_MIGHT_NOT_BE_ENOUGH_SPACE \<or>
           err = CEC_OP_PROG_ERROR_DUPLICATE then (hr, mn) else (0, 0)))"
  using timer_status_roundtrip [OF reachable_size [OF assms(1)] assms(2-8)] .

lemma timer_status_decoded_witness:
  "cec_ops_timer_status (cec_msg_timer_status (cec_msg_init 1 0) 1 2 9 0 12 34)
    = (1, 2, 9, 0, 12, 34)"
  using timer_status_decoded [OF cec_reachable.init [of 1 0], of 1 2 9 0 12 34] by simp

section \<open>Tuner and recording\<close>

lemma channel_major_exact:
  fixes maj :: u16
  assumes "maj < 1024"
  shows "push_bit 6 (drop_bit 8 maj) OR take_bit 8 maj = maj \<longleftrightarrow> maj < 256"
proof
  assume eq: "push_bit 6 (drop_bit 8 maj) OR take_bit 8 maj = maj"
  have high: "n < 10" if "bit maj n" for n
    using word_bit_bounds(7) [OF assms that] .
  have "take_bit 8 (push_bit 6 (drop_bit 8 maj) OR take_bit 8 maj)
      = push_bit 6 (drop_bit 8 maj) OR take_bit 8 maj"
    by (rule bit_word_eqI) (auto simp: bit_simps dest: high)
  then have "take_bit 8 maj = maj" by (simp only: eq)
  then have "maj AND mask 8 = maj" by (simp only: take_bit_eq_mask)
  then show "maj < 256" using and_mask_less' [of 8 maj] by simp
next
  assume "maj < 256"
  then show "push_bit 6 (drop_bit 8 maj) OR take_bit 8 maj = maj" by (rule channel_major_small)
qed

text \<open>
  A digital service given by channel number comes back with its method, system, number format
  and minor number. The major number comes back exactly when its two high bits are clear: the
  parser moves them to bits 6 and 7.
\<close>

theorem digital_channel_decoded:
  fixes d0 :: cec_op_digital_service_id
  assumes "cec_reachable m" and "p + 6 < CEC_MAX_MSG_SIZE"
    and "ds_service_id_method d = CEC_OP_SERVICE_ID_METHOD_BY_CHANNEL"
    and "ds_dig_bcast_system d < 128" and "channel_channel_number_fmt d < 64"
    and "channel_major d < 1024"
  shows "let r = cec_get_digital_service_id p (cec_set_digital_service_id p d m) d0 in
    ds_service_id_method r = ds_service_id_method d \<and>
    ds_dig_bcast_system r = ds_dig_bcast_system d \<and>
    channel_channel_number_fmt r = channel_channel_number_fmt d \<and>
    channel_minor r = channel_minor d \<and>
    (channel_major r = channel_major d \<longleftrightarrow> channel_major d < 256)"
  using digital_channel_roundtrip [OF reachable_size [OF assms(1)] assms(2-6), of d0]
    channel_major_exact [OF assms(6)]
  by (simp add: Let_def)

lemma digital_channel_decoded_witness:
  "channel_major (cec_get_digital_service_id 3 (cec_set_digital_service_id 3
     \<lparr>ds_service_id_method = 1, ds_dig_bcast_system = 0x10, ds_w0 = 2, ds_w1 = 300, ds_w2 = 1\<rparr>
     (cec_msg_init 4 0)) sample_service) \<noteq> 300"
  using digital_channel_decoded [OF cec_reachable.init [of 4 0], of 3
      "\<lparr>ds_service_id_method = 1, ds_dig_bcast_system = 0x10, ds_w0 = 2, ds_w1 = 300, ds_w2 = 1\<rparr>"
      sample_service]
  by (simp add: channel_channel_number_fmt_def Let_def)

text \<open>
  The record source of \<open>Record On\<close> comes back with its type and the operands that the type
  has: none, a digital service, an analogue service, a plug or a physical address.
\<close>

theorem record_on_decoded:
  fixes rs rs0 :: cec_op_record_src
  assumes "cec_reachable m"
    and "rs_type rs \<in> {1, 2, 3, 4, 5}"
    and "ds_service_id_method (rs_digital rs) = CEC_OP_SERVICE_ID_METHOD_BY_DIG_ID"
    and "ds_dig_bcast_system (rs_digital rs) < 128"
    and "\<not> is_atsc (ds_dig_bcast_system (rs_digital rs))"
  shows "let rs' = cec_ops_record_on (cec_msg_record_on m reply rs) rs0 in
    rs_type rs' = rs_type rs \<and>
    (rs_type rs = CEC_OP_RECORD_SRC_DIGITAL \<longrightarrow> rs_digital rs' = rs_digital rs) \<and>
    (rs_type rs = CEC_OP_RECORD_SRC_ANALOG \<longrightarrow>
       rs_ana_bcast_type rs' = rs_ana_bcast_type rs \<and> rs_ana_freq rs' = rs_ana_freq rs \<and>
       rs_bcast_system rs' = rs_bcast_system rs) \<and>
    (rs_type rs = CEC_OP_RECORD_SRC_EXT_PLUG \<longrightarrow> rs_plug rs' = rs_plug rs) \<and>
    (rs_type rs = CEC_OP_RECORD_SRC_EXT_PHYS_ADDR \<longrightarrow> rs_phys_addr rs' = rs_phys_addr rs)"
  using record_on_roundtrip [OF reachable_size [OF assms(1)], of rs reply rs0]
    record_on_digital_roundtrip [OF reachable_size [OF assms(1)] _ assms(3-5), of reply rs0]
    assms(2)
  by (auto simp: Let_def)

lemma record_on_decoded_witness:
  "rs_ana_freq (cec_ops_record_on (cec_msg_record_on (cec_msg_init 0 1) 1
     \<lparr>rs_type = 3, rs_digital = sample_service, rs_ana_bcast_type = 1, rs_ana_freq = 0x4321,
      rs_bcast_system = 2, rs_plug = 0, rs_phys_addr = 0\<rparr>)
     \<lparr>rs_type = 0, rs_digital = sample_service, rs_ana_bcast_type = 0, rs_ana_freq = 0,
      rs_bcast_system = 0, rs_plug = 0, rs_phys_addr = 0\<rparr>) = 0x4321"
  using record_on_decoded [OF cec_reachable.init [of 0 1], of
      "\<lparr>rs_type = 3, rs_digital = sample_service, rs_ana_bcast_type = 1, rs_ana_freq = 0x4321,
      rs_bcast_system = 2, rs_plug = 0, rs_phys_addr = 0\<rparr>" 1
     "\<lparr>rs_type = 0, rs_digital = sample_service, rs_ana_bcast_type = 0, rs_ana_freq = 0,
      rs_bcast_system = 0, rs_plug = 0, rs_phys_addr = 0\<rparr>"]
  by (simp add: sample_service_def is_atsc_def Let_def)

section \<open>Vendor commands, strings and audio descriptors\<close>

text \<open>
  A vendor command of at most eleven bytes with a 24-bit vendor identifier is delivered whole:
  identifier, size and bytes.
\<close>

theorem vendor_command_with_id_delivered:
  assumes "cec_reachable m" and "sz \<le> 11" and "length cmd = unat sz" and "vid < 0x1000000"
  shows "let r = cec_ops_vendor_command_with_id (cec_msg_vendor_command_with_id m vid sz cmd)
    in fst r = vid \<and> fst (snd r) = sz \<and> take (unat sz) (snd (snd r)) = cmd"
  using vendor_command_with_id_roundtrip [OF reachable_size [OF assms(1)] assms(2-4)]
  by (simp add: Let_def)

lemma vendor_command_with_id_delivered_witness:
  "fst (cec_ops_vendor_command_with_id
     (cec_msg_vendor_command_with_id (cec_msg_init 4 0) 0x00e091 2 [1, 2])) = 0x00e091"
  using vendor_command_with_id_delivered [OF cec_reachable.init [of 4 0], of 2 "[1, 2]" "0x00e091"]
  by (simp add: Let_def)

text \<open>
  On-screen strings, device names and programme titles of any length are delivered as their
  first 13, 14 and 14 bytes, terminated by a null byte.
\<close>

theorem strings_delivered_truncated:
  assumes "cec_reachable m"
  shows "cec_ops_set_osd_string (cec_msg_set_osd_string m ctl s) = (ctl, take 13 s @ [0]) \<and>
    cec_ops_set_osd_name (cec_msg_set_osd_name m s) = take 14 s @ [0] \<and>
    cec_ops_set_timer_program_title (cec_msg_set_timer_program_title m s) = take 14 s @ [0]"
  using reachable_size [OF assms]
  by (simp add: set_osd_string_roundtrip set_osd_name_roundtrip set_timer_program_title_roundtrip)

lemma strings_delivered_truncated_witness:
  "cec_ops_set_osd_name (cec_msg_set_osd_name (cec_msg_init 4 0) [0x41, 0x42]) = [0x41, 0x42, 0]"
  using strings_delivered_truncated [OF cec_reachable.init [of 4 0], of 0 "[0x41, 0x42]"] by simp

text \<open>
  Up to four 24-bit short audio descriptors are delivered in order.
\<close>

theorem short_audio_descriptors_delivered:
  assumes "cec_reachable m" and "n \<le> 4" and "length ds = unat n"
    and "\<forall>d \<in> set ds. d < 0x1000000"
  shows "cec_ops_report_short_audio_descriptor (cec_msg_report_short_audio_descriptor m n ds)
    = (n, ds)"
  by (rule report_short_audio_descriptor_roundtrip [OF reachable_size [OF assms(1)] assms(2-4)])

lemma short_audio_descriptors_delivered_witness:
  "cec_ops_report_short_audio_descriptor
     (cec_msg_report_short_audio_descriptor (cec_msg_init 5 0) 2 [0x091507, 0x150f57])
    = (2, [0x091507, 0x150f57])"
  using short_audio_descriptors_delivered [OF cec_reachable.init [of 5 0], of 2
      "[0x091507, 0x150f57]"]
  by simp

section \<open>Features, feature aborts and CDC\<close>

text \<open>
  The pointers that the parser of \<open>Report Features\<close> hands out stay inside the payload for
  every content of the message: the profile pointer is null or the fifth byte, and the
  device-feature pointer is null with it and otherwise points behind it.
\<close>

theorem report_features_pointers:
  "case cec_ops_report_features m of (version, types, rc, dev) \<Rightarrow>
     (rc = None \<or> rc = Some 4) \<and>
     (case dev of None \<Rightarrow> True | Some k \<Rightarrow> rc = Some 4 \<and> 4 < k \<and> k < CEC_MAX_MSG_SIZE)"
  using report_features_bounds [of m]
  by (auto split: prod.splits option.splits)

text \<open>
  A feature-abort reply made in place goes back to the sender: initiator and destination are
  exchanged, the operands name the opcode that was refused and the reason, and no reply is
  awaited.
\<close>

theorem reply_feature_abort_exchanges:
  assumes "cec_reachable m"
  shows "let r = cec_msg_reply_feature_abort m reason in
    cec_msg_initiator r = cec_msg_destination m \<and> cec_msg_destination r = cec_msg_initiator m \<and>
    cec_ops_feature_abort r = (rd m 1, reason) \<and> m_reply r = 0 \<and> m_timeout r = 0"
proof -
  have "m_reply (cec_msg_reply_feature_abort m reason) = 0"
    and "m_timeout (cec_msg_reply_feature_abort m reason) = 0"
    by (simp_all add: cec_msg_reply_feature_abort_def cec_msg_set_reply_to_def Let_def)
  then show ?thesis
    using reply_feature_abort_good [OF reachable_good [OF assms], of reason] by (simp add: Let_def)
qed

lemma reply_feature_abort_exchanges_witness:
  "cec_msg_initiator (cec_msg_reply_feature_abort (cec_msg_init 4 0) 2)
     = cec_msg_destination (cec_msg_init 4 0)"
  using reply_feature_abort_exchanges [OF cec_reachable.init [of 4 0], of 2] by (simp add: Let_def)

text \<open>
  The parser of the HEC state report returns every operand of the builder except the ENC
  functionality state, in whose place it returns the host functionality state.
\<close>

theorem cdc_hec_report_state_decoded:
  assumes "cec_reachable m"
    and "hec < 4" and "host < 4" and "enc < 4" and "err < 4" and "has = 0 \<or> has = 1"
  shows "snd (cec_ops_cdc_hec_report_state
      (cec_msg_cdc_hec_report_state m tpa hec host enc err has fld))
    = (tpa, hec, host, host, err, has, (if has = 0 then 0 else fld))"
  using cdc_hec_report_state_roundtrip [OF reachable_size [OF assms(1)] assms(2-6)] by simp

lemma cdc_hec_report_state_decoded_witness:
  "snd (cec_ops_cdc_hec_report_state
     (cec_msg_cdc_hec_report_state (cec_msg_init 4 0) 0x1000 1 2 3 0 0 0))
    = (0x1000, 1, 2, 2, 0, 0, 0)"
  using cdc_hec_report_state_decoded [OF cec_reachable.init [of 4 0], of 1 2 3 0 0 "0x1000" 0]
  by simp

text \<open>
  The operands of an HEC set-state message come back up to the first missing optional
  address, but the message carries the CDC opcode of an inquiry and not
  \<open>CEC_MSG_CDC_HEC_SET_STATE\<close>, so a receiver does not take it for a set-state message.
\<close>

theorem cdc_hec_set_state_decoded:
  assumes "cec_reachable m"
  shows "let r = cec_msg_cdc_hec_set_state m pa1 pa2 sv pa3 pa4 pa5 in
    snd (cec_ops_cdc_hec_set_state r) = (pa1, pa2, sv, pa3,
       (if pa3 = CEC_PHYS_ADDR_INVALID then CEC_PHYS_ADDR_INVALID else pa4),
       (if pa3 = CEC_PHYS_ADDR_INVALID \<or> pa4 = CEC_PHYS_ADDR_INVALID
        then CEC_PHYS_ADDR_INVALID else pa5)) \<and>
    rd r 4 = CEC_MSG_CDC_HEC_INQUIRE_STATE \<and> rd r 4 \<noteq> CEC_MSG_CDC_HEC_SET_STATE"
  using cdc_hec_set_state_roundtrip [OF reachable_size [OF assms]]
    cdc_hec_set_state_opcode [OF reachable_size [OF assms]]
  by (simp add: Let_def)

lemma cdc_hec_set_state_decoded_witness:
  "snd (cec_ops_cdc_hec_set_state
     (cec_msg_cdc_hec_set_state (cec_msg_init 4 0) 0x1000 0x2000 1 0x3000 0xffff 0xffff))
    = (0x1000, 0x2000, 1, 0x3000, 0xffff, 0xffff)"
  using cdc_hec_set_state_decoded [OF cec_reachable.init [of 4 0], of "0x1000" "0x2000" 1 "0x3000"
      "0xffff" "0xffff"]
  by (simp add: Let_def)

end
