(* ===== verification/OS.thy ===== *)
theory OS
  imports Prelude "HOL-Library.State_Monad"
begin

text \<open>
  The operating system and C library as the Xtrans sources use them. A program is a state monad
  over a world: the environment decides whether a call succeeds and what data it delivers, as a
  function of the calls made so far; what the calls do to the process (open descriptors, live
  heap blocks, the file mode creation mask, \<open>errno\<close>) is kept in the world itself. Two ghost
  flags record what C leaves undefined or what closes a descriptor that is not open.
\<close>

section \<open>Data exchanged with the system\<close>

record statb =
  st_mode :: u32
  st_uid :: nat
  st_dev :: nat
  st_ino :: nat

text \<open>Socket addresses are byte strings laid out as on x86-64 Linux.\<close>

record addrinfo =
  ai_family :: int
  ai_addr :: string

record resp =
  r_ret :: int
  r_errno :: int
  r_data :: string
  r_val :: int
  r_stat :: statb
  r_addrs :: "addrinfo list"
  r_cmsgs :: "(int \<times> int \<times> nat) list"

datatype os_call =
  Malloc nat | Socket int int int | Close int | Bind int string | ListenC int int
| AcceptC int | ConnectC int string | Getsockname int nat | Getpeername int nat
| Setsockopt int int int int | Getsockopt int int int | Fcntl int int int | Ioctl int int
| Unlink string | Stat string | Lstat string | Fstat int | Mkdir string u32
| Chmod string u32 | Fchmod int u32 | Fchown int nat nat | OpenC string | Umask u32
| Geteuid | Getpid | Sysconf_open_max | Sleep nat | Gethostname nat | Uname
| Getaddrinfo string "string option" int | Freeaddrinfo | Gethostbyname string
| Gethostbyaddr string nat int | Getservbyname string string | Inet_pton string
| Inet_addr string | Inet_ntop int string | Recvmsg int nat | Sendmsg int "string list" "int list"
| WriteC int string | WritevC int "string list" | ReadC int nat | Shutdown int int
| Sd_listen_fds int

record os =
  w_env :: "(os_call \<times> resp) list \<Rightarrow> os_call \<Rightarrow> resp"
  w_log :: "(os_call \<times> resp) list"
  w_errno :: int
  w_fds :: "int list"
  w_heap :: "nat list"
  w_next :: nat
  w_umask :: u32
  w_fault :: bool
  w_badfd :: bool

text \<open>\<open>w_log\<close> holds the calls made so far with their answers, the latest first.\<close>

text \<open>
  An answer carries what the call returns and, where the call has them, the bytes it stores in
  the caller's buffer, an integer it stores, a file status, an address list, and the control
  messages that came with the data (level, type and number of descriptors).
\<close>

section \<open>Programs\<close>

type_synonym ('z, 'a) prog = "('z os_scheme, 'a) state"

abbreviation return :: "'a \<Rightarrow> ('s, 'a) state" where "return \<equiv> State_Monad.return"

definition gets :: "('s \<Rightarrow> 'a) \<Rightarrow> ('s, 'a) state" where
  "gets f = State (\<lambda>s. (f s, s))"

definition modify :: "('s \<Rightarrow> 's) \<Rightarrow> ('s, unit) state" where
  "modify f = State (\<lambda>s. ((), f s))"

definition do_if :: "bool \<Rightarrow> ('s, unit) state \<Rightarrow> ('s, unit) state" where
  "do_if b m = (if b then m else return ())"

text \<open>A call into the system: it is logged, and a negative result sets \<open>errno\<close>.\<close>

definition sys :: "os_call \<Rightarrow> ('z, resp) prog" where
  "sys c = State (\<lambda>w. let r = w_env w (w_log w) c in
     (r, w\<lparr>w_log := (c, r) # w_log w, w_errno := (if r_ret r < 0 then r_errno r else w_errno w)\<rparr>))"

text \<open>A call whose result the program ignores.\<close>

definition sys_ignore :: "os_call \<Rightarrow> ('z, unit) prog" where
  "sys_ignore c = do { _ \<leftarrow> sys c; return () }"

definition set_errno :: "int \<Rightarrow> ('z, unit) prog" where
  "set_errno e = modify (w_errno_update (\<lambda>_. e))"

definition fault :: "('z, unit) prog" where
  "fault = modify (w_fault_update (\<lambda>_. True))"

section \<open>Descriptors\<close>

text \<open>POSIX gives out the lowest descriptor that is not open.\<close>

definition lowest_fd :: "int list \<Rightarrow> int" where
  "lowest_fd fds = hd (filter (\<lambda>n. n \<notin> set fds) (map int [0..<Suc (length fds)]))"

definition new_fd :: "('z, int) prog" where
  "new_fd = State (\<lambda>w. let fd = lowest_fd (w_fds w) in (fd, w\<lparr>w_fds := fd # w_fds w\<rparr>))"

definition sys_fd :: "os_call \<Rightarrow> ('z, int) prog" where
  "sys_fd c = do {
     r \<leftarrow> sys c;
     if r_ret r < 0 then return (-1) else new_fd
   }"

text \<open>Linux releases the descriptor even when \<open>close\<close> reports an error.\<close>

definition c_close :: "int \<Rightarrow> ('z, int) prog" where
  "c_close fd = do {
     r \<leftarrow> sys (Close fd);
     fds \<leftarrow> gets w_fds;
     if fd \<in> set fds then do {
       modify (\<lambda>w. w\<lparr>w_fds := remove1 fd (w_fds w)\<rparr>);
       return (if r_ret r < 0 then -1 else 0)
     } else do {
       modify (w_badfd_update (\<lambda>_. True));
       set_errno 9;
       return (-1)
     }
   }"

text \<open>A call of which only the sign of the result matters.\<close>

definition sys_ok :: "os_call \<Rightarrow> ('z, bool) prog" where
  "sys_ok c = do { r \<leftarrow> sys c; return (0 \<le> r_ret r) }"

definition c_umask :: "u32 \<Rightarrow> ('z, u32) prog" where
  "c_umask n = do {
     _ \<leftarrow> sys (Umask n);
     old \<leftarrow> gets w_umask;
     modify (w_umask_update (\<lambda>_. n));
     return old
   }"

section \<open>Heap\<close>

text \<open>
  A pointer into the heap is null, points to the start of a block with some contents, or points
  into memory that is not the start of a block of its own and must not be passed to \<open>free\<close>.
\<close>

datatype 'a cptr = Null | Ptr nat 'a | Inner 'a

fun deref :: "'a cptr \<Rightarrow> 'a option" where
  "deref Null = None"
| "deref (Ptr _ a) = Some a"
| "deref (Inner a) = Some a"

fun blocks :: "'a cptr \<Rightarrow> nat list" where
  "blocks Null = []"
| "blocks (Ptr i _) = [i]"
| "blocks (Inner _) = []"

definition new_block :: "('z, nat) prog" where
  "new_block = State (\<lambda>w. (w_next w, w\<lparr>w_heap := w_next w # w_heap w, w_next := Suc (w_next w)\<rparr>))"

definition malloc :: "nat \<Rightarrow> ('z, nat option) prog" where
  "malloc n = do {
     r \<leftarrow> sys (Malloc n);
     if r_ret r < 0 then return None
     else do { i \<leftarrow> new_block; return (Some i) }
   }"

definition free_block :: "nat \<Rightarrow> ('z, unit) prog" where
  "free_block i = do {
     h \<leftarrow> gets w_heap;
     if i \<in> set h then modify (\<lambda>w. w\<lparr>w_heap := remove1 i (w_heap w)\<rparr>) else fault
   }"

fun free_ptr :: "'a cptr \<Rightarrow> ('z, unit) prog" where
  "free_ptr Null = return ()"
| "free_ptr (Ptr i _) = free_block i"
| "free_ptr (Inner _) = fault"

text \<open>Allocate a block with given contents; the result may be null.\<close>

definition malloc_with :: "nat \<Rightarrow> 'a \<Rightarrow> ('z, 'a cptr) prog" where
  "malloc_with n a = do {
     b \<leftarrow> malloc n;
     return (case b of None \<Rightarrow> Null | Some i \<Rightarrow> Ptr i a)
   }"

definition strdup :: "string \<Rightarrow> ('z, string cptr) prog" where
  "strdup s = malloc_with (length s + 1) s"

section \<open>Weakest preconditions\<close>

definition wp :: "('s, 'a) state \<Rightarrow> ('a \<Rightarrow> 's \<Rightarrow> bool) \<Rightarrow> 's \<Rightarrow> bool" where
  "wp m Q s = (case run_state m s of (a, s') \<Rightarrow> Q a s')"

lemma wpD: "wp m Q s \<Longrightarrow> run_state m s = (a, s') \<Longrightarrow> Q a s'"
  by (simp add: wp_def)

lemma wpI: "(\<And>a s'. run_state m s = (a, s') \<Longrightarrow> Q a s') \<Longrightarrow> wp m Q s"
  by (auto simp: wp_def split: prod.splits)

lemma wp_mono: "wp m P s \<Longrightarrow> (\<And>a s'. P a s' \<Longrightarrow> Q a s') \<Longrightarrow> wp m Q s"
  by (auto simp: wp_def split: prod.splits)

lemma wp_mono_option:
  assumes "wp m (\<lambda>r w'. case r of None \<Rightarrow> N w' | Some c \<Rightarrow> S c w') w"
    and "\<And>w'. N w' \<Longrightarrow> Q None w'" and "\<And>c w'. S c w' \<Longrightarrow> Q (Some c) w'"
  shows "wp m Q w"
  using assms(1) by (rule wp_mono) (auto split: option.splits intro: assms(2,3))

lemma wp_conj: "wp m (\<lambda>a s. P a s \<and> Q a s) s \<longleftrightarrow> wp m P s \<and> wp m Q s"
  by (simp add: wp_def split: prod.splits)

lemma wp_return [simp]: "wp (return a) Q s = Q a s"
  by (simp add: wp_def)

lemma wp_bind [simp]: "wp (State_Monad.bind m f) Q s = wp m (\<lambda>a. wp (f a) Q) s"
  by (simp add: wp_def split: prod.splits)

lemma wp_gets [simp]: "wp (gets g) Q s = Q (g s) s"
  by (simp add: wp_def gets_def)

lemma wp_modify [simp]: "wp (modify g) Q s = Q () (g s)"
  by (simp add: wp_def modify_def)

text \<open>The rule for a sequence with the specification of its first part.\<close>

lemma wp_bindI:
  "wp m P s \<Longrightarrow> (\<And>a s'. P a s' \<Longrightarrow> wp (f a) Q s') \<Longrightarrow> wp (State_Monad.bind m f) Q s"
  by (simp add: wp_mono)

lemma wp_if [simp]: "wp (if b then m else n) Q s = (if b then wp m Q s else wp n Q s)"
  by simp

lemma wp_do_if [simp]: "wp (do_if b m) Q s = (if b then wp m Q s else Q () s)"
  by (simp add: do_if_def)

text \<open>The rules for results that are not yet applied to a state.\<close>

lemmas wp_fun = wp_return [abs_def] wp_bind [abs_def] wp_do_if [abs_def]

text \<open>What holds of every result holds of a program that is not looked at.\<close>

lemma wp_any: "(\<And>a s'. Q a s') \<Longrightarrow> wp m Q s"
  by (simp add: wp_def split: prod.split)

lemma wp_option [simp]:
  "wp (case x of None \<Rightarrow> m | Some y \<Rightarrow> f y) Q s
     = (case x of None \<Rightarrow> wp m Q s | Some y \<Rightarrow> wp (f y) Q s)"
  by (simp split: option.split)

lemma wp_cptr [simp]:
  "wp (case x of Null \<Rightarrow> m | Ptr i y \<Rightarrow> f i y | Inner y \<Rightarrow> g y) Q s
     = (case x of Null \<Rightarrow> wp m Q s | Ptr i y \<Rightarrow> wp (f i y) Q s | Inner y \<Rightarrow> wp (g y) Q s)"
  by (simp split: cptr.split)

lemma wp_prod [simp]: "wp (case x of (a, b) \<Rightarrow> f a b) Q s = (case x of (a, b) \<Rightarrow> wp (f a b) Q s)"
  by (simp split: prod.split)

lemma wp_set_errno [simp]: "wp (set_errno e) Q w = Q () (w\<lparr>w_errno := e\<rparr>)"
  and wp_fault [simp]: "wp fault Q w = Q () (w\<lparr>w_fault := True\<rparr>)"
  by (simp_all add: set_errno_def fault_def)

text \<open>
  The rules for calls into the system forget which call was made and what its log is: what
  follows holds for every answer.
\<close>

lemma wp_sys_errno:
  "(\<And>r l e. (r_ret r < 0 \<Longrightarrow> e = r_errno r) \<Longrightarrow> Q r (w\<lparr>w_log := l, w_errno := e\<rparr>)) \<Longrightarrow> wp (sys c) Q w"
  by (simp add: wp_def sys_def Let_def)

lemma wp_sys [wp_intro]:
  "(\<And>r l e. Q r (w\<lparr>w_log := l, w_errno := e\<rparr>)) \<Longrightarrow> wp (sys c) Q w"
  by (simp add: wp_def sys_def Let_def)

text \<open>The same rule with the answer of the environment.\<close>

lemma wp_sys_env:
  "(\<And>l e. Q (w_env w (w_log w) c) (w\<lparr>w_log := l, w_errno := e\<rparr>)) \<Longrightarrow> wp (sys c) Q w"
  by (simp add: wp_def sys_def Let_def)

text \<open>The same rule with the answer and the log.\<close>

lemma wp_sys_run:
  "(\<And>r e. r = w_env w (w_log w) c \<Longrightarrow> Q r (w\<lparr>w_log := (c, r) # w_log w, w_errno := e\<rparr>)) \<Longrightarrow> wp (sys c) Q w"
  by (simp add: wp_def sys_def Let_def)

text \<open>The same rule with the log, for statements about the calls themselves.\<close>

lemma wp_sys_log:
  "(\<And>r e. Q r (w\<lparr>w_log := (c, r) # w_log w, w_errno := e\<rparr>)) \<Longrightarrow> wp (sys c) Q w"
  by (simp add: wp_def sys_def Let_def)

lemma wp_sys_ignore [wp_intro]:
  "(\<And>l e. Q () (w\<lparr>w_log := l, w_errno := e\<rparr>)) \<Longrightarrow> wp (sys_ignore c) Q w"
  by (simp add: sys_ignore_def) (rule wp_sys, simp)

lemma wp_sys_ok [wp_intro]:
  "(\<And>b l e. Q b (w\<lparr>w_log := l, w_errno := e\<rparr>)) \<Longrightarrow> wp (sys_ok c) Q w"
  by (simp add: sys_ok_def) (rule wp_sys, simp)

lemma wp_new_fd [simp]:
  "wp new_fd Q w = Q (lowest_fd (w_fds w)) (w\<lparr>w_fds := lowest_fd (w_fds w) # w_fds w\<rparr>)"
  by (simp add: wp_def new_fd_def Let_def)

lemma wp_sys_fd [wp_intro]:
  assumes "\<And>l e. Q (-1) (w\<lparr>w_log := l, w_errno := e\<rparr>)"
    and "\<And>l e fd. fd = lowest_fd (w_fds w) \<Longrightarrow>
      Q fd (w\<lparr>w_log := l, w_errno := e, w_fds := fd # w_fds w\<rparr>)"
  shows "wp (sys_fd c) Q w"
  unfolding sys_fd_def by (simp, rule wp_sys) (use assms in auto)

lemma wp_c_close [wp_intro]:
  assumes "\<And>r l e. fd \<in> set (w_fds w) \<Longrightarrow> r = 0 \<or> r = -1 \<Longrightarrow>
      Q r (w\<lparr>w_log := l, w_errno := e, w_fds := remove1 fd (w_fds w)\<rparr>)"
    and "\<And>l. fd \<notin> set (w_fds w) \<Longrightarrow>
      Q (-1) (w\<lparr>w_log := l, w_badfd := True, w_errno := 9\<rparr>)"
  shows "wp (c_close fd) Q w"
  unfolding c_close_def by (simp, rule wp_sys) (use assms in auto)

lemma wp_c_umask [wp_intro]:
  "(\<And>l e. Q (w_umask w) (w\<lparr>w_log := l, w_errno := e, w_umask := n\<rparr>)) \<Longrightarrow> wp (c_umask n) Q w"
  unfolding c_umask_def by (simp, rule wp_sys) auto

lemma wp_new_block [simp]:
  "wp new_block Q w = Q (w_next w) (w\<lparr>w_heap := w_next w # w_heap w, w_next := Suc (w_next w)\<rparr>)"
  by (simp add: wp_def new_block_def)

lemma wp_malloc [wp_intro]:
  assumes "\<And>l e. Q None (w\<lparr>w_log := l, w_errno := e\<rparr>)"
    and "\<And>l e. Q (Some (w_next w)) (w\<lparr>w_log := l, w_errno := e, w_heap := w_next w # w_heap w,
      w_next := Suc (w_next w)\<rparr>)"
  shows "wp (malloc n) Q w"
  unfolding malloc_def by (simp, rule wp_sys) (use assms in auto)

lemma wp_malloc_with [wp_intro]:
  assumes "\<And>l e. Q Null (w\<lparr>w_log := l, w_errno := e\<rparr>)"
    and "\<And>l e. Q (Ptr (w_next w) a) (w\<lparr>w_log := l, w_errno := e, w_heap := w_next w # w_heap w,
      w_next := Suc (w_next w)\<rparr>)"
  shows "wp (malloc_with n a) Q w"
  unfolding malloc_with_def by (simp, rule wp_malloc) (use assms in auto)

lemma wp_strdup [wp_intro]:
  assumes "\<And>l e. Q Null (w\<lparr>w_log := l, w_errno := e\<rparr>)"
    and "\<And>l e. Q (Ptr (w_next w) s) (w\<lparr>w_log := l, w_errno := e, w_heap := w_next w # w_heap w,
      w_next := Suc (w_next w)\<rparr>)"
  shows "wp (strdup s) Q w"
  unfolding strdup_def by (rule wp_malloc_with) (use assms in auto)

lemma wp_free_block [simp]:
  "wp (free_block i) Q w = (if i \<in> set (w_heap w) then Q () (w\<lparr>w_heap := remove1 i (w_heap w)\<rparr>)
     else Q () (w\<lparr>w_fault := True\<rparr>))"
  by (simp add: free_block_def)

lemma wp_free_ptr [simp]:
  "wp (free_ptr (Ptr i a)) Q w = (if i \<in> set (w_heap w)
     then Q () (w\<lparr>w_heap := remove1 i (w_heap w)\<rparr>) else Q () (w\<lparr>w_fault := True\<rparr>))"
  by simp

text \<open>The recursion in a continuation is applied to a result of the first program.\<close>

lemma bind_state_cong [fundef_cong]:
  "m = m' \<Longrightarrow> (\<And>s a s'. run_state m' s = (a, s') \<Longrightarrow> f a = g a) \<Longrightarrow>
     State_Monad.bind m f = State_Monad.bind m' g"
  by (rule state_ext) (auto split: prod.splits)

section \<open>Invariants of the world\<close>

definition os_wf :: "'z os_scheme \<Rightarrow> bool" where
  "os_wf w \<longleftrightarrow> distinct (w_fds w) \<and> distinct (w_heap w) \<and> (\<forall>i \<in> set (w_heap w). i < w_next w)"

lemma os_wf_fresh: "os_wf w \<Longrightarrow> w_next w \<notin> set (w_heap w)"
  by (auto simp: os_wf_def)

text \<open>The next few block numbers are above all live blocks.\<close>

lemma os_wf_less:
  assumes "os_wf w"
  shows "\<forall>i \<in> set (w_heap w). i < Suc (w_next w) \<and> i < Suc (Suc (w_next w)) \<and>
      i < Suc (Suc (Suc (w_next w)))"
    and "Suc (w_next w) \<notin> set (w_heap w)" and "Suc (Suc (w_next w)) \<notin> set (w_heap w)"
  using assms by (auto simp: os_wf_def dest: Suc_lessD)

lemma lowest_fd_spec: "lowest_fd fds \<notin> set fds \<and> 0 \<le> lowest_fd fds"
proof -
  let ?c = "map int [0..<Suc (length fds)]"
  have "\<not> set ?c \<subseteq> set fds"
  proof
    assume "set ?c \<subseteq> set fds"
    then have "card (set ?c) \<le> length fds"
      using card_mono [of "set fds" "set ?c"] card_length [of fds] by simp
    moreover have "card (set ?c) = Suc (length fds)"
      by (subst distinct_card) (simp_all add: distinct_map del: upt_Suc)
    ultimately show False by simp
  qed
  then have "filter (\<lambda>n. n \<notin> set fds) ?c \<noteq> []"
    by (auto simp: filter_empty_conv simp del: upt_Suc)
  then have "lowest_fd fds \<in> set (filter (\<lambda>n. n \<notin> set fds) ?c)"
    unfolding lowest_fd_def by (rule hd_in_set)
  then show ?thesis by (auto simp del: upt_Suc)
qed

lemma lowest_fd_fresh [simp]: "lowest_fd fds \<notin> set fds" "0 \<le> lowest_fd fds"
  "\<not> lowest_fd fds < 0" "lowest_fd fds \<noteq> -1"
  using lowest_fd_spec [of fds] by auto

text \<open>What a program holds: the part of the world that can leak.\<close>

definition holds :: "'z os_scheme \<Rightarrow> int list \<times> nat list \<times> u32 \<times> bool \<times> bool" where
  "holds w = (w_fds w, w_heap w, w_umask w, w_fault w, w_badfd w)"

lemma holds_log [simp]: "holds (w\<lparr>w_log := l\<rparr>) = holds w" "holds (w\<lparr>w_errno := e\<rparr>) = holds w"
  "holds (w\<lparr>w_next := n\<rparr>) = holds w"
  by (simp_all add: holds_def)

section \<open>Enough memory\<close>

text \<open>An environment in which every allocation succeeds.\<close>

definition mem_ok :: "'z os_scheme \<Rightarrow> bool" where
  "mem_ok w \<longleftrightarrow> (\<forall>l n. 0 \<le> r_ret (w_env w l (Malloc n)))"

lemma mem_ok_update [simp]:
  "mem_ok (w\<lparr>w_log := l\<rparr>) = mem_ok w" "mem_ok (w\<lparr>w_errno := e\<rparr>) = mem_ok w"
  "mem_ok (w\<lparr>w_fds := f\<rparr>) = mem_ok w" "mem_ok (w\<lparr>w_heap := h\<rparr>) = mem_ok w"
  "mem_ok (w\<lparr>w_next := n\<rparr>) = mem_ok w" "mem_ok (w\<lparr>w_umask := m\<rparr>) = mem_ok w"
  "mem_ok (w\<lparr>w_fault := b\<rparr>) = mem_ok w" "mem_ok (w\<lparr>w_badfd := b\<rparr>) = mem_ok w"
  by (simp_all add: mem_ok_def)

text \<open>The allocation rules with what is known of a failure.\<close>

lemma wp_malloc_mem:
  assumes "\<And>l e. \<not> mem_ok w \<Longrightarrow> r_ret (w_env w (w_log w) (Malloc n)) < 0 \<Longrightarrow>
      Q None (w\<lparr>w_log := l, w_errno := e\<rparr>)"
    and "\<And>l e. Q (Some (w_next w)) (w\<lparr>w_log := l, w_errno := e, w_heap := w_next w # w_heap w,
      w_next := Suc (w_next w)\<rparr>)"
  shows "wp (malloc n) Q w"
  unfolding malloc_def
  by (simp, rule wp_sys_env, cases "r_ret (w_env w (w_log w) (Malloc n)) < 0")
    (use assms in \<open>auto simp: mem_ok_def not_le\<close>)

lemma wp_malloc_with_mem:
  assumes "\<And>l e. \<not> mem_ok w \<Longrightarrow> r_ret (w_env w (w_log w) (Malloc n)) < 0 \<Longrightarrow>
      Q Null (w\<lparr>w_log := l, w_errno := e\<rparr>)"
    and "\<And>l e. Q (Ptr (w_next w) a) (w\<lparr>w_log := l, w_errno := e, w_heap := w_next w # w_heap w,
      w_next := Suc (w_next w)\<rparr>)"
  shows "wp (malloc_with n a) Q w"
  unfolding malloc_with_def by (simp, rule wp_malloc_mem) (use assms in auto)

lemma wp_strdup_mem:
  assumes "\<And>l e. \<not> mem_ok w \<Longrightarrow> r_ret (w_env w (w_log w) (Malloc (length s + 1))) < 0 \<Longrightarrow>
      Q Null (w\<lparr>w_log := l, w_errno := e\<rparr>)"
    and "\<And>l e. Q (Ptr (w_next w) s) (w\<lparr>w_log := l, w_errno := e, w_heap := w_next w # w_heap w,
      w_next := Suc (w_next w)\<rparr>)"
  shows "wp (strdup s) Q w"
  unfolding strdup_def by (rule wp_malloc_with_mem) (use assms in auto)

end
