(* ===== verification/CStrings.thy ===== *)
theory CStrings
  imports Prelude "HOL-Library.Char_ord"
begin

text \<open>
  The C string library as the Xtrans sources use it. A C string is the list of its characters
  before the terminating null; a buffer is a list of characters that may hold nulls, and
  \<open>cstr\<close> reads the string in it. Numbers are read by \<open>strtol\<close> and printed by \<open>dec\<close>.
\<close>

abbreviation NUL :: char where "NUL \<equiv> CHR 0x00"

definition cstr :: "string \<Rightarrow> string" where
  "cstr buf = takeWhile (\<lambda>c. c \<noteq> NUL) buf"

text \<open>\<open>snprintf (buf, n, "%s", s)\<close> stores at most \<open>n - 1\<close> characters.\<close>

definition snprintf_s :: "nat \<Rightarrow> string \<Rightarrow> string" where
  "snprintf_s n s = take (n - 1) s"

text \<open>\<open>strncpy (buf, s, n)\<close> fills \<open>n\<close> bytes: a prefix of the string, padded with nulls.\<close>

definition strncpy_bytes :: "nat \<Rightarrow> string \<Rightarrow> string" where
  "strncpy_bytes n s = take n (s @ replicate n NUL)"

lemma length_strncpy [simp]: "length (strncpy_bytes n s) = n"
  by (simp add: strncpy_bytes_def)

section \<open>Searching\<close>

text \<open>
  \<open>strchr\<close> and \<open>strrchr\<close>, with the string cut at the character found: what precedes it and what
  follows it.
\<close>

definition split_first :: "char \<Rightarrow> string \<Rightarrow> (string \<times> string) option" where
  "split_first c s = (case dropWhile (\<lambda>x. x \<noteq> c) s of
     [] \<Rightarrow> None | _ # t \<Rightarrow> Some (takeWhile (\<lambda>x. x \<noteq> c) s, t))"

definition split_last :: "char \<Rightarrow> string \<Rightarrow> (string \<times> string) option" where
  "split_last c s = (case split_first c (rev s) of
     None \<Rightarrow> None | Some (a, b) \<Rightarrow> Some (rev b, rev a))"

lemma split_first_append [simp]: "c \<notin> set a \<Longrightarrow> split_first c (a @ c # b) = Some (a, b)"
proof -
  assume "c \<notin> set a"
  then have "dropWhile (\<lambda>x. x \<noteq> c) (a @ c # b) = c # b"
    and "takeWhile (\<lambda>x. x \<noteq> c) (a @ c # b) = a"
    by (induction a) auto
  then show ?thesis by (simp add: split_first_def)
qed

lemma split_first_None [simp]: "split_first c s = None \<longleftrightarrow> c \<notin> set s"
proof -
  have "dropWhile (\<lambda>x. x \<noteq> c) s = [] \<longleftrightarrow> c \<notin> set s" by (auto simp: dropWhile_eq_Nil_conv)
  then show ?thesis
    by (cases "dropWhile (\<lambda>x. x \<noteq> c) s") (simp_all add: split_first_def del: dropWhile_eq_Nil_conv)
qed

lemma split_first_Some:
  "split_first c s = Some (a, b) \<longleftrightarrow> s = a @ c # b \<and> c \<notin> set a"
proof
  assume split: "split_first c s = Some (a, b)"
  then obtain d where d: "dropWhile (\<lambda>x. x \<noteq> c) s = d # b" "a = takeWhile (\<lambda>x. x \<noteq> c) s"
    by (auto simp: split_first_def split: list.splits)
  then have "d = c" using hd_dropWhile [of "\<lambda>x. x \<noteq> c" s] by auto
  then show "s = a @ c # b \<and> c \<notin> set a"
    using d takeWhile_dropWhile_id [of "\<lambda>x. x \<noteq> c" s] by (auto dest: set_takeWhileD)
qed auto

lemma split_last_append [simp]: "c \<notin> set b \<Longrightarrow> split_last c (a @ c # b) = Some (a, b)"
  by (simp add: split_last_def)

lemma split_last_None [simp]: "split_last c s = None \<longleftrightarrow> c \<notin> set s"
  using split_first_None [of c "rev s"]
  by (cases "split_first c (rev s)") (auto simp: split_last_def simp del: split_first_None)

lemma split_last_Some:
  "split_last c s = Some (a, b) \<longleftrightarrow> s = a @ c # b \<and> c \<notin> set b"
proof
  assume "split_last c s = Some (a, b)"
  then have "split_first c (rev s) = Some (rev b, rev a)"
    by (auto simp: split_last_def split: option.splits)
  then have "rev s = rev b @ c # rev a \<and> c \<notin> set b" by (simp add: split_first_Some)
  then show "s = a @ c # b \<and> c \<notin> set b"
    by (metis rev_append rev_rev_ident rev.simps(2) append_assoc append_Cons append_Nil)
qed auto

section \<open>Comparing without case\<close>

definition isupper :: "char \<Rightarrow> bool" where
  "isupper c \<longleftrightarrow> CHR ''A'' \<le> c \<and> c \<le> CHR ''Z''"

definition tolower :: "char \<Rightarrow> char" where
  "tolower c = (if isupper c then char_of ((of_char c :: nat) + 32) else c)"

text \<open>\<open>strcasecmp (s, t) == 0\<close> in the C locale.\<close>

definition strcaseeq :: "string \<Rightarrow> string \<Rightarrow> bool" where
  "strcaseeq s t \<longleftrightarrow> map tolower s = map tolower t"

section \<open>Numbers\<close>

definition isdigit :: "char \<Rightarrow> bool" where
  "isdigit c \<longleftrightarrow> CHR ''0'' \<le> c \<and> c \<le> CHR ''9''"

definition digit_val :: "char \<Rightarrow> nat" where
  "digit_val c = of_char c - 48"

definition digit :: "nat \<Rightarrow> char" where
  "digit n = char_of (48 + n)"

fun dec :: "nat \<Rightarrow> string" where
  "dec n = (if n < 10 then [digit n] else dec (n div 10) @ [digit (n mod 10)])"

declare dec.simps [simp del]

definition dec_val :: "string \<Rightarrow> nat" where
  "dec_val s = foldl (\<lambda>a c. a * 10 + digit_val c) 0 s"

abbreviation LONG_MAX :: int where "LONG_MAX \<equiv> 0x7fffffffffffffff"
abbreviation LONG_MIN :: int where "LONG_MIN \<equiv> - LONG_MAX - 1"
abbreviation USHRT_MAX :: int where "USHRT_MAX \<equiv> 65535"

definition isspace :: "char \<Rightarrow> bool" where
  "isspace c \<longleftrightarrow> (c = CHR '' '' \<or> (CHR 0x09 \<le> c \<and> c \<le> CHR 0x0D))"

text \<open>\<open>strtol (s, NULL, 10)\<close>, which stays at the ends of the range of \<open>long\<close> on overflow.\<close>

definition strtol :: "string \<Rightarrow> int" where
  "strtol s =
     (let s = dropWhile isspace s;
          (neg, s) = (case s of c # t \<Rightarrow> if c = CHR ''-'' then (True, t)
             else if c = CHR ''+'' then (False, t) else (False, s) | [] \<Rightarrow> (False, s));
          n = int (dec_val (takeWhile isdigit s));
          v = (if neg then - n else n)
      in max LONG_MIN (min LONG_MAX v))"

text \<open>\<open>"%lu"\<close> of a \<open>long\<close>: the value modulo \<open>2 ^ 64\<close>.\<close>

definition print_lu :: "int \<Rightarrow> string" where
  "print_lu n = dec (nat (n mod 2 ^ 64))"

text \<open>\<open>"%d"\<close> and \<open>"%ld"\<close>.\<close>

definition print_d :: "int \<Rightarrow> string" where
  "print_d n = (if n < 0 then CHR ''-'' # dec (nat (- n)) else dec (nat n))"

lemma of_char_digit: "n < 10 \<Longrightarrow> (of_char (digit n) :: nat) = 48 + n"
  by (simp add: digit_def)

lemma isdigit_iff: "isdigit c \<longleftrightarrow> 48 \<le> (of_char c :: nat) \<and> (of_char c :: nat) \<le> 57"
  by (simp add: isdigit_def less_eq_char_def)

lemma isdigit_digit [simp]: "n < 10 \<Longrightarrow> isdigit (digit n)"
  by (simp add: isdigit_iff of_char_digit)

lemma digit_val_digit [simp]: "n < 10 \<Longrightarrow> digit_val (digit n) = n"
  by (simp add: digit_val_def of_char_digit)

lemma dec_val_snoc: "dec_val (s @ [c]) = dec_val s * 10 + digit_val c"
  by (simp add: dec_val_def)

lemma dec_digits [simp]: "list_all isdigit (dec n)"
  by (induction n rule: dec.induct) (subst dec.simps, auto)

lemma dec_nonempty [simp]: "dec n \<noteq> []"
  by (subst dec.simps) auto

lemma dec_val_dec [simp]: "dec_val (dec n) = n"
proof (induction n rule: dec.induct)
  case (1 n)
  show ?case
  proof (cases "n < 10")
    case True
    then show ?thesis by (subst dec.simps) (simp add: dec_val_def)
  next
    case False
    then show ?thesis using 1 by (subst dec.simps) (simp add: dec_val_snoc)
  qed
qed

lemma digit_not_special:
  "isdigit c \<Longrightarrow> \<not> isspace c \<and> c \<noteq> CHR ''-'' \<and> c \<noteq> CHR ''+'' \<and> c \<noteq> NUL \<and> c \<noteq> CHR ''/'' \<and> c \<noteq> CHR '':''"
  by (auto simp: isdigit_def isspace_def less_eq_char_def)

lemma strtol_digits:
  assumes "list_all isdigit s"
  shows "strtol s = min LONG_MAX (int (dec_val s))"
proof -
  have "dropWhile isspace s = s" and "takeWhile isdigit s = s"
    using assms digit_not_special
    by (cases s; auto simp: list_all_iff takeWhile_eq_all_conv)+
  moreover have "\<And>c t. s = c # t \<Longrightarrow> c \<noteq> CHR ''-'' \<and> c \<noteq> CHR ''+''"
    using assms digit_not_special by auto
  ultimately show ?thesis
    by (cases s) (auto simp: strtol_def Let_def)
qed

lemma strtol_dec: "strtol (dec n) = min LONG_MAX (int n)"
  by (simp add: strtol_digits)

section \<open>Bytes\<close>

text \<open>A 16-bit value in host order (little endian) and in network order (big endian).\<close>

definition le16 :: "nat \<Rightarrow> string" where
  "le16 n = [char_of (n mod 256), char_of (n div 256 mod 256)]"

definition be16 :: "nat \<Rightarrow> string" where
  "be16 n = [char_of (n div 256 mod 256), char_of (n mod 256)]"

definition rd_le16 :: "string \<Rightarrow> nat" where
  "rd_le16 s = of_char (s ! 0) + 256 * of_char (s ! 1)"

definition rd_be16 :: "string \<Rightarrow> nat" where
  "rd_be16 s = 256 * of_char (s ! 0) + of_char (s ! 1)"

lemma length_le16 [simp]: "length (le16 n) = 2" and length_be16 [simp]: "length (be16 n) = 2"
  by (simp_all add: le16_def be16_def)

lemma rd_le16 [simp]: "n < 65536 \<Longrightarrow> rd_le16 (le16 n @ s) = n"
  and rd_be16 [simp]: "n < 65536 \<Longrightarrow> rd_be16 (be16 n @ s) = n"
  by (simp_all add: rd_le16_def rd_be16_def le16_def be16_def)

end
