(* ===== verification/Xtransint.thy ===== *)
theory Xtransint
  imports OS CStrings
begin

text \<open>
  The data of the X transport library (\<open>include/X11/Xtrans/Xtransint.h\<close> and the tables of
  \<open>Xtranssock.c\<close> and \<open>Xtrans.c\<close>): build options, the transports with their names, flags and
  aliases, connections, and the global state. The build is the one for Linux with \<open>TCPCONN\<close>,
  \<open>UNIXCONN\<close>, \<open>TRANS_CLIENT\<close>, \<open>TRANS_SERVER\<close> and \<open>TRANS_REOPEN\<close> defined and \<open>LOCALCONN\<close> not.
\<close>

section \<open>Build options\<close>

datatype client_t = X11_t | XIM_t | FS_t | FONT_t | ICE_t

record config =
  cfg_t :: client_t
  cfg_ipv6 :: bool
  cfg_strcasecmp :: bool
  cfg_poll :: bool
  cfg_utsname :: bool
  cfg_fail_hard :: bool
  cfg_fchown :: bool
  cfg_sticky :: bool
  cfg_send_fds :: bool
  cfg_systemd :: bool

section \<open>Constants\<close>

abbreviation (input) AF_UNSPEC :: int where "AF_UNSPEC \<equiv> 0"
abbreviation (input) AF_UNIX :: int where "AF_UNIX \<equiv> 1"
abbreviation (input) AF_INET :: int where "AF_INET \<equiv> 2"
abbreviation (input) AF_INET6 :: int where "AF_INET6 \<equiv> 10"
abbreviation (input) SOCK_STREAM :: int where "SOCK_STREAM \<equiv> 1"

abbreviation (input) ENOENT :: int where "ENOENT \<equiv> 2"
abbreviation (input) EINTR :: int where "EINTR \<equiv> 4"
abbreviation (input) EWOULDBLOCK :: int where "EWOULDBLOCK \<equiv> 11"
abbreviation (input) EINVAL :: int where "EINVAL \<equiv> 22"
abbreviation (input) EPROTOTYPE :: int where "EPROTOTYPE \<equiv> 91"
abbreviation (input) EAFNOSUPPORT :: int where "EAFNOSUPPORT \<equiv> 97"
abbreviation (input) EADDRINUSE :: int where "EADDRINUSE \<equiv> 98"
abbreviation (input) EADDRNOTAVAIL :: int where "EADDRNOTAVAIL \<equiv> 99"
abbreviation (input) ENETUNREACH :: int where "ENETUNREACH \<equiv> 101"
abbreviation (input) ETIMEDOUT :: int where "ETIMEDOUT \<equiv> 110"
abbreviation (input) ECONNREFUSED :: int where "ECONNREFUSED \<equiv> 111"
abbreviation (input) EHOSTDOWN :: int where "EHOSTDOWN \<equiv> 112"
abbreviation (input) EINPROGRESS :: int where "EINPROGRESS \<equiv> 115"

abbreviation (input) TRANS_CONNECT_FAILED :: int where "TRANS_CONNECT_FAILED \<equiv> -1"
abbreviation (input) TRANS_TRY_CONNECT_AGAIN :: int where "TRANS_TRY_CONNECT_AGAIN \<equiv> -2"
abbreviation (input) TRANS_IN_PROGRESS :: int where "TRANS_IN_PROGRESS \<equiv> -3"
abbreviation (input) TRANS_CREATE_LISTENER_FAILED :: int where "TRANS_CREATE_LISTENER_FAILED \<equiv> -1"
abbreviation (input) TRANS_ADDR_IN_USE :: int where "TRANS_ADDR_IN_USE \<equiv> -2"
abbreviation (input) TRANS_ACCEPT_BAD_MALLOC :: int where "TRANS_ACCEPT_BAD_MALLOC \<equiv> -1"
abbreviation (input) TRANS_ACCEPT_FAILED :: int where "TRANS_ACCEPT_FAILED \<equiv> -2"
abbreviation (input) TRANS_ACCEPT_MISC_ERROR :: int where "TRANS_ACCEPT_MISC_ERROR \<equiv> -3"
abbreviation (input) TRANS_RESET_NOOP :: int where "TRANS_RESET_NOOP \<equiv> 1"
abbreviation (input) TRANS_RESET_NEW_FD :: int where "TRANS_RESET_NEW_FD \<equiv> 2"
abbreviation (input) TRANS_RESET_FAILURE :: int where "TRANS_RESET_FAILURE \<equiv> 3"

abbreviation TRANS_ALIAS :: u32 where "TRANS_ALIAS \<equiv> 1"
abbreviation TRANS_LOCAL :: u32 where "TRANS_LOCAL \<equiv> 2"
abbreviation TRANS_DISABLED :: u32 where "TRANS_DISABLED \<equiv> 4"
abbreviation TRANS_NOLISTEN :: u32 where "TRANS_NOLISTEN \<equiv> 8"
abbreviation TRANS_NOUNLINK :: u32 where "TRANS_NOUNLINK \<equiv> 16"
abbreviation TRANS_ABSTRACT :: u32 where "TRANS_ABSTRACT \<equiv> 32"
abbreviation TRANS_RECEIVED :: u32 where "TRANS_RECEIVED \<equiv> 128"
abbreviation (input) ADDR_IN_USE_ALLOWED :: u32 where "ADDR_IN_USE_ALLOWED \<equiv> 1"

unbundle bit_operations_syntax

text \<open>\<open>if (flags & mask)\<close>.\<close>

definition has :: "u32 \<Rightarrow> u32 \<Rightarrow> bool" where
  "has flags m \<longleftrightarrow> flags AND m \<noteq> 0"

abbreviation X_TCP_PORT :: int where "X_TCP_PORT \<equiv> 6000"

section \<open>Transports\<close>

text \<open>
  The five \<open>Xtransport\<close> objects. Their function pointers are fixed, so dispatch is by case
  distinction; only their flags change at run time and are part of the global state.
\<close>

datatype transp = SocketTCPFuncs | SocketINETFuncs | SocketINET6Funcs | SocketLocalFuncs
  | SocketUNIXFuncs

fun TransName :: "transp \<Rightarrow> string" where
  "TransName SocketTCPFuncs = ''tcp''"
| "TransName SocketINETFuncs = ''inet''"
| "TransName SocketINET6Funcs = ''inet6''"
| "TransName SocketLocalFuncs = ''local''"
| "TransName SocketUNIXFuncs = ''unix''"

fun initial_flags :: "transp \<Rightarrow> u32" where
  "initial_flags SocketTCPFuncs = TRANS_ALIAS"
| "initial_flags SocketLocalFuncs = TRANS_ABSTRACT"
| "initial_flags _ = 0"

text \<open>The \<open>nolisten\<close> member, the empty list for a null pointer.\<close>

fun nolisten :: "config \<Rightarrow> transp \<Rightarrow> string list" where
  "nolisten cfg SocketTCPFuncs = ''inet'' # (if cfg_ipv6 cfg then [''inet6''] else [])"
| "nolisten cfg SocketUNIXFuncs = [''local'']"
| "nolisten cfg _ = []"

definition Xtransports :: "config \<Rightarrow> (transp \<times> int) list" where
  "Xtransports cfg = [(SocketTCPFuncs, 7)] @
     (if cfg_ipv6 cfg then [(SocketINET6Funcs, 14)] else []) @
     [(SocketINETFuncs, 6), (SocketLocalFuncs, 5), (SocketUNIXFuncs, 4)]"

abbreviation (input) TRANS_SOCKET_UNIX_INDEX :: int where "TRANS_SOCKET_UNIX_INDEX \<equiv> 4"
abbreviation (input) TRANS_SOCKET_INET_INDEX :: int where "TRANS_SOCKET_INET_INDEX \<equiv> 6"
abbreviation (input) TRANS_SOCKET_INET6_INDEX :: int where "TRANS_SOCKET_INET6_INDEX \<equiv> 14"

definition NUMTRANS :: "config \<Rightarrow> nat" where
  "NUMTRANS cfg = length (Xtransports cfg)"

record Sockettrans2dev =
  transname :: string
  td_family :: int
  devcotsname :: int
  devcltsname :: int
  td_protocol :: int

abbreviation dev :: "string \<Rightarrow> int \<Rightarrow> Sockettrans2dev" where
  "dev n f \<equiv> \<lparr>transname = n, td_family = f, devcotsname = SOCK_STREAM, devcltsname = 2,
     td_protocol = 0\<rparr>"

definition Sockettrans2devtab :: "config \<Rightarrow> Sockettrans2dev list" where
  "Sockettrans2devtab cfg =
     (if cfg_ipv6 cfg
      then [dev ''inet'' AF_INET, dev ''tcp'' AF_INET6, dev ''tcp'' AF_INET, dev ''inet6'' AF_INET6]
      else [dev ''inet'' AF_INET, dev ''tcp'' AF_INET]) @
     [dev ''unix'' AF_UNIX, dev ''local'' AF_UNIX]"

definition NUMSOCKETFAMILIES :: "config \<Rightarrow> nat" where
  "NUMSOCKETFAMILIES cfg = length (Sockettrans2devtab cfg)"

definition UNIX_PATH :: "config \<Rightarrow> string" where
  "UNIX_PATH cfg = (case cfg_t cfg of X11_t \<Rightarrow> ''/tmp/.X11-unix/X'' | XIM_t \<Rightarrow> ''/tmp/.XIM-unix/XIM''
     | FS_t \<Rightarrow> ''/tmp/.font-unix/fs'' | FONT_t \<Rightarrow> ''/tmp/.font-unix/fs'' | ICE_t \<Rightarrow> ''/tmp/.ICE-unix/'')"

definition UNIX_DIR :: "config \<Rightarrow> string" where
  "UNIX_DIR cfg = (case cfg_t cfg of X11_t \<Rightarrow> ''/tmp/.X11-unix'' | XIM_t \<Rightarrow> ''/tmp/.XIM-unix''
     | FS_t \<Rightarrow> ''/tmp/.font-unix'' | FONT_t \<Rightarrow> ''/tmp/.font-unix'' | ICE_t \<Rightarrow> ''/tmp/.ICE-unix'')"

section \<open>Connections\<close>

text \<open>A queued descriptor: the heap block of the list node, the descriptor and \<open>do_close\<close>.\<close>

record connfd =
  cf_id :: nat
  cf_fd :: int
  cf_do_close :: bool

record conn =
  c_id :: nat
  transptr :: "transp option"
  c_index :: nat
  c_flags :: u32
  c_fd :: int
  c_port :: "string cptr"
  c_family :: int
  c_addr :: "string cptr"
  c_addrlen :: int
  c_peeraddr :: "string cptr"
  c_peeraddrlen :: int
  recv_fds :: "connfd list"
  send_fds :: "connfd list"

text \<open>\<open>calloc (1, sizeof (struct _XtransConnInfo))\<close>, of 104 bytes.\<close>

definition zero_conn :: "nat \<Rightarrow> conn" where
  "zero_conn i = \<lparr>c_id = i, transptr = None, c_index = 0, c_flags = 0, c_fd = 0, c_port = Null,
     c_family = 0, c_addr = Null, c_addrlen = 0, c_peeraddr = Null, c_peeraddrlen = 0,
     recv_fds = [], send_fds = []\<rparr>"

text \<open>The heap blocks that belong to a connection.\<close>

definition conn_blocks :: "conn \<Rightarrow> nat list" where
  "conn_blocks c = blocks (c_addr c) @ blocks (c_peeraddr c) @ blocks (c_port c) @ [c_id c]"

text \<open>The cached result of the last name lookup of \<open>SocketINETConnect\<close>.\<close>

record addrlist =
  al_id :: nat
  al_addr :: "addrinfo list"
  al_first :: "(nat \<times> addrinfo list) option"
  al_port :: string
  al_host :: string

section \<open>Global state\<close>

record xworld = os +
  g_flags :: "transp \<Rightarrow> u32"
  g_addrlist :: "addrlist option"

type_synonym 'a xprog = "(xworld, 'a) state"

definition tflags :: "transp \<Rightarrow> u32 xprog" where
  "tflags t = gets (\<lambda>w. g_flags w t)"

definition set_tflags :: "transp \<Rightarrow> u32 \<Rightarrow> unit xprog" where
  "set_tflags t f = modify (\<lambda>w. w\<lparr>g_flags := (g_flags w)(t := f)\<rparr>)"

definition calloc_conn :: "conn option xprog" where
  "calloc_conn = do { b \<leftarrow> malloc 104; return (map_option zero_conn b) }"

text \<open>A member of the transport of a connection; a null \<open>transptr\<close> would be dereferenced.\<close>

definition trans_of :: "conn \<Rightarrow> transp xprog" where
  "trans_of c = (case transptr c of Some t \<Rightarrow> return t
     | None \<Rightarrow> do { fault; return SocketTCPFuncs })"

lemma wp_tflags [simp]: "wp (tflags t) Q w = Q (g_flags w t) w"
  by (simp add: tflags_def)

lemma wp_set_tflags [simp]:
  "wp (set_tflags t f) Q w = Q () (w\<lparr>g_flags := (g_flags w)(t := f)\<rparr>)"
  by (simp add: set_tflags_def)

lemma wp_trans_of [simp]: "transptr c = Some t \<Longrightarrow> wp (trans_of c) Q w = Q t w"
  by (simp add: trans_of_def)

lemma wp_calloc_conn [wp_intro]:
  assumes "\<And>l e. Q None (w\<lparr>w_log := l, w_errno := e\<rparr>)"
    and "\<And>l e. Q (Some (zero_conn (w_next w))) (w\<lparr>w_log := l, w_errno := e,
      w_heap := w_next w # w_heap w, w_next := Suc (w_next w)\<rparr>)"
  shows "wp calloc_conn Q w"
  unfolding calloc_conn_def by (simp, rule wp_malloc) (use assms in auto)

lemma zero_conn_simps [simp]:
  "c_id (zero_conn i) = i" "c_addr (zero_conn i) = Null" "c_peeraddr (zero_conn i) = Null"
  "c_port (zero_conn i) = Null" "c_fd (zero_conn i) = 0" "c_flags (zero_conn i) = 0"
  "transptr (zero_conn i) = None" "recv_fds (zero_conn i) = []" "send_fds (zero_conn i) = []"
  by (simp_all add: zero_conn_def)

text \<open>A flag is a bit of its word; setting and clearing others leaves it alone.\<close>

lemma and_exp_eq_0: "f AND 2 ^ k = 0 \<longleftrightarrow> \<not> bit f k" if "k < 32" for f :: u32
  using that by (auto simp: and_exp_eq_0_iff_not_bit)

lemma has_bits:
  "has f 1 \<longleftrightarrow> bit f 0" "has f 2 \<longleftrightarrow> bit f 1" "has f 4 \<longleftrightarrow> bit f 2" "has f 8 \<longleftrightarrow> bit f 3"
  "has f 16 \<longleftrightarrow> bit f 4" "has f 32 \<longleftrightarrow> bit f 5" "has f 128 \<longleftrightarrow> bit f 7"
  using and_exp_eq_0 [of 0 f] and_exp_eq_0 [of 1 f] and_exp_eq_0 [of 2 f] and_exp_eq_0 [of 3 f]
    and_exp_eq_0 [of 4 f] and_exp_eq_0 [of 5 f] and_exp_eq_0 [of 7 f]
  by (simp_all add: has_def)

lemma has_set_clear [simp]:
  "has (f OR 8) 8" "\<not> has (f AND NOT 8) 8" "has (f OR 128) 128"
  "has (f OR 8) 1 = has f 1" "has (f OR 8) 128 = has f 128" "has (f OR 8) 2 = has f 2"
  "has (f AND NOT 8) 1 = has f 1" "has (f AND NOT 8) 128 = has f 128" "has (f AND NOT 8) 2 = has f 2"
  "has (f OR 128) 1 = has f 1" "has (f OR 128) 8 = has f 8" "has (f OR 128) 2 = has f 2"
  "\<not> has (f AND NOT 32) 32" "has (f AND NOT 32) 1 = has f 1" "has (f AND NOT 32) 8 = has f 8"
  by (simp_all add: has_bits bit_simps)

lemma has_initial [simp]: "\<not> has 0 m"
  by (simp add: has_def)

section \<open>What a step leaves alone\<close>

text \<open>
  \<open>quiet\<close>: nothing but the log and \<open>errno\<close> changed (and possibly the fault flag); \<open>alloc\<close>: the
  same, except that one more block is live.
\<close>

definition rest_same :: "xworld \<Rightarrow> xworld \<Rightarrow> bool" where
  "rest_same w w' \<longleftrightarrow> w_umask w' = w_umask w \<and> w_badfd w' = w_badfd w \<and>
     g_flags w' = g_flags w \<and> g_addrlist w' = g_addrlist w \<and> w_env w' = w_env w"

definition quiet :: "xworld \<Rightarrow> xworld \<Rightarrow> bool" where
  "quiet w w' \<longleftrightarrow> rest_same w w' \<and> w_fds w' = w_fds w \<and> w_heap w' = w_heap w \<and> w_next w' = w_next w"

definition alloc :: "xworld \<Rightarrow> xworld \<Rightarrow> bool" where
  "alloc w w' \<longleftrightarrow> rest_same w w' \<and> w_fds w' = w_fds w \<and> w_heap w' = w_next w # w_heap w \<and>
     w_next w' = Suc (w_next w)"

lemmas frame_defs = quiet_def alloc_def rest_same_def

lemma rest_same_refl [simp]: "rest_same w w"
  by (simp add: rest_same_def)

lemma rest_same_trans: "rest_same u v \<Longrightarrow> rest_same v w \<Longrightarrow> rest_same u w"
  by (simp add: rest_same_def)

section \<open>A sample world\<close>

text \<open>
  A build and a process with the three standard descriptors, used where a statement is
  evaluated: the environment gives the answers of a list in turn and then succeeds.
\<close>

definition resp_of :: "int \<Rightarrow> int \<Rightarrow> string \<Rightarrow> resp" where
  "resp_of ret err bytes = \<lparr>r_ret = ret, r_errno = err, r_data = bytes, r_val = 0,
     r_stat = \<lparr>st_mode = 0x43ff, st_uid = 0, st_dev = 1, st_ino = 1\<rparr>, r_addrs = [], r_cmsgs = []\<rparr>"

definition answers :: "resp list \<Rightarrow> (os_call \<times> resp) list \<Rightarrow> os_call \<Rightarrow> resp" where
  "answers rs log c = (if length log < length rs then rs ! length log else resp_of 0 0 ''host'')"

definition sample_config :: config where
  "sample_config = \<lparr>cfg_t = X11_t, cfg_ipv6 = True, cfg_strcasecmp = True, cfg_poll = True,
     cfg_utsname = False, cfg_fail_hard = True, cfg_fchown = True, cfg_sticky = True,
     cfg_send_fds = True, cfg_systemd = False\<rparr>"

definition sample_world :: "resp list \<Rightarrow> xworld" where
  "sample_world rs = \<lparr>w_env = answers rs, w_log = [], w_errno = 0, w_fds = [0, 1, 2], w_heap = [],
     w_next = 0, w_umask = 18, w_fault = False, w_badfd = False, g_flags = initial_flags,
     g_addrlist = None\<rparr>"

lemma sample_config_simps [simp]:
  "cfg_t sample_config = X11_t" "cfg_ipv6 sample_config" "cfg_strcasecmp sample_config"
  "cfg_poll sample_config" "\<not> cfg_utsname sample_config" "cfg_fail_hard sample_config"
  "cfg_fchown sample_config" "cfg_sticky sample_config" "cfg_send_fds sample_config"
  "\<not> cfg_systemd sample_config"
  by (simp_all add: sample_config_def)

lemma sample_world_simps [simp]:
  "w_log (sample_world rs) = []" "w_fds (sample_world rs) = [0, 1, 2]"
  "w_heap (sample_world rs) = []" "w_next (sample_world rs) = 0" "w_umask (sample_world rs) = 18"
  "\<not> w_fault (sample_world rs)" "\<not> w_badfd (sample_world rs)"
  "g_flags (sample_world rs) = initial_flags" "g_addrlist (sample_world rs) = None"
  "w_env (sample_world rs) = answers rs"
  by (simp_all add: sample_world_def)

lemma os_wf_sample [simp]: "os_wf (sample_world rs)"
  by (simp add: os_wf_def)

end
