(* ===== verification/FdQueue.thy ===== *)
theory FdQueue
  imports Xtransint
begin

text \<open>
  The queues of file descriptors of a connection (\<open>struct _XtransConnFd\<close> and \<open>appendFd\<close>,
  \<open>removeFd\<close>, \<open>discardFd\<close>, \<open>cleanupFds\<close>, \<open>nFd\<close> in \<open>Xtranssock.c\<close>), twice: as lists of nodes,
  which is what the rest of the model uses, and as the linked structure that the C code walks
  with a pointer to a pointer. The linked version is shown to implement the interface of a
  queue, stated as a locale.
\<close>

section \<open>Queues as lists\<close>

definition appendFd :: "connfd list \<Rightarrow> int \<Rightarrow> bool \<Rightarrow> ('z, connfd list) prog" where
  "appendFd fds fd do_close = do {
     b \<leftarrow> malloc 16;
     case b of
       None \<Rightarrow> do { _ \<leftarrow> c_close fd; return fds }
     | Some i \<Rightarrow> return (fds @ [\<lparr>cf_id = i, cf_fd = fd, cf_do_close = do_close\<rparr>])
   }"

definition removeFd :: "connfd list \<Rightarrow> ('z, int \<times> connfd list) prog" where
  "removeFd fds = (case fds of
     cf # rest \<Rightarrow> do { free_block (cf_id cf); return (cf_fd cf, rest) }
   | [] \<Rightarrow> return (-1, []))"

text \<open>\<open>until\<close> (\<open>upto\<close> in the source) is the block of the first node to keep, \<open>None\<close> for a null pointer.\<close>

fun discardFd :: "connfd list \<Rightarrow> nat option \<Rightarrow> bool \<Rightarrow> ('z, connfd list) prog" where
  "discardFd [] until do_close = (if until = None then return [] else do { fault; return [] })"
| "discardFd (cf # rest) until do_close =
     (if until = Some (cf_id cf) then return (cf # rest)
      else do {
        do_if (do_close \<or> cf_do_close cf) (do { _ \<leftarrow> c_close (cf_fd cf); return () });
        free_block (cf_id cf);
        discardFd rest until do_close
      })"

definition cleanupFds :: "conn \<Rightarrow> ('z, conn) prog" where
  "cleanupFds ciptr = do {
     s \<leftarrow> discardFd (send_fds ciptr) None False;
     r \<leftarrow> discardFd (recv_fds ciptr) None True;
     return (ciptr\<lparr>send_fds := s, recv_fds := r\<rparr>)
   }"

definition nFd :: "connfd list \<Rightarrow> nat" where
  "nFd fds = length fds"

section \<open>Queues as linked nodes\<close>

record fdnode =
  n_next :: "nat option"
  n_fd :: int
  n_do_close :: bool

record fdheap =
  fh_head :: "nat option"
  fh_node :: "nat \<Rightarrow> fdnode option"

text \<open>What a \<open>struct _XtransConnFd **prev\<close> can point to: the head, or the link of a node.\<close>

datatype slot = Head | Link nat

fun rd_slot :: "fdheap \<Rightarrow> slot \<Rightarrow> nat option" where
  "rd_slot h Head = fh_head h"
| "rd_slot h (Link i) = (case fh_node h i of Some n \<Rightarrow> n_next n | None \<Rightarrow> None)"

fun wr_slot :: "fdheap \<Rightarrow> slot \<Rightarrow> nat option \<Rightarrow> fdheap" where
  "wr_slot h Head p = h\<lparr>fh_head := p\<rparr>"
| "wr_slot h (Link i) p = h\<lparr>fh_node := (fh_node h)(i := map_option (n_next_update (\<lambda>_. p)) (fh_node h i))\<rparr>"

text \<open>\<open>for (; (cf = *prev); prev = &(cf->next));\<close>\<close>

partial_function (option) seek_end :: "fdheap \<Rightarrow> slot \<Rightarrow> slot option" where
  "seek_end h prev = (case rd_slot h prev of None \<Rightarrow> Some prev | Some cf \<Rightarrow> seek_end h (Link cf))"

definition append_node :: "fdheap \<Rightarrow> connfd \<Rightarrow> fdheap option" where
  "append_node h x =
     (let h = h\<lparr>fh_node := (fh_node h)(cf_id x \<mapsto>
                \<lparr>n_next = None, n_fd = cf_fd x, n_do_close = cf_do_close x\<rparr>)\<rparr>
      in map_option (\<lambda>prev. wr_slot h prev (Some (cf_id x))) (seek_end h Head))"

definition remove_node :: "fdheap \<Rightarrow> (connfd \<times> fdheap) option" where
  "remove_node h = (case fh_head h of None \<Rightarrow> None | Some cf \<Rightarrow>
     (case fh_node h cf of None \<Rightarrow> None | Some n \<Rightarrow>
        Some (\<lparr>cf_id = cf, cf_fd = n_fd n, cf_do_close = n_do_close n\<rparr>,
              h\<lparr>fh_head := n_next n, fh_node := (fh_node h)(cf := None)\<rparr>)))"

partial_function (option) walk :: "fdheap \<Rightarrow> nat option \<Rightarrow> connfd list option" where
  "walk h p = (case p of None \<Rightarrow> Some [] | Some cf \<Rightarrow>
     (case fh_node h cf of None \<Rightarrow> None | Some n \<Rightarrow>
        do { xs \<leftarrow> walk h (n_next n);
             Some (\<lparr>cf_id = cf, cf_fd = n_fd n, cf_do_close = n_do_close n\<rparr> # xs) }))"

text \<open>\<open>for (cf = *prev; cf; cf = cf->next) n++;\<close>\<close>

partial_function (option) count_nodes :: "fdheap \<Rightarrow> nat option \<Rightarrow> nat \<Rightarrow> nat option" where
  "count_nodes h p n = (case p of None \<Rightarrow> Some n | Some cf \<Rightarrow>
     (case fh_node h cf of None \<Rightarrow> None | Some d \<Rightarrow> count_nodes h (n_next d) (Suc n)))"

text \<open>
  \<open>for (cf = *prev; cf != upto; cf = next)\<close>: the nodes are freed, and the descriptors that are
  closed are collected in order.
\<close>

partial_function (option) discard_nodes ::
    "fdheap \<Rightarrow> nat option \<Rightarrow> nat option \<Rightarrow> bool \<Rightarrow> int list \<Rightarrow> (fdheap \<times> int list) option" where
  "discard_nodes h cf until do_close closed =
     (if cf = until then Some (h\<lparr>fh_head := until\<rparr>, closed)
      else case cf of None \<Rightarrow> None | Some i \<Rightarrow>
        (case fh_node h i of None \<Rightarrow> None | Some n \<Rightarrow>
           discard_nodes (h\<lparr>fh_node := (fh_node h)(i := None)\<rparr>) (n_next n) until do_close
             (closed @ (if do_close \<or> n_do_close n then [n_fd n] else []))))"

section \<open>Which list a heap holds\<close>

fun chain :: "fdheap \<Rightarrow> nat option \<Rightarrow> connfd list \<Rightarrow> bool" where
  "chain h p [] \<longleftrightarrow> p = None"
| "chain h p (x # xs) \<longleftrightarrow> p = Some (cf_id x) \<and> (\<exists>nx. fh_node h (cf_id x) =
     Some \<lparr>n_next = nx, n_fd = cf_fd x, n_do_close = cf_do_close x\<rparr> \<and> chain h nx xs)"

lemma chain_frame:
  "(\<forall>x \<in> set xs. fh_node h' (cf_id x) = fh_node h (cf_id x)) \<Longrightarrow> chain h' p xs = chain h p xs"
  by (induction xs arbitrary: p) auto

lemma chain_walk: "chain h p xs \<Longrightarrow> walk h p = Some xs"
  by (induction xs arbitrary: p) (subst walk.simps, auto)+

lemma chain_count: "chain h p xs \<Longrightarrow> count_nodes h p n = Some (n + length xs)"
  by (induction xs arbitrary: p n) (subst count_nodes.simps, auto)+

text \<open>The last link of a non-empty chain, and that the search for it ends there.\<close>

lemma chain_seek:
  "chain h (rd_slot h s) xs \<Longrightarrow>
     seek_end h s = Some (if xs = [] then s else Link (cf_id (last xs)))"
proof (induction xs arbitrary: s)
  case Nil
  then show ?case by (subst seek_end.simps) simp
next
  case (Cons x xs)
  then have "chain h (rd_slot h (Link (cf_id x))) xs" by auto
  from Cons.IH [OF this] Cons.prems show ?case by (subst seek_end.simps) auto
qed

lemma chain_extend:
  assumes "chain h p (xs @ [l])" and "distinct (map cf_id (xs @ [l]))"
    and "cf_id x \<notin> cf_id ` set (xs @ [l])"
    and "fh_node h (cf_id x) = Some \<lparr>n_next = None, n_fd = cf_fd x, n_do_close = cf_do_close x\<rparr>"
  shows "chain (wr_slot h (Link (cf_id l)) (Some (cf_id x))) p (xs @ [l, x])"
  using assms
proof (induction xs arbitrary: p)
  case Nil
  then show ?case by auto
next
  case (Cons y ys)
  then obtain nx where nx: "p = Some (cf_id y)"
    "fh_node h (cf_id y) = Some \<lparr>n_next = nx, n_fd = cf_fd y, n_do_close = cf_do_close y\<rparr>"
    "chain h nx (ys @ [l])"
    by auto
  have "chain (wr_slot h (Link (cf_id l)) (Some (cf_id x))) nx (ys @ [l, x])"
    by (rule Cons.IH) (use Cons.prems nx in auto)
  with nx Cons.prems show ?case by auto
qed

definition queue_inv :: "fdheap \<Rightarrow> bool" where
  "queue_inv h \<longleftrightarrow> (\<exists>xs. chain h (fh_head h) xs \<and> distinct (map cf_id xs))"

definition queue_list :: "fdheap \<Rightarrow> connfd list" where
  "queue_list h = (case walk h (fh_head h) of Some xs \<Rightarrow> xs | None \<Rightarrow> [])"

lemma queue_list_chain: "chain h (fh_head h) xs \<Longrightarrow> queue_list h = xs"
  by (simp add: queue_list_def chain_walk)

lemma append_node_chain:
  assumes "chain h (fh_head h) xs" and "distinct (map cf_id xs)" and "cf_id x \<notin> cf_id ` set xs"
  shows "\<exists>h'. append_node h x = Some h' \<and> chain h' (fh_head h') (xs @ [x])"
proof -
  define g where "g = h\<lparr>fh_node := (fh_node h)(cf_id x \<mapsto>
      \<lparr>n_next = None, n_fd = cf_fd x, n_do_close = cf_do_close x\<rparr>)\<rparr>"
  have "chain g (fh_head h) xs"
    using assms(1,3) by (subst chain_frame [of xs g h]) (auto simp: g_def image_iff)
  then have c: "chain g (rd_slot g Head) xs" by (simp add: g_def)
  have app: "append_node h x = map_option (\<lambda>prev. wr_slot g prev (Some (cf_id x))) (seek_end g Head)"
    by (simp add: append_node_def g_def Let_def)
  show ?thesis
  proof (cases xs rule: rev_cases)
    case Nil
    then show ?thesis using chain_seek [OF c] app by (auto simp: g_def)
  next
    case (snoc ys l)
    with c have "chain g (fh_head g) (ys @ [l])" by simp
    then have "chain (wr_slot g (Link (cf_id l)) (Some (cf_id x))) (fh_head g) (ys @ [l, x])"
      by (rule chain_extend) (use assms snoc in \<open>auto simp: g_def\<close>)
    then show ?thesis using chain_seek [OF c] app snoc by simp
  qed
qed

lemma remove_node_chain:
  assumes "chain h (fh_head h) (x # xs)" and "distinct (map cf_id (x # xs))"
  shows "\<exists>h'. remove_node h = Some (x, h') \<and> chain h' (fh_head h') xs"
proof -
  from assms(1) obtain nx where nx: "fh_head h = Some (cf_id x)"
    "fh_node h (cf_id x) = Some \<lparr>n_next = nx, n_fd = cf_fd x, n_do_close = cf_do_close x\<rparr>"
    "chain h nx xs"
    by auto
  let ?h = "h\<lparr>fh_head := nx, fh_node := (fh_node h)(cf_id x := None)\<rparr>"
  have "chain ?h nx xs"
    using assms(2) nx(3) by (subst chain_frame [of xs ?h h]) (auto simp: image_iff)
  with nx show ?thesis by (simp add: remove_node_def)
qed

lemma discard_nodes_chain:
  assumes "chain h p (xs @ ys)" and "distinct (map cf_id (xs @ ys))"
    and "until = (if ys = [] then None else Some (cf_id (hd ys)))"
  shows "\<exists>h'. discard_nodes h p until dc closed
      = Some (h', closed @ map cf_fd (filter (\<lambda>x. dc \<or> cf_do_close x) xs)) \<and>
    fh_head h' = until \<and> chain h' until ys \<and>
    (\<forall>i. fh_node h i = None \<or> i \<in> cf_id ` set xs \<longrightarrow> fh_node h' i = None)"
  using assms
proof (induction xs arbitrary: h p closed)
  case Nil
  have "p = until" using Nil.prems by (cases ys) auto
  moreover have "chain (h\<lparr>fh_head := until\<rparr>) p ys"
    using Nil.prems(1) by (subst chain_frame [of ys _ h]) auto
  ultimately show ?case by (subst discard_nodes.simps) simp
next
  case (Cons x xs)
  then obtain nx where nx: "p = Some (cf_id x)"
    "fh_node h (cf_id x) = Some \<lparr>n_next = nx, n_fd = cf_fd x, n_do_close = cf_do_close x\<rparr>"
    "chain h nx (xs @ ys)"
    by auto
  let ?h = "h\<lparr>fh_node := (fh_node h)(cf_id x := None)\<rparr>"
  have "p \<noteq> until" using Cons.prems(2,3) nx(1) by (cases ys) auto
  moreover have "chain ?h nx (xs @ ys)"
    using Cons.prems(2) nx(3) by (subst chain_frame [of _ ?h h]) (auto simp: image_iff)
  ultimately show ?case
    using Cons.IH [of ?h nx "closed @ (if dc \<or> cf_do_close x then [cf_fd x] else [])"]
      Cons.prems(2,3) nx
    by (subst discard_nodes.simps) auto
qed

section \<open>The interface of a queue\<close>

locale fd_queue =
  fixes append :: "'q \<Rightarrow> connfd \<Rightarrow> 'q option"
    and remove :: "'q \<Rightarrow> (connfd \<times> 'q) option"
    and count :: "'q \<Rightarrow> nat option"
    and contents :: "'q \<Rightarrow> connfd list"
    and inv :: "'q \<Rightarrow> bool"
  assumes append_ok: "inv q \<Longrightarrow> cf_id x \<notin> cf_id ` set (contents q) \<Longrightarrow>
      \<exists>q'. append q x = Some q' \<and> inv q' \<and> contents q' = contents q @ [x]"
    and remove_ok: "inv q \<Longrightarrow> contents q = x # xs \<Longrightarrow>
      \<exists>q'. remove q = Some (x, q') \<and> inv q' \<and> contents q' = xs"
    and remove_empty: "inv q \<Longrightarrow> contents q = [] \<Longrightarrow> remove q = None"
    and count_ok: "inv q \<Longrightarrow> count q = Some (length (contents q))"
    and inv_distinct: "inv q \<Longrightarrow> distinct (map cf_id (contents q))"
begin

fun append_all :: "'q \<Rightarrow> connfd list \<Rightarrow> 'q option" where
  "append_all q [] = Some q"
| "append_all q (x # xs) = (case append q x of None \<Rightarrow> None | Some q' \<Rightarrow> append_all q' xs)"

fun drain :: "nat \<Rightarrow> 'q \<Rightarrow> connfd list" where
  "drain 0 q = []"
| "drain (Suc n) q = (case remove q of None \<Rightarrow> [] | Some (x, q') \<Rightarrow> x # drain n q')"

lemma append_all_ok:
  "inv q \<Longrightarrow> distinct (map cf_id (contents q @ xs)) \<Longrightarrow>
     \<exists>q'. append_all q xs = Some q' \<and> inv q' \<and> contents q' = contents q @ xs"
proof (induction xs arbitrary: q)
  case Nil
  then show ?case by simp
next
  case (Cons x xs)
  then have "cf_id x \<notin> cf_id ` set (contents q)" by auto
  with Cons.prems(1) obtain q' where q': "append q x = Some q'" "inv q'"
    "contents q' = contents q @ [x]"
    using append_ok by blast
  with Cons.prems Cons.IH [of q'] show ?case by simp
qed

lemma drain_ok: "inv q \<Longrightarrow> drain n q = take n (contents q)"
proof (induction n arbitrary: q)
  case 0
  then show ?case by simp
next
  case (Suc n)
  show ?case
  proof (cases "contents q")
    case Nil
    then show ?thesis using Suc.prems by (simp add: remove_empty)
  next
    case (Cons x xs)
    then obtain q' where "remove q = Some (x, q')" "inv q'" "contents q' = xs"
      using remove_ok Suc.prems by blast
    then show ?thesis using Suc.IH [of q'] Cons by simp
  qed
qed

text \<open>First in, first out: what was in the queue comes out first, then what was appended.\<close>

lemma fifo:
  assumes "inv q" and "distinct (map cf_id (contents q @ xs))"
  shows "\<exists>q'. append_all q xs = Some q' \<and> count q' = Some (length (contents q) + length xs) \<and>
    drain (length (contents q) + length xs) q' = contents q @ xs"
proof -
  obtain q' where "append_all q xs = Some q'" "inv q'" "contents q' = contents q @ xs"
    using append_all_ok [OF assms] by blast
  then show ?thesis using drain_ok [of q'] count_ok [of q'] by simp
qed

end

interpretation fdq: fd_queue append_node remove_node "\<lambda>h. count_nodes h (fh_head h) 0" queue_list
    queue_inv
proof
  fix h x xs
  show "queue_inv h \<Longrightarrow> cf_id x \<notin> cf_id ` set (queue_list h) \<Longrightarrow>
      \<exists>q'. append_node h x = Some q' \<and> queue_inv q' \<and> queue_list q' = queue_list h @ [x]"
    unfolding queue_inv_def using append_node_chain [of h _ x] queue_list_chain
    by (elim exE conjE) (fastforce simp: queue_list_chain)
  show "queue_inv h \<Longrightarrow> queue_list h = x # xs \<Longrightarrow>
      \<exists>q'. remove_node h = Some (x, q') \<and> queue_inv q' \<and> queue_list q' = xs"
    unfolding queue_inv_def using remove_node_chain [of h x xs] queue_list_chain
    by (elim exE conjE) (fastforce simp: queue_list_chain)
  show "queue_inv h \<Longrightarrow> queue_list h = [] \<Longrightarrow> remove_node h = None"
    unfolding queue_inv_def by (auto simp: queue_list_chain remove_node_def)
  show "queue_inv h \<Longrightarrow> count_nodes h (fh_head h) 0 = Some (length (queue_list h))"
    unfolding queue_inv_def by (auto simp: queue_list_chain chain_count)
  show "queue_inv h \<Longrightarrow> distinct (map cf_id (queue_list h))"
    unfolding queue_inv_def by (auto simp: queue_list_chain)
qed

text \<open>
  (C19) The linked queue is first in, first out: after appending nodes to a well-formed queue, the
  count is the sum of the lengths, and taking out that many nodes gives the old contents
  followed by the new ones in order.
\<close>

theorem linked_queue_fifo:
  assumes "queue_inv h" and "distinct (map cf_id (queue_list h @ xs))"
  shows "\<exists>h'. fdq.append_all h xs = Some h' \<and>
    count_nodes h' (fh_head h') 0 = Some (length (queue_list h) + length xs) \<and>
    fdq.drain (length (queue_list h) + length xs) h' = queue_list h @ xs"
  by (rule fdq.fifo [OF assms])

lemma linked_queue_fifo_witness:
  "\<exists>h'. fdq.append_all \<lparr>fh_head = None, fh_node = (\<lambda>_. None)\<rparr>
      [\<lparr>cf_id = 0, cf_fd = 7, cf_do_close = False\<rparr>, \<lparr>cf_id = 1, cf_fd = 8, cf_do_close = True\<rparr>]
      = Some h' \<and>
    fdq.drain 2 h' =
      [\<lparr>cf_id = 0, cf_fd = 7, cf_do_close = False\<rparr>, \<lparr>cf_id = 1, cf_fd = 8, cf_do_close = True\<rparr>]"
proof -
  let ?h = "\<lparr>fh_head = None, fh_node = (\<lambda>_. None)\<rparr> :: fdheap"
  have "chain ?h (fh_head ?h) []" by simp
  then have "queue_inv ?h" "queue_list ?h = []"
    unfolding queue_inv_def by (auto simp: queue_list_chain intro!: exI [of _ "[]"])
  then show ?thesis
    using linked_queue_fifo [of ?h "[\<lparr>cf_id = 0, cf_fd = 7, cf_do_close = False\<rparr>,
        \<lparr>cf_id = 1, cf_fd = 8, cf_do_close = True\<rparr>]"]
    by (auto simp: numeral_2_eq_2)
qed

section \<open>What the list operations do to the process\<close>

lemma discardFd_all:
  assumes "distinct (map cf_id xs)" and "set (map cf_id xs) \<subseteq> set (w_heap w)"
    and "distinct (w_heap w)"
  shows "wp (discardFd xs None dc) (\<lambda>r w'. r = [] \<and>
      w_heap w' = fold remove1 (map cf_id xs) (w_heap w) \<and>
      w_fds w' = fold remove1 (map cf_fd (filter (\<lambda>x. dc \<or> cf_do_close x) xs)) (w_fds w) \<and>
      w_fault w' = w_fault w \<and> w_umask w' = w_umask w \<and> w_next w' = w_next w) w"
  using assms
proof (induction xs arbitrary: w dc)
  case Nil
  then show ?case by simp
next
  case (Cons x xs)
  have next_ok: "wp (discardFd xs None dc) (\<lambda>r w'. r = [] \<and>
      w_heap w' = fold remove1 (map cf_id xs) (w_heap u) \<and>
      w_fds w' = fold remove1 (map cf_fd (filter (\<lambda>x. dc \<or> cf_do_close x) xs)) (w_fds u) \<and>
      w_fault w' = w_fault u \<and> w_umask w' = w_umask u \<and> w_next w' = w_next u) u"
    if "w_heap u = remove1 (cf_id x) (w_heap w)" for u :: "'a os_scheme" and dc
    by (rule Cons.IH) (use Cons.prems that in \<open>auto simp: image_iff\<close>)
  have rm: "fd \<notin> set fds \<Longrightarrow> remove1 fd fds = fds" for fd :: int and fds
    by (simp add: remove1_idem)
  show ?case
    using Cons.prems
    by (auto intro!: wp_c_close next_ok [THEN wp_mono] simp: rm)
qed

end
