(* ===== verification/Xtransutil.thy ===== *)
theory Xtransutil
  imports Xtransint
begin

unbundle bit_operations_syntax

text \<open>
  The utility functions of \<open>include/X11/Xtrans/Xtransutil.c\<close>: \<open>is_numeric\<close>, the conversion of a
  socket address to an X authorisation address, the network identifiers of the ICE library and
  the creation of the socket directory; and \<open>GetHostname\<close> of \<open>Xtrans.c\<close>, which they use.
\<close>

section \<open>is_numeric\<close>

definition is_numeric :: "string \<Rightarrow> bool" where
  "is_numeric str = list_all isdigit str"

section \<open>GetHostname\<close>

text \<open>The result is the contents of the buffer, of which the length is returned.\<close>

definition GetHostname :: "config \<Rightarrow> nat \<Rightarrow> ('z, string) prog" where
  "GetHostname cfg maxlen =
     (if cfg_utsname cfg then do {
        r \<leftarrow> sys Uname;
        let nodename = cstr (r_data r);
        let len = length nodename;
        let len = (if len \<ge> maxlen then maxlen - 1 else len);
        return (take len nodename)
      } else do {
        r \<leftarrow> sys (Gethostname maxlen);
        return (cstr (take (maxlen - 1) (r_data r)))
      })"

lemma wp_GetHostname [wp_intro]:
  assumes "\<And>h l e. length h \<le> maxlen - 1 \<Longrightarrow> NUL \<notin> set h \<Longrightarrow>
      Q h (w\<lparr>w_log := l, w_errno := e\<rparr>)"
  shows "wp (GetHostname cfg maxlen) Q w"
proof -
  have len: "length (cstr (take n s)) \<le> n" for n s
    using length_takeWhile_le [of "\<lambda>c. c \<noteq> NUL" "take n s"] by (simp add: cstr_def)
  have nul: "NUL \<notin> set (cstr s)" "NUL \<notin> set (take n (cstr s))" for s n
    by (auto simp: cstr_def dest!: set_takeWhileD in_set_takeD)
  show ?thesis
  proof (cases "cfg_utsname cfg")
    case True
    show ?thesis
      unfolding GetHostname_def Let_def using True
      by simp (rule wp_sys, simp only: wp_return, rule assms, auto simp: nul)
  next
    case False
    show ?thesis
      unfolding GetHostname_def Let_def using False
      by simp (rule wp_sys, simp only: wp_return, rule assms, simp_all add: nul len)
  qed
qed

section \<open>ConvertAddress\<close>

abbreviation (input) FamilyInternet :: int where "FamilyInternet \<equiv> 0"
abbreviation (input) FamilyInternet6 :: int where "FamilyInternet6 \<equiv> 6"
abbreviation (input) FamilyLocal :: int where "FamilyLocal \<equiv> 256"

text \<open>\<open>memcpy\<close> from and to the buffer behind a pointer; outside of it, C is undefined.\<close>

definition memcpy_from :: "string cptr \<Rightarrow> nat \<Rightarrow> ('z, string) prog" where
  "memcpy_from p n = (case deref p of
     Some b \<Rightarrow> if n \<le> length b then return (take n b)
       else do { fault; return (strncpy_bytes n b) }
   | None \<Rightarrow> do { fault; return (replicate n NUL) })"

definition overwrite :: "string \<Rightarrow> string \<Rightarrow> string" where
  "overwrite bs b = bs @ drop (length bs) b"

definition memcpy_to :: "string cptr \<Rightarrow> string \<Rightarrow> ('z, string cptr) prog" where
  "memcpy_to p bs = (case deref p of
     Some b \<Rightarrow> if length bs \<le> length b then return (map_cptr (overwrite bs) p)
       else do { fault; return p }
   | None \<Rightarrow> do { fault; return p })"

definition sin_addr :: "string \<Rightarrow> string" where "sin_addr sa = take 4 (drop 4 sa)"
definition sin6_addr :: "string \<Rightarrow> string" where "sin6_addr sa = take 16 (drop 8 sa)"

definition is_127_0_0_1 :: "string \<Rightarrow> bool" where
  "is_127_0_0_1 cp \<longleftrightarrow> cp = [CHR 0x7F, NUL, NUL, CHR 0x01]"

definition IN6_IS_ADDR_LOOPBACK :: "string \<Rightarrow> bool" where
  "IN6_IS_ADDR_LOOPBACK a \<longleftrightarrow> a = replicate 15 NUL @ [CHR 0x01]"

definition IN6_IS_ADDR_V4MAPPED :: "string \<Rightarrow> bool" where
  "IN6_IS_ADDR_V4MAPPED a \<longleftrightarrow> take 12 a = replicate 10 NUL @ [CHR 0xFF, CHR 0xFF]"

text \<open>The result: the returned status and the new values behind the three pointers.\<close>

type_synonym xaddr = "int \<times> int \<times> string cptr"

definition convert_local :: "config \<Rightarrow> int \<Rightarrow> string cptr \<Rightarrow> ('z, int \<times> xaddr) prog" where
  "convert_local cfg addrlen addr = do {
     host \<leftarrow> GetHostname cfg 256;
     let len = int (length host);
     if len > 0 then do {
       addr \<leftarrow> (if addr \<noteq> Null \<and> addrlen < len + 1 then do { free_ptr addr; return Null }
                else return addr);
       addr \<leftarrow> (if addr = Null then malloc_with (nat (len + 1)) (replicate (nat (len + 1)) NUL)
                else return addr);
       if addr \<noteq> Null then do {
         addr \<leftarrow> memcpy_to addr (host @ [NUL]);
         return (0, FamilyLocal, len, addr)
       } else return (0, FamilyLocal, 0, addr)
     } else do {
       free_ptr addr;
       return (0, FamilyLocal, 0, Null)
     }
   }"

definition ConvertAddress ::
    "config \<Rightarrow> int \<Rightarrow> int \<Rightarrow> string cptr \<Rightarrow> ('z, int \<times> xaddr) prog" where
  "ConvertAddress cfg family addrlen addr =
     (if family = AF_INET then do {
        saddr \<leftarrow> memcpy_from addr 16;
        if is_127_0_0_1 (sin_addr saddr) then convert_local cfg addrlen addr
        else do {
          addr \<leftarrow> memcpy_to addr (sin_addr saddr);
          return (0, FamilyInternet, 4, addr)
        }
      }
      else if family = AF_INET6 \<and> cfg_ipv6 cfg then do {
        saddr6 \<leftarrow> memcpy_from addr 28;
        let a = sin6_addr saddr6;
        if IN6_IS_ADDR_LOOPBACK a then convert_local cfg addrlen addr
        else if IN6_IS_ADDR_V4MAPPED a then
          (if is_127_0_0_1 (drop 12 a) then convert_local cfg addrlen addr
           else do {
             addr \<leftarrow> memcpy_to addr (drop 12 a);
             return (0, FamilyInternet, 4, addr)
           })
        else do {
          addr \<leftarrow> memcpy_to addr a;
          return (0, FamilyInternet6, 16, addr)
        }
      }
      else if family = AF_UNIX then convert_local cfg addrlen addr
      else return (-1, family, addrlen, addr))"

section \<open>Network identifiers\<close>

text \<open>A C string built with \<open>sprintf\<close> in a fresh block, whose allocation is not checked.\<close>

definition sprintf_new :: "nat \<Rightarrow> string \<Rightarrow> ('z, string cptr) prog" where
  "sprintf_new n s = do {
     p \<leftarrow> malloc_with n s;
     do_if (p = Null) fault;
     return p
   }"

text \<open>The C string at an offset of a buffer; without a null in the buffer \<open>strlen\<close> runs off it.\<close>

definition cstr_at :: "string cptr \<Rightarrow> nat \<Rightarrow> ('z, string) prog" where
  "cstr_at p off = (case deref p of
     Some b \<Rightarrow> do { do_if (NUL \<notin> set (drop off b)) fault; return (cstr (drop off b)) }
   | None \<Rightarrow> do { fault; return [] })"

definition GetMyNetworkId :: "config \<Rightarrow> conn \<Rightarrow> string cptr xprog" where
  "GetMyNetworkId cfg ciptr = do {
     t \<leftarrow> trans_of ciptr;
     let transName = TransName t;
     r \<leftarrow> sys (Gethostname 256);
     if r_ret r < 0 then return Null
     else do {
       let host = cstr (take 256 (r_data r));
       let family = c_family ciptr;
       if family = AF_UNIX then do {
         path \<leftarrow> cstr_at (c_addr ciptr) 2;
         sprintf_new (3 + length transName + length host + length path)
           (transName @ ''/'' @ host @ '':'' @ path)
       }
       else if family = AF_INET \<or> (family = AF_INET6 \<and> cfg_ipv6 cfg) then do {
         saddr \<leftarrow> memcpy_from (c_addr ciptr) 4;
         let portnumbuf = snprintf_s 10 (print_d (int (rd_be16 (drop 2 saddr))));
         sprintf_new (3 + length transName + length host + length portnumbuf)
           (transName @ ''/'' @ host @ '':'' @ portnumbuf)
       }
       else return Null
     }
   }"

text \<open>
  The alarm that bounds the reverse lookup makes \<open>_XGethostbyaddr\<close> fail, which the environment
  may do at any time.
\<close>

definition GetPeerNetworkId :: "config \<Rightarrow> conn \<Rightarrow> string cptr xprog" where
  "GetPeerNetworkId cfg ciptr = do {
     let family = c_family ciptr;
     addr \<leftarrow> (if family = AF_UNSPEC \<or> family = AF_UNIX then do {
         r \<leftarrow> sys (Gethostname 256);
         return (Some (if r_ret r = 0 then Some (cstr (take 256 (r_data r))) else None))
       }
       else if family = AF_INET \<or> (family = AF_INET6 \<and> cfg_ipv6 cfg) then do {
         let v6 = (family = AF_INET6 \<and> cfg_ipv6 cfg);
         saddr \<leftarrow> memcpy_from (c_peeraddr ciptr) (if v6 then 24 else 8);
         let address = (if v6 then sin6_addr saddr else sin_addr saddr);
         hostp \<leftarrow> sys (Gethostbyaddr address (length address) family);
         if r_ret hostp \<ge> 0 then return (Some (Some (cstr (r_data hostp))))
         else do {
           r \<leftarrow> sys (Inet_ntop family address);
           return (Some (if r_ret r < 0 then None else Some (cstr (r_data r))))
         }
       }
       else return None);
     case addr of
       None \<Rightarrow> return Null
     | Some addr \<Rightarrow> do {
         t \<leftarrow> trans_of ciptr;
         do_if (addr = None) fault;
         let a = (case addr of None \<Rightarrow> [] | Some s \<Rightarrow> s);
         sprintf_new (length (TransName t) + length a + 2) (TransName t @ ''/'' @ a)
       }
   }"

section \<open>trans_mkdir\<close>

definition S_ISDIR :: "u32 \<Rightarrow> bool" where
  "S_ISDIR mode \<longleftrightarrow> mode AND 0xf000 = 0x4000"

text \<open>
  The octal masks are 01000 (512, sticky), 0077 (63) and 0022 (18). The part for a directory that
  exists comes first: whether owner and mode have to change, the attempt to change them through
  an open descriptor, and the decision.
\<close>

definition mkdir_fix :: "string \<Rightarrow> u32 \<Rightarrow> statb \<Rightarrow> bool \<Rightarrow> bool \<Rightarrow> ('z, (bool \<times> bool) option) prog" where
  "mkdir_fix path mode buf updateOwner updateMode = do {
     fd \<leftarrow> sys_fd (OpenC path);
     if fd \<noteq> -1 then do {
       fs \<leftarrow> sys (Fstat fd);
       if r_ret fs = -1 then do { _ \<leftarrow> c_close fd; return None }
       else do {
         let fbuf = r_stat fs;
         if \<not> S_ISDIR (st_mode fbuf) \<or> st_dev buf \<noteq> st_dev fbuf \<or> st_ino buf \<noteq> st_ino fbuf
         then do { _ \<leftarrow> c_close fd; return None }
         else do {
           updatedOwner \<leftarrow> (if updateOwner
             then do { r \<leftarrow> sys (Fchown fd 0 0); return (r_ret r = 0) } else return False);
           updatedMode \<leftarrow> (if updateMode
             then do { r \<leftarrow> sys (Fchmod fd mode); return (r_ret r = 0) } else return False);
           _ \<leftarrow> c_close fd;
           return (Some (updatedOwner, updatedMode))
         }
       }
     } else return (Some (False, False))
   }"

definition mkdir_existing :: "config \<Rightarrow> string \<Rightarrow> u32 \<Rightarrow> statb \<Rightarrow> ('z, int) prog" where
  "mkdir_existing cfg path mode buf = do {
     let updateOwner = (st_uid buf \<noteq> 0);
     let noaccess = (NOT (st_mode buf) AND 18 AND mode \<noteq> 0);
     let sticky = has mode 512;
     let nomode = (sticky \<and> \<not> has (st_mode buf) 512);
     let updateMode = (NOT mode AND 63 AND st_mode buf \<noteq> 0 \<or> noaccess \<or> nomode);
     fixed \<leftarrow> (if cfg_fchown cfg \<and> (updateMode \<or> updateOwner)
       then mkdir_fix path mode buf updateOwner updateMode else return (Some (False, False)));
     case fixed of
       None \<Rightarrow> return (-1)
     | Some (updatedOwner, updatedMode) \<Rightarrow>
         (if updateOwner \<and> \<not> updatedOwner \<and> cfg_fail_hard cfg \<and> sticky then return (-1)
          else if updateMode \<and> \<not> updatedMode \<and> cfg_fail_hard cfg \<and> nomode then return (-1)
          else return 0)
   }"

definition trans_mkdir :: "config \<Rightarrow> string \<Rightarrow> u32 \<Rightarrow> ('z, int) prog" where
  "trans_mkdir cfg path mode = do {
     ls \<leftarrow> sys (Lstat path);
     if r_ret ls \<noteq> 0 then do {
       e \<leftarrow> gets w_errno;
       if e \<noteq> ENOENT then return (-1)
       else do {
         eu \<leftarrow> sys Geteuid;
         if r_ret eu \<noteq> 0 \<and> has mode 512 \<and> cfg_fail_hard cfg then return (-1)
         else do {
           mk \<leftarrow> sys (Mkdir path mode);
           if r_ret mk = 0 then do {
             ch \<leftarrow> sys (Chmod path mode);
             if r_ret ch \<noteq> 0 \<and> cfg_fail_hard cfg then return (-1) else return 0
           } else return (-1)
         }
       }
     }
     else if S_ISDIR (st_mode (r_stat ls)) then mkdir_existing cfg path mode (r_stat ls)
     else return (-1)
   }"

lemma mkdir_fix_spec:
  "wp (mkdir_fix path mode buf uo um)
     (\<lambda>r w'. holds w' = holds w \<and> (\<exists>l. w_log w' = l @ w_log w \<and>
        (case r of None \<Rightarrow> True | Some (ow, md) \<Rightarrow>
           (ow \<longrightarrow> (\<exists>fd a. (Fchown fd 0 0, a) \<in> set l \<and> r_ret a = 0)) \<and>
           (md \<longrightarrow> (\<exists>fd a. (Fchmod fd mode, a) \<in> set l \<and> r_ret a = 0))))) w"
  unfolding mkdir_fix_def sys_fd_def c_close_def
  by (auto simp: Let_def holds_def intro!: wp_sys_log)

lemma mkdir_existing_spec:
  assumes "cfg_fail_hard cfg" and "has mode 512"
  shows "wp (mkdir_existing cfg path mode buf) (\<lambda>ret w'. holds w' = holds w \<and>
    (\<exists>l. w_log w' = l @ w_log w \<and> (ret = 0 \<longrightarrow>
       (st_uid buf = 0 \<or> (\<exists>fd b. (Fchown fd 0 0, b) \<in> set l \<and> r_ret b = 0)) \<and>
       (has (st_mode buf) 512 \<or> (\<exists>fd b. (Fchmod fd mode, b) \<in> set l \<and> r_ret b = 0))))) w"
proof -
  let ?um = "NOT mode AND 63 AND st_mode buf \<noteq> 0 \<or> NOT (st_mode buf) AND 18 AND mode \<noteq> 0 \<or>
    \<not> has (st_mode buf) 512"
  show ?thesis
  proof (cases "cfg_fchown cfg \<and> (?um \<or> st_uid buf \<noteq> 0)")
    case True
    then show ?thesis
      unfolding mkdir_existing_def Let_def using assms
      by (simp, intro wp_mono [OF mkdir_fix_spec]) (auto split: option.splits)
  next
    case False
    then show ?thesis
      unfolding mkdir_existing_def Let_def using assms by auto
  qed
qed

text \<open>
  What the calls in a log \<open>l\<close> did for a directory: it was created with the requested mode by the
  superuser, or it was there already and its owner and sticky bit are right or were put right.
\<close>

definition dir_created :: "string \<Rightarrow> u32 \<Rightarrow> (os_call \<times> resp) list \<Rightarrow> bool" where
  "dir_created path mode l \<longleftrightarrow> (\<exists>a b c. (Geteuid, a) \<in> set l \<and> r_ret a = 0 \<and>
     (Mkdir path mode, b) \<in> set l \<and> r_ret b = 0 \<and> (Chmod path mode, c) \<in> set l \<and> r_ret c = 0)"

definition dir_secured :: "string \<Rightarrow> u32 \<Rightarrow> (os_call \<times> resp) list \<Rightarrow> bool" where
  "dir_secured path mode l \<longleftrightarrow> (\<exists>a. (Lstat path, a) \<in> set l \<and> r_ret a = 0 \<and>
     S_ISDIR (st_mode (r_stat a)) \<and>
     (st_uid (r_stat a) = 0 \<or> (\<exists>fd b. (Fchown fd 0 0, b) \<in> set l \<and> r_ret b = 0)) \<and>
     (has (st_mode (r_stat a)) 512 \<or> (\<exists>fd b. (Fchmod fd mode, b) \<in> set l \<and> r_ret b = 0)))"

lemma dir_securedI:
  assumes "r_ret a = 0" and "S_ISDIR (st_mode (r_stat a))"
    and "st_uid (r_stat a) = 0 \<or> (\<exists>fd b. (Fchown fd 0 0, b) \<in> set l \<and> r_ret b = 0)"
    and "has (st_mode (r_stat a)) 512 \<or> (\<exists>fd b. (Fchmod fd mode, b) \<in> set l \<and> r_ret b = 0)"
  shows "dir_secured path mode (l @ [(Lstat path, a)])"
  unfolding dir_secured_def using assms by (intro exI [of _ a]) auto



section \<open>What ConvertAddress computes\<close>

text \<open>The authorisation address that a socket address stands for.\<close>

datatype auth_addr = AuthLocal | AuthInternet string | AuthInternet6 string

definition auth_v4 :: "string \<Rightarrow> auth_addr" where
  "auth_v4 a = (if is_127_0_0_1 a then AuthLocal else AuthInternet a)"

definition auth_of :: "config \<Rightarrow> int \<Rightarrow> string \<Rightarrow> auth_addr option" where
  "auth_of cfg family buf =
     (if family = AF_UNIX then Some AuthLocal
      else if family = AF_INET then Some (auth_v4 (sin_addr buf))
      else if family = AF_INET6 \<and> cfg_ipv6 cfg then
        (let a = sin6_addr buf in
         Some (if IN6_IS_ADDR_LOOPBACK a then AuthLocal
           else if IN6_IS_ADDR_V4MAPPED a then auth_v4 (drop 12 a) else AuthInternet6 a))
      else None)"

text \<open>
  How the three results represent it: the family code, the number of significant bytes, and the
  bytes at the start of the buffer. A local address is the host name, as a C string; its length
  is 0 and the pointer null when there is no name or no memory for it.
\<close>

fun represents :: "xaddr \<Rightarrow> auth_addr \<Rightarrow> bool" where
  "represents (fam, len, p) (AuthInternet a) \<longleftrightarrow>
     fam = FamilyInternet \<and> len = 4 \<and> (\<exists>b. deref p = Some b \<and> take 4 b = a)"
| "represents (fam, len, p) (AuthInternet6 a) \<longleftrightarrow>
     fam = FamilyInternet6 \<and> len = 16 \<and> (\<exists>b. deref p = Some b \<and> take 16 b = a)"
| "represents (fam, len, p) AuthLocal \<longleftrightarrow> fam = FamilyLocal \<and>
     (len = 0 \<and> p = Null \<or> (\<exists>b. deref p = Some b \<and> 0 < len \<and> len = int (length (cstr b)) \<and> len < 256))"

lemma nat_int_Suc: "nat (int n + 1) = Suc n"
  by simp

lemma cstr_host: "NUL \<notin> set h \<Longrightarrow> cstr (h @ NUL # s) = h"
  unfolding cstr_def by (induction h) auto

lemma convert_local_spec:
  assumes "os_wf w" and "i \<in> set (w_heap w)" and "addrlen \<le> int (length buf)"
  shows "wp (convert_local cfg addrlen (Ptr i buf)) (\<lambda>(ret, r) w'. ret = 0 \<and> represents r AuthLocal \<and>
    (case r of (_, _, p) \<Rightarrow> set (w_heap w') = set (w_heap w) - {i} \<union> set (blocks p)) \<and>
    w_fault w' = w_fault w \<and> w_fds w' = w_fds w) w"
  unfolding convert_local_def memcpy_to_def
  using assms os_wf_fresh [OF assms(1)]
  by (auto intro!: wp_GetHostname wp_malloc_with simp: Let_def overwrite_def cstr_host os_wf_def
      nat_int_Suc split: if_splits)

text \<open>
  \<open>ConvertAddress\<close> turns a socket address in a heap buffer into the authorisation address it
  stands for: IPv4 and IPv4-mapped IPv6 addresses into the four address bytes, other IPv6
  addresses into sixteen, loopback and Unix addresses into the local host name. It fails on
  other families and changes nothing then; it never reads or writes outside the buffer, and the
  caller owns the buffer that it returns and no other block.
\<close>

theorem ConvertAddress_refines:
  assumes "os_wf w" and "i \<in> set (w_heap w)" and "addrlen \<le> int (length buf)"
    and "28 \<le> length buf"
  shows "wp (ConvertAddress cfg family addrlen (Ptr i buf)) (\<lambda>(ret, r) w'.
    (case auth_of cfg family buf of
       None \<Rightarrow> ret = -1 \<and> r = (family, addrlen, Ptr i buf)
     | Some a \<Rightarrow> ret = 0 \<and> represents r a) \<and>
    (case r of (_, _, p) \<Rightarrow> set (w_heap w') = set (w_heap w) - {i} \<union> set (blocks p)) \<and>
    w_fault w' = w_fault w \<and> w_fds w' = w_fds w) w"
proof -
  note loc = convert_local_spec [OF assms(1-3), of cfg, THEN wp_mono]
  have len: "length (sin_addr buf) = 4" "length (sin6_addr buf) = 16"
    "sin_addr (take 16 buf) = sin_addr buf" "sin6_addr (take 28 buf) = sin6_addr buf"
    using assms(4) by (simp_all add: sin_addr_def sin6_addr_def drop_take min_def)
  have heap: "insert i (set (w_heap w)) = set (w_heap w)" using assms(2) by auto
  show ?thesis
    unfolding ConvertAddress_def memcpy_from_def memcpy_to_def auth_of_def Let_def
    using assms(4)
    by (auto simp: len heap overwrite_def auth_v4_def intro!: loc split: if_splits)
qed

lemma ConvertAddress_refines_witness:
  "wp (ConvertAddress sample_config 2 28 (Ptr 0 (replicate 4 NUL @ ''abcd'' @ replicate 20 NUL)))
     (\<lambda>(ret, r) w'. ret = 0 \<and> represents r (AuthInternet ''abcd''))
     ((sample_world [])\<lparr>w_heap := [0], w_next := 1\<rparr>)"
proof -
  have "auth_of sample_config 2 (replicate 4 NUL @ ''abcd'' @ replicate 20 NUL)
      = Some (AuthInternet ''abcd'')"
    by (simp add: auth_of_def auth_v4_def is_127_0_0_1_def sin_addr_def)
  then show ?thesis
    by (intro ConvertAddress_refines [THEN wp_mono]) (auto simp: os_wf_def)
qed

end
