(* ===== verification/XtransParse.thy ===== *)
theory XtransParse
  imports Xtransutil
begin

text \<open>
  Choosing a transport by name and taking an address apart (\<open>SelectTransport\<close> and \<open>ParseAddress\<close>
  of \<open>include/X11/Xtrans/Xtrans.c\<close>).
\<close>

section \<open>SelectTransport\<close>

text \<open>
  The first variant uses \<open>strcasecmp\<close>; the other compares a lower-case copy of the first 19
  characters.
\<close>

abbreviation (input) PROTOBUFSIZE :: nat where "PROTOBUFSIZE \<equiv> 20"

definition protobuf :: "string \<Rightarrow> string" where
  "protobuf protocol = map (\<lambda>c. if isupper c then tolower c else c) (take (PROTOBUFSIZE - 1) protocol)"

definition SelectTransport :: "config \<Rightarrow> string \<Rightarrow> transp option" where
  "SelectTransport cfg protocol =
     map_option fst (find (\<lambda>(t, _).
       if cfg_strcasecmp cfg then strcaseeq protocol (TransName t)
       else protobuf protocol = TransName t) (Xtransports cfg))"

section \<open>ParseAddress\<close>

text \<open>The protocol and the rest of the string behind it; \<open>None\<close> for a bad format.\<close>

definition parse_protocol :: "string \<Rightarrow> (string \<times> string) option" where
  "parse_protocol address = (case split_first CHR ''/'' address of
     None \<Rightarrow>
       (case split_last CHR '':'' address of
          None \<Rightarrow> None
        | Some (before, _) \<Rightarrow> Some (if before = [] then ''local'' else ''tcp'', address))
   | Some (protocol, mybuf) \<Rightarrow>
       Some (if protocol \<noteq> [] then protocol
             else if mybuf \<noteq> [] \<and> hd mybuf = CHR '':'' then ''local'' else ''tcp'', mybuf))"

text \<open>The host, \<open>[numeric]\<close> standing for an IPv6 address.\<close>

definition parse_host :: "config \<Rightarrow> string \<Rightarrow> string \<Rightarrow> ('z, string \<times> string) prog" where
  "parse_host cfg protocol host =
     (if host = [] then do {
        hostnamebuf \<leftarrow> GetHostname cfg 256;
        return (protocol, hostnamebuf)
      }
      else if cfg_ipv6 cfg \<and> length host > 3 \<and> (protocol = ''tcp'' \<or> protocol = ''inet6'') \<and>
        hd host = CHR ''['' \<and> last host = CHR '']'' then do {
        r \<leftarrow> sys (Inet_pton (tl (butlast host)));
        if r_ret r = 1 then return (''inet6'', tl (butlast host)) else return (protocol, host)
      }
      else return (protocol, host))"

text \<open>For the font library and server, a catalogue behind the port is cut off.\<close>

definition parse_port :: "config \<Rightarrow> string \<Rightarrow> string" where
  "parse_port cfg port = (if cfg_t cfg = FONT_t \<or> cfg_t cfg = FS_t
     then takeWhile (\<lambda>c. c \<noteq> CHR ''/'') port else port)"

type_synonym parsed = "string cptr \<times> string cptr \<times> string cptr"

text \<open>The three new strings, or \<open>None\<close>, in which case all three are null pointers.\<close>

definition dup_parts :: "string \<Rightarrow> string \<Rightarrow> string \<Rightarrow> ('z, parsed option) prog" where
  "dup_parts prot hst prt = do {
     protocol \<leftarrow> strdup prot;
     if protocol = Null then return None
     else do {
       host \<leftarrow> strdup hst;
       if host = Null then do { free_ptr protocol; return None }
       else do {
         port \<leftarrow> strdup prt;
         if port = Null then do { free_ptr host; free_ptr protocol; return None }
         else return (Some (protocol, host, port))
       }
     }
   }"

text \<open>The copy of the address is not checked: without memory \<open>strchr\<close> is given a null pointer.\<close>

definition ParseAddress :: "config \<Rightarrow> string \<Rightarrow> ('z, parsed option) prog" where
  "ParseAddress cfg address = do {
     tmpptr \<leftarrow> strdup address;
     if tmpptr = Null then do { fault; return None }
     else case parse_protocol address of
       None \<Rightarrow> do { free_ptr tmpptr; return None }
     | Some (protocol, mybuf) \<Rightarrow>
         (case split_last CHR '':'' mybuf of
            None \<Rightarrow> do { free_ptr tmpptr; return None }
          | Some (host, port) \<Rightarrow> do {
              (protocol, host) \<leftarrow> parse_host cfg protocol host;
              r \<leftarrow> dup_parts protocol host (parse_port cfg port);
              free_ptr tmpptr;
              return r
            })
   }"

section \<open>Which transport is chosen\<close>

lemma tolower_unless_upper: "(if isupper c then tolower c else c) = tolower c"
  by (simp add: tolower_def)

lemma protobuf_lower: "protobuf protocol = map tolower (take 19 protocol)"
  by (simp add: protobuf_def tolower_unless_upper)

lemma lower_TransName [simp]: "map tolower (TransName t) = TransName t"
  by (cases t) (simp_all add: tolower_def isupper_def less_eq_char_def)

lemma protobuf_eq: "protobuf protocol = TransName t \<longleftrightarrow> map tolower protocol = TransName t"
proof (cases "length protocol \<le> 19")
  case False
  then have "length (map tolower (take 19 protocol)) = 19" and "length (map tolower protocol) > 19"
    by simp_all
  moreover have "length (TransName t) < 19" by (cases t) simp_all
  ultimately show ?thesis unfolding protobuf_lower by (metis less_irrefl less_trans)
qed (simp add: protobuf_lower)

text \<open>
  The two variants of \<open>SelectTransport\<close> choose the same transport for every protocol string, of
  whatever length: the one whose name it is when case is ignored.
\<close>

theorem SelectTransport_variants:
  "SelectTransport (cfg\<lparr>cfg_strcasecmp := True\<rparr>) protocol =
     SelectTransport (cfg\<lparr>cfg_strcasecmp := False\<rparr>) protocol \<and>
   SelectTransport cfg protocol =
     map_option fst (find (\<lambda>(t, _). map tolower protocol = TransName t) (Xtransports cfg))"
  by (simp add: SelectTransport_def Xtransports_def strcaseeq_def protobuf_eq cong: if_cong)

lemma SelectTransport_find:
  "SelectTransport cfg protocol =
     map_option fst (find (\<lambda>(t, _). map tolower protocol = TransName t) (Xtransports cfg))"
  by (simp add: SelectTransport_def Xtransports_def strcaseeq_def protobuf_eq cong: if_cong)

definition configured :: "config \<Rightarrow> transp \<Rightarrow> bool" where
  "configured cfg t \<longleftrightarrow> (t = SocketINET6Funcs \<longrightarrow> cfg_ipv6 cfg)"

lemma SelectTransport_name [simp]:
  "SelectTransport cfg (TransName t) = (if configured cfg t then Some t else None)"
  by (cases t) (auto simp: SelectTransport_find Xtransports_def configured_def tolower_def isupper_def
      less_eq_char_def)

lemma SelectTransport_Some:
  "SelectTransport cfg protocol = Some t \<longleftrightarrow> map tolower protocol = TransName t \<and> configured cfg t"
  by (cases t) (auto simp: SelectTransport_find Xtransports_def configured_def split: if_splits)

lemma SelectTransport_literal [simp]:
  "SelectTransport cfg ''tcp'' = Some SocketTCPFuncs"
  "SelectTransport cfg ''inet'' = Some SocketINETFuncs"
  "SelectTransport cfg ''local'' = Some SocketLocalFuncs"
  "SelectTransport cfg ''unix'' = Some SocketUNIXFuncs"
  "cfg_ipv6 cfg \<Longrightarrow> SelectTransport cfg ''inet6'' = Some SocketINET6Funcs"
  using SelectTransport_name [of cfg SocketTCPFuncs] SelectTransport_name [of cfg SocketINETFuncs]
    SelectTransport_name [of cfg SocketLocalFuncs] SelectTransport_name [of cfg SocketUNIXFuncs]
    SelectTransport_name [of cfg SocketINET6Funcs]
  by (simp_all add: configured_def)

end
