(* ===== verification/ParseProps.thy ===== *)
theory ParseProps
  imports XtransParse
begin

text \<open>
  What \<open>ParseAddress\<close> does: the grammar of addresses, the components that are returned with their
  defaults, and what is left allocated.
\<close>

section \<open>The grammar\<close>

text \<open>
  An address is \<open>protocol/host:port\<close>, or \<open>host:port\<close> without any slash. The protocol ends at the
  first slash and the port begins behind the last colon.
\<close>

definition address_parts :: "string \<Rightarrow> string \<Rightarrow> string \<Rightarrow> string \<Rightarrow> bool" where
  "address_parts address prot host port \<longleftrightarrow> CHR '':'' \<notin> set port \<and>
     ((address = prot @ CHR ''/'' # host @ CHR '':'' # port \<and> CHR ''/'' \<notin> set prot) \<or>
      (CHR ''/'' \<notin> set address \<and> prot = [] \<and> address = host @ CHR '':'' # port))"

text \<open>
  A missing protocol is \<open>local\<close> when the host is missing too, and \<open>tcp\<close> otherwise; but behind a
  leading slash, a host that begins with a colon is taken for a missing one.
\<close>

definition assumed_protocol :: "string \<Rightarrow> string \<Rightarrow> string \<Rightarrow> string" where
  "assumed_protocol address prot host =
     (if prot \<noteq> [] then prot
      else if host = [] \<or> (hd address = CHR ''/'' \<and> hd host = CHR '':'') then ''local'' else ''tcp'')"

definition parse_parts :: "string \<Rightarrow> (string \<times> string \<times> string) option" where
  "parse_parts address = Option.bind (parse_protocol address)
     (\<lambda>(p, b). map_option (\<lambda>(h, q). (p, h, q)) (split_last CHR '':'' b))"

lemma parse_parts_exact:
  "parse_parts address = Some (p, host, port) \<longleftrightarrow>
     (\<exists>prot. address_parts address prot host port \<and> p = assumed_protocol address prot host)"
proof (cases "split_first CHR ''/'' address")
  case None
  then have slash: "CHR ''/'' \<notin> set address" by simp
  then have parts: "address_parts address prot host port \<longleftrightarrow> prot = [] \<and>
      split_last CHR '':'' address = Some (host, port)" for prot
    by (auto simp: address_parts_def split_last_Some)
  show ?thesis
  proof (cases "split_last CHR '':'' address")
    case none: None
    then show ?thesis
      unfolding parts parse_parts_def parse_protocol_def None by (simp del: split_last_None)
  next
    case (Some x)
    then have "hd address \<noteq> CHR ''/''"
      using slash hd_in_set [of address] by (cases x) (auto simp: split_last_Some)
    then show ?thesis
      unfolding parts parse_parts_def parse_protocol_def None Some
      by (cases x) (auto simp: Some assumed_protocol_def)
  qed
next
  case (Some x)
  then obtain a b where ab: "address = a @ CHR ''/'' # b" "CHR ''/'' \<notin> set a"
      "split_first CHR ''/'' address = Some (a, b)"
    by (cases x) (simp add: split_first_Some)
  have uniq: "a @ CHR ''/'' # b = prot @ CHR ''/'' # c \<and> CHR ''/'' \<notin> set prot \<longleftrightarrow> prot = a \<and> c = b"
    for prot c
    using ab(2,3) by (metis ab(1) option.inject prod.inject split_first_append)
  have parts: "address_parts address prot host port \<longleftrightarrow> prot = a \<and> b = host @ CHR '':'' # port \<and>
      CHR '':'' \<notin> set port" for prot
    using uniq [of prot "host @ CHR '':'' # port"] by (auto simp: address_parts_def ab(1))
  have "parse_parts address = Some (p, host, port) \<longleftrightarrow> split_last CHR '':'' b = Some (host, port) \<and>
      p = (if a \<noteq> [] then a else if b \<noteq> [] \<and> hd b = CHR '':'' then ''local'' else ''tcp'')"
    unfolding parse_parts_def parse_protocol_def ab(3) by auto
  moreover have "assumed_protocol address a host =
      (if a \<noteq> [] then a else if b \<noteq> [] \<and> hd b = CHR '':'' then ''local'' else ''tcp'')"
    if "b = host @ CHR '':'' # port"
    using that ab(1) by (cases a; cases host) (simp_all add: assumed_protocol_def)
  ultimately show ?thesis
    unfolding parts by (auto simp: split_last_Some)
qed

lemma address_parts_unique:
  assumes "address_parts address p h q" and "address_parts address p' h' q'"
  shows "p' = p \<and> h' = h \<and> q' = q"
proof -
  have "parse_parts address = Some (assumed_protocol address p h, h, q)"
    and "parse_parts address = Some (assumed_protocol address p' h', h', q')"
    using assms by (auto simp: parse_parts_exact)
  then have "h' = h" "q' = q" by simp_all
  with assms show ?thesis by (auto simp: address_parts_def)
qed

section \<open>Running the parser\<close>

text \<open>What may become of the protocol and the host.\<close>

definition host_result :: "config \<Rightarrow> string \<Rightarrow> string \<Rightarrow> string \<Rightarrow> string \<Rightarrow> bool" where
  "host_result cfg p host p' h' \<longleftrightarrow>
     (if host = [] then p' = p \<and> length h' \<le> 255
      else p' = p \<and> h' = host \<or>
        cfg_ipv6 cfg \<and> 3 < length host \<and> p \<in> {''tcp'', ''inet6''} \<and> hd host = CHR ''['' \<and>
        last host = CHR '']'' \<and> p' = ''inet6'' \<and> h' = tl (butlast host))"

lemma wp_parse_host:
  assumes "\<And>p' h' l e. host_result cfg p host p' h' \<Longrightarrow> Q (p', h') (w\<lparr>w_log := l, w_errno := e\<rparr>)"
  shows "wp (parse_host cfg p host) Q w"
proof -
  have same: "w = w\<lparr>w_log := w_log w, w_errno := w_errno w\<rparr>" by simp
  show ?thesis
    unfolding parse_host_def
    by (auto intro!: wp_GetHostname wp_sys assms simp: host_result_def)
      (subst same, rule assms, simp add: host_result_def)+
qed

lemma ParseAddress_parts:
  "ParseAddress cfg address = do {
     tmpptr \<leftarrow> strdup address;
     if tmpptr = Null then do { fault; return None }
     else case parse_parts address of
       None \<Rightarrow> do { free_ptr tmpptr; return None }
     | Some (p, host, port) \<Rightarrow> do {
         (p, host) \<leftarrow> parse_host cfg p host;
         r \<leftarrow> dup_parts p host (parse_port cfg port);
         free_ptr tmpptr;
         return r
       }
   }"
proof (cases "parse_protocol address")
  case (Some x)
  then show ?thesis
    unfolding ParseAddress_def parse_parts_def
    by (cases x; cases "split_last CHR '':'' (snd x)") (auto simp del: split_last_None cong: if_cong)
qed (simp add: ParseAddress_def parse_parts_def cong: if_cong)

text \<open>What a step that only allocates and frees leaves alone.\<close>

definition kept :: "xworld \<Rightarrow> xworld \<Rightarrow> bool" where
  "kept w w' \<longleftrightarrow> rest_same w w' \<and> w_fds w' = w_fds w \<and> w_fault w' = w_fault w \<and> w_next w \<le> w_next w'"

lemma wp_dup_parts:
  assumes "os_wf w"
    and "\<And>w'. \<not> mem_ok w \<Longrightarrow> kept w w' \<Longrightarrow> w_heap w' = w_heap w \<Longrightarrow> Q None w'"
    and "\<And>w' i. i = w_next w \<Longrightarrow> kept w w' \<Longrightarrow> w_heap w' = [Suc (Suc i), Suc i, i] @ w_heap w \<Longrightarrow>
      w_next w' = Suc (Suc (Suc i)) \<Longrightarrow> Q (Some (Ptr i p, Ptr (Suc i) h, Ptr (Suc (Suc i)) q)) w'"
  shows "wp (dup_parts p h q) Q w"
  using os_wf_fresh [OF assms(1)] os_wf_less [OF assms(1)]
  unfolding dup_parts_def
  by (auto intro!: wp_strdup_mem assms(2) assms(3) [OF refl] simp: kept_def rest_same_def)

text \<open>What the parser promises, and what holds while the copy of the address, block \<open>i\<close>, is live.\<close>

definition parse_post :: "config \<Rightarrow> string \<Rightarrow> xworld \<Rightarrow> parsed option \<Rightarrow> xworld \<Rightarrow> bool" where
  "parse_post cfg address w r w' \<longleftrightarrow> kept w w' \<and> os_wf w' \<and> (case r of
      None \<Rightarrow> w_heap w' = w_heap w \<and> ((\<nexists>prot host port. address_parts address prot host port) \<or> \<not> mem_ok w)
    | Some (pp, hp, qp) \<Rightarrow> w_heap w' = blocks qp @ blocks hp @ blocks pp @ w_heap w \<and>
        (\<exists>prot host port p' h' i j k. address_parts address prot host port \<and>
           host_result cfg (assumed_protocol address prot host) host p' h' \<and>
           pp = Ptr i p' \<and> hp = Ptr j h' \<and> qp = Ptr k (parse_port cfg port)))"

definition copied :: "xworld \<Rightarrow> xworld \<Rightarrow> bool" where
  "copied w u \<longleftrightarrow> kept w u \<and> os_wf u \<and> w_heap u = w_next w # w_heap w \<and> w_next u = Suc (w_next w) \<and>
     mem_ok u = mem_ok w \<and> w_next w \<notin> set (w_heap w)"

lemma copied_log [simp]: "copied w (u\<lparr>w_log := l, w_errno := e\<rparr>) = copied w u"
  by (simp add: copied_def kept_def rest_same_def os_wf_def)

lemma copied_less:
  assumes "copied w u"
  shows "distinct (w_fds w)" "distinct (w_heap w)" "\<And>i. i \<in> set (w_heap w) \<Longrightarrow> i < w_next w"
  using assms by (auto simp: copied_def kept_def os_wf_def less_Suc_eq)

lemma kept_heap [simp]: "kept w (v\<lparr>w_heap := h\<rparr>) = kept w v"
  by (simp add: kept_def rest_same_def)

lemma kept_trans: "kept u v \<Longrightarrow> kept v w \<Longrightarrow> kept u w"
  by (simp add: kept_def rest_same_def)

lemma parse_post_None:
  assumes "copied w u" and "kept u v" and "w_heap v = w_heap u"
    and "(\<nexists>prot host port. address_parts address prot host port) \<or> \<not> mem_ok w"
  shows "wp (free_ptr (Ptr (w_next w) address)) (\<lambda>_. parse_post cfg address w None) v"
proof -
  have "w_heap v = w_next w # w_heap w" and "kept w v"
    using assms kept_trans by (auto simp: copied_def)
  moreover have "os_wf (v\<lparr>w_heap := w_heap w\<rparr>)"
    using copied_less [OF assms(1)] \<open>kept w v\<close> by (auto simp: os_wf_def kept_def dest: less_le_trans)
  ultimately show ?thesis using assms(4) by (simp add: parse_post_def)
qed

lemma parse_post_Some:
  assumes "copied w u" and "kept u v" and "w_heap v = [Suc (Suc i), Suc i, i] @ w_heap u"
    and "w_next v = Suc (Suc (Suc i))" and "i = w_next u"
    and "address_parts address prot host port"
    and "host_result cfg (assumed_protocol address prot host) host p' h'"
  shows "wp (free_ptr (Ptr (w_next w) address)) (\<lambda>_. parse_post cfg address w
    (Some (Ptr i p', Ptr (Suc i) h', Ptr (Suc (Suc i)) (parse_port cfg port)))) v"
proof -
  have heap: "w_heap v = [Suc (Suc i), Suc i, i, w_next w] @ w_heap w" and i: "i = Suc (w_next w)"
    using assms by (simp_all add: copied_def)
  have "kept w v" using assms(1,2) kept_trans by (auto simp: copied_def)
  moreover have "os_wf (v\<lparr>w_heap := [Suc (Suc i), Suc i, i] @ w_heap w\<rparr>)"
    using copied_less [OF assms(1)] assms(4) \<open>kept w v\<close> i
    by (auto simp: os_wf_def kept_def dest: copied_less(3) [OF assms(1)])
  ultimately have "parse_post cfg address w
      (Some (Ptr i p', Ptr (Suc i) h', Ptr (Suc (Suc i)) (parse_port cfg port)))
      (v\<lparr>w_heap := [Suc (Suc i), Suc i, i] @ w_heap w\<rparr>)"
    unfolding parse_post_def using assms(6,7) by auto
  then show ?thesis using heap i by simp
qed

lemma parse_parts_post:
  assumes "copied w u"
  shows "wp (case parse_parts address of
       None \<Rightarrow> do { free_ptr (Ptr (w_next w) address); return None }
     | Some (p, host, port) \<Rightarrow> do {
         (p, host) \<leftarrow> parse_host cfg p host;
         r \<leftarrow> dup_parts p host (parse_port cfg port);
         free_ptr (Ptr (w_next w) address);
         return r
       }) (parse_post cfg address w) u"
proof (cases "parse_parts address")
  case None
  then have "\<nexists>prot host port. address_parts address prot host port"
    using parse_parts_exact [of address] by auto
  then show ?thesis
    using parse_post_None [OF assms, of u address cfg]
    unfolding None option.case wp_bind wp_return by (simp add: kept_def del: wp_free_ptr free_ptr.simps)
next
  case (Some x)
  obtain p host port where x: "x = (p, host, port)" by (cases x) auto
  then obtain prot where parts: "address_parts address prot host port"
      "p = assumed_protocol address prot host"
    using Some parse_parts_exact [of address p host port] by auto
  have dup: "wp (dup_parts p' h' (parse_port cfg port))
      (\<lambda>r. wp (free_ptr (Ptr (w_next w) address)) (\<lambda>_. parse_post cfg address w r)) v"
    if "copied w v" and "host_result cfg p host p' h'" for p' h' v
    using that parts
    by (intro wp_dup_parts parse_post_None [OF that(1)] parse_post_Some [OF that(1)])
      (auto simp: copied_def)
  show ?thesis
    unfolding Some x option.case prod.case wp_bind wp_return
    by (rule wp_parse_host, unfold prod.case wp_bind wp_return, rule dup) (simp_all add: assms)
qed

lemma ParseAddress_spec:
  assumes "os_wf w" and "0 \<le> r_ret (w_env w (w_log w) (Malloc (length address + 1)))"
  shows "wp (ParseAddress cfg address) (parse_post cfg address w) w"
proof -
  have "copied w (w\<lparr>w_log := l, w_errno := e, w_heap := w_next w # w_heap w, w_next := Suc (w_next w)\<rparr>)" for l e
    using assms(1) by (auto simp: copied_def kept_def rest_same_def os_wf_def)
  then show ?thesis
    unfolding ParseAddress_parts wp_bind
    by (intro wp_strdup_mem) (use assms(2) in \<open>simp_all add: parse_parts_post del: wp_option wp_bind\<close>)
qed

lemma mem_ok_first: "mem_ok w \<Longrightarrow> 0 \<le> r_ret (w_env w l (Malloc n))"
  by (simp add: mem_ok_def)

lemma mem_ok_sample [simp]: "mem_ok (sample_world [])"
  by (simp add: mem_ok_def answers_def resp_of_def)





end
