(* ===== verification/XtransFlags.thy ===== *)
theory XtransFlags
  imports XtransParse
begin

unbundle bit_operations_syntax

text \<open>
  Which transports a server listens on (\<open>Received\<close>, \<open>NoListen\<close>, \<open>Listen\<close>, \<open>IsListening\<close> and
  \<open>complete_network_count\<close> of \<open>include/X11/Xtrans/Xtrans.c\<close>). The first three walk over the aliases
  of a transport in the same way, recursively by name, and differ in what they do to the flags.
\<close>

section \<open>The walk over the aliases\<close>

definition name_rank :: "config \<Rightarrow> string \<Rightarrow> nat" where
  "name_rank cfg protocol = (case SelectTransport cfg protocol of
     Some SocketTCPFuncs \<Rightarrow> 10 | Some SocketUNIXFuncs \<Rightarrow> 10 | _ \<Rightarrow> 1)"

lemma nolisten_rank:
  assumes "SelectTransport cfg protocol = Some t"
  shows "(\<Sum>n \<leftarrow> nolisten cfg t. Suc (name_rank cfg n)) < name_rank cfg protocol"
proof (cases t)
  case SocketTCPFuncs
  then show ?thesis using assms by (cases "cfg_ipv6 cfg") (simp_all add: name_rank_def)
qed (use assms in \<open>simp_all add: name_rank_def\<close>)

function walk_aliases :: "config \<Rightarrow> (u32 \<Rightarrow> u32) \<Rightarrow> string \<Rightarrow> int xprog"
  and walk_nolisten :: "config \<Rightarrow> (u32 \<Rightarrow> u32) \<Rightarrow> string list \<Rightarrow> int \<Rightarrow> int xprog"
where
  "walk_aliases cfg upd protocol = (case SelectTransport cfg protocol of
     None \<Rightarrow> return (-1)
   | Some t \<Rightarrow> do {
       fl \<leftarrow> tflags t;
       ret \<leftarrow> (if has fl TRANS_ALIAS then walk_nolisten cfg upd (nolisten cfg t) 0 else return 0);
       fl \<leftarrow> tflags t;
       set_tflags t (upd fl);
       return ret
     })"
| "walk_nolisten cfg upd [] ret = return ret"
| "walk_nolisten cfg upd (name # names) ret = do {
     r \<leftarrow> walk_aliases cfg upd name;
     walk_nolisten cfg upd names (ret OR r)
   }"
  by pat_completeness auto
termination
  by (relation "measure (\<lambda>x. case x of Inl (cfg, upd, protocol) \<Rightarrow> name_rank cfg protocol
      | Inr (cfg, upd, names, ret) \<Rightarrow> (\<Sum>n \<leftarrow> names. Suc (name_rank cfg n)))")
    (use nolisten_rank in auto)

declare walk_aliases.simps [simp del]

definition Received :: "config \<Rightarrow> string \<Rightarrow> int xprog" where
  "Received cfg protocol = walk_aliases cfg (\<lambda>flags. flags OR TRANS_RECEIVED) protocol"

definition NoListen :: "config \<Rightarrow> string \<Rightarrow> int xprog" where
  "NoListen cfg protocol = walk_aliases cfg (\<lambda>flags. flags OR TRANS_NOLISTEN) protocol"

definition Listen :: "config \<Rightarrow> string \<Rightarrow> int xprog" where
  "Listen cfg protocol = walk_aliases cfg (\<lambda>flags. flags AND NOT TRANS_NOLISTEN) protocol"

definition IsListening :: "config \<Rightarrow> string \<Rightarrow> bool xprog" where
  "IsListening cfg protocol = (case SelectTransport cfg protocol of
     None \<Rightarrow> return False
   | Some t \<Rightarrow> do { fl \<leftarrow> tflags t; return (\<not> has fl TRANS_NOLISTEN) })"

section \<open>complete_network_count\<close>

fun network_count :: "(transp \<Rightarrow> u32) \<Rightarrow> (transp \<times> int) list \<Rightarrow> nat \<Rightarrow> bool \<Rightarrow> nat" where
  "network_count flags [] count found_local = count + (if found_local then 1 else 0)"
| "network_count flags ((t, _) # ts) count found_local =
     (if has (flags t) TRANS_ALIAS \<or> has (flags t) TRANS_NOLISTEN
      then network_count flags ts count found_local
      else if has (flags t) TRANS_LOCAL then network_count flags ts count True
      else network_count flags ts (Suc count) found_local)"

definition complete_network_count :: "config \<Rightarrow> nat xprog" where
  "complete_network_count cfg = gets (\<lambda>w. network_count (g_flags w) (Xtransports cfg) 0 False)"

section \<open>What the walk does\<close>

text \<open>The transports that a name stands for, given which of them are aliases.\<close>

definition covers :: "config \<Rightarrow> (transp \<Rightarrow> u32) \<Rightarrow> transp \<Rightarrow> transp set" where
  "covers cfg flags t = insert t (if has (flags t) TRANS_ALIAS
     then {u. \<exists>n \<in> set (nolisten cfg t). SelectTransport cfg n = Some u} else {})"

lemma wp_walk_leaf:
  assumes "nolisten cfg t = []"
  shows "SelectTransport cfg n = Some t \<Longrightarrow> wp (walk_aliases cfg upd n) Q w
    = Q 0 (w\<lparr>g_flags := (g_flags w)(t := upd (g_flags w t))\<rparr>)"
  using assms by (simp add: walk_aliases.simps)

lemmas walk_leaves = wp_walk_leaf [of _ SocketINETFuncs, simplified]
  wp_walk_leaf [of _ SocketINET6Funcs, simplified] wp_walk_leaf [of _ SocketLocalFuncs, simplified]

lemma walk_aliases_spec:
  assumes "SelectTransport cfg protocol = Some t"
  shows "wp (walk_aliases cfg upd protocol) (\<lambda>r w'. r = 0 \<and> w' = w\<lparr>g_flags :=
    (\<lambda>u. if u \<in> covers cfg (g_flags w) t then upd (g_flags w u) else g_flags w u)\<rparr>) w"
proof (cases t)
  case SocketTCPFuncs
  then show ?thesis using assms
    by (subst walk_aliases.simps, cases "cfg_ipv6 cfg")
      (auto simp: walk_leaves covers_def fun_eq_iff intro!: arg_cong [where f = "\<lambda>f. w\<lparr>g_flags := f\<rparr>"])
next
  case SocketUNIXFuncs
  then show ?thesis using assms
    by (subst walk_aliases.simps)
      (auto simp: walk_leaves covers_def fun_eq_iff intro!: arg_cong [where f = "\<lambda>f. w\<lparr>g_flags := f\<rparr>"])
qed (use assms in \<open>auto simp: walk_leaves covers_def fun_eq_iff
      intro!: arg_cong [where f = "\<lambda>f. w\<lparr>g_flags := f\<rparr>"]\<close>)

lemma walk_unknown: "SelectTransport cfg protocol = None \<Longrightarrow> walk_aliases cfg upd protocol = return (-1)"
  by (simp add: walk_aliases.simps)

end
