(* ===== verification/SockOpen.thy ===== *)
theory SockOpen
  imports Xtransutil FdQueue
begin

unbundle bit_operations_syntax

text \<open>
  Opening sockets (\<open>include/X11/Xtrans/Xtranssock.c\<close>, first part): choice of the socket family,
  the address of a socket and of its peer, \<open>SocketOpen\<close>, \<open>SocketReopen\<close> and the three
  \<open>Open\<close>/\<open>Reopen\<close> entries of the transport table. Each function takes the connection it works
  on and returns it with its result; a null \<open>XtransConnInfo\<close> is \<open>None\<close>.
\<close>

section \<open>Families\<close>

definition SocketSelectFamily :: "config \<Rightarrow> int \<Rightarrow> string \<Rightarrow> int" where
  "SocketSelectFamily cfg first family =
     (case find (\<lambda>i. transname (Sockettrans2devtab cfg ! i) = family)
        [nat (first + 1)..<NUMSOCKETFAMILIES cfg] of
        Some i \<Rightarrow> int i
      | None \<Rightarrow> if first = -1 then -2 else -1)"

lemma SocketSelectFamily_bounds:
  assumes "0 \<le> SocketSelectFamily cfg i name"
  shows "i < SocketSelectFamily cfg i name \<and> SocketSelectFamily cfg i name < int (NUMSOCKETFAMILIES cfg)
    \<and> transname (Sockettrans2devtab cfg ! nat (SocketSelectFamily cfg i name)) = name"
proof (cases "find (\<lambda>i. transname (Sockettrans2devtab cfg ! i) = name)
    [nat (i + 1)..<NUMSOCKETFAMILIES cfg]")
  case None
  then show ?thesis using assms by (auto simp: SocketSelectFamily_def split: if_splits)
next
  case (Some k)
  then obtain j where "j < length [nat (i + 1)..<NUMSOCKETFAMILIES cfg]"
      "k = [nat (i + 1)..<NUMSOCKETFAMILIES cfg] ! j" "transname (Sockettrans2devtab cfg ! k) = name"
    unfolding find_Some_iff by blast
  then have "nat (i + 1) \<le> k \<and> k < NUMSOCKETFAMILIES cfg \<and>
      transname (Sockettrans2devtab cfg ! k) = name"
    by auto
  then show ?thesis using Some by (auto simp: SocketSelectFamily_def)
qed

abbreviation fam_of :: "config \<Rightarrow> nat \<Rightarrow> int" where
  "fam_of cfg i \<equiv> td_family (Sockettrans2devtab cfg ! i)"

text \<open>\<open>family == AF_INET\<close>, and with IPv6 also \<open>AF_INET6\<close>.\<close>

definition is_inet :: "config \<Rightarrow> int \<Rightarrow> bool" where
  "is_inet cfg f \<longleftrightarrow> f = AF_INET \<or> (cfg_ipv6 cfg \<and> f = AF_INET6)"

section \<open>Addresses of a socket\<close>

text \<open>
  \<open>getsockname\<close> and \<open>getpeername\<close> store the address, cut to the size of the buffer, and set the
  length to that of the whole address; the copy into the connection takes this many bytes out
  of the zeroed buffer.
\<close>

definition get_name :: "os_call \<Rightarrow> nat \<Rightarrow> ('z, (string \<times> string cptr) option) prog" where
  "get_name call n = do {
     r \<leftarrow> sys call;
     if r_ret r < 0 then return None
     else do {
       let namelen = length (r_data r);
       let sockname = strncpy_bytes n (r_data r);
       do_if (n < namelen) fault;
       p \<leftarrow> malloc_with namelen (take namelen sockname);
       return (Some (sockname, p))
     }
   }"

definition SocketINETGetAddr :: "config \<Rightarrow> conn \<Rightarrow> (int \<times> conn) xprog" where
  "SocketINETGetAddr cfg ciptr = do {
     let n = (if cfg_ipv6 cfg then 128 else 16);
     a \<leftarrow> get_name (Getsockname (c_fd ciptr) n) n;
     case a of
       None \<Rightarrow> return (-1, ciptr)
     | Some (sockname, p) \<Rightarrow>
         (case deref p of
            None \<Rightarrow> return (-1, ciptr\<lparr>c_addr := Null\<rparr>)
          | Some b \<Rightarrow> return (0, ciptr\<lparr>c_addr := p, c_family := int (rd_le16 sockname),
              c_addrlen := int (length b)\<rparr>))
   }"

definition SocketINETGetPeerAddr :: "config \<Rightarrow> conn \<Rightarrow> (int \<times> conn) xprog" where
  "SocketINETGetPeerAddr cfg ciptr = do {
     let n = (if cfg_ipv6 cfg \<and> c_family ciptr = AF_INET6 then 128 else 16);
     a \<leftarrow> get_name (Getpeername (c_fd ciptr) n) n;
     case a of
       None \<Rightarrow> return (-1, ciptr)
     | Some (sockname, p) \<Rightarrow>
         (case deref p of
            None \<Rightarrow> return (-1, ciptr\<lparr>c_peeraddr := Null\<rparr>)
          | Some b \<Rightarrow> return (0, ciptr\<lparr>c_peeraddr := p, c_peeraddrlen := int (length b)\<rparr>))
   }"

section \<open>SocketOpen and SocketReopen\<close>

text \<open>Whether the build checks a new descriptor against \<open>sysconf (_SC_OPEN_MAX)\<close>.\<close>

definition checks_open_max :: "config \<Rightarrow> bool" where
  "checks_open_max cfg \<longleftrightarrow> (cfg_t cfg = X11_t \<and> \<not> cfg_poll cfg) \<or> cfg_t cfg = FS_t \<or> cfg_t cfg = FONT_t"

definition SocketOpen :: "config \<Rightarrow> nat \<Rightarrow> int \<Rightarrow> conn option xprog" where
  "SocketOpen cfg i type = do {
     ciptr \<leftarrow> calloc_conn;
     case ciptr of
       None \<Rightarrow> return None
     | Some ciptr \<Rightarrow> do {
         let d = Sockettrans2devtab cfg ! i;
         fd \<leftarrow> sys_fd (Socket (td_family d) type (td_protocol d));
         let ciptr = ciptr\<lparr>c_fd := fd\<rparr>;
         bad \<leftarrow> (if fd < 0 then return True
                 else if checks_open_max cfg then do {
                   m \<leftarrow> sys Sysconf_open_max;
                   return (fd \<ge> r_ret m)
                 } else return False);
         if bad then do {
           free_block (c_id ciptr);
           return None
         } else do {
           do_if (is_inet cfg (td_family d)) (sys_ignore (Setsockopt fd 6 1 1));
           do_if (td_family d = AF_UNIX) (do {
             v \<leftarrow> sys (Getsockopt fd 1 7);
             do_if (r_ret v = 0 \<and> r_val v < 64 * 1024)
               (sys_ignore (Setsockopt fd 1 7 (64 * 1024)))
           });
           return (Some ciptr)
         }
       }
   }"

text \<open>The port of a reopened connection points into its address: \<open>rindex (addr->sa_data, ':')\<close>.\<close>

definition reopen_port :: "string \<Rightarrow> string cptr" where
  "reopen_port port = (case split_last CHR '':'' port of
     Some (_, num) \<Rightarrow> Inner num
   | None \<Rightarrow> if is_numeric port then Inner port else Null)"

definition SocketReopen :: "config \<Rightarrow> int \<Rightarrow> int \<Rightarrow> string \<Rightarrow> conn option xprog" where
  "SocketReopen cfg type fd port = do {
     let portlen = length port + 1;
     if portlen > 14 then return None
     else do {
       ciptr \<leftarrow> calloc_conn;
       case ciptr of
         None \<Rightarrow> return None
       | Some ciptr \<Rightarrow> do {
           let ciptr = ciptr\<lparr>c_fd := fd\<rparr>;
           let addrlen = portlen + 2;
           let bytes = le16 (nat AF_UNIX) @ strncpy_bytes portlen port;
           addr \<leftarrow> malloc_with addrlen bytes;
           if addr = Null then do {
             free_block (c_id ciptr);
             return None
           } else do {
             peer \<leftarrow> malloc_with addrlen bytes;
             if peer = Null then do {
               free_ptr addr;
               free_block (c_id ciptr);
               return None
             } else do {
               return (Some (ciptr\<lparr>c_addr := addr, c_addrlen := int addrlen,
                 c_peeraddr := peer, c_peeraddrlen := int addrlen,
                 c_flags := TRANS_LOCAL OR TRANS_NOUNLINK, c_family := AF_UNIX, c_port := reopen_port port\<rparr>))
             }
           }
         }
     }
   }"

section \<open>The Open entries of the transports\<close>

text \<open>
  The loop that all three share: try the entries of the table with the given name, from the one
  behind \<open>i\<close> on, until one can be opened; its index is kept for later.
\<close>

function open_loop :: "config \<Rightarrow> string \<Rightarrow> (nat \<Rightarrow> conn option xprog) \<Rightarrow> int \<Rightarrow> (int \<times> conn option) xprog" where
  "open_loop cfg name try_open i =
     (let i' = SocketSelectFamily cfg i name in
      if i' \<ge> 0 then do {
        c \<leftarrow> try_open (nat i');
        case c of
          Some ciptr \<Rightarrow> return (i', Some ciptr)
        | None \<Rightarrow> open_loop cfg name try_open i'
      } else return (i', None))"
  by pat_completeness auto
termination
  by (relation "measure (\<lambda>(cfg, name, try_open, i). nat (int (NUMSOCKETFAMILIES cfg) - i))")
    (auto dest!: SocketSelectFamily_bounds)

declare open_loop.simps [simp del]

definition SocketOpenCOTSClientBase :: "config \<Rightarrow> string \<Rightarrow> int \<Rightarrow> conn option xprog" where
  "SocketOpenCOTSClientBase cfg name previndex = do {
     (i, c) \<leftarrow> open_loop cfg name (\<lambda>i. SocketOpen cfg i (devcotsname (Sockettrans2devtab cfg ! i)))
       previndex;
     return (map_option (\<lambda>ciptr. ciptr\<lparr>c_index := nat i\<rparr>) c)
   }"

definition SocketOpenCOTSClient :: "config \<Rightarrow> transp \<Rightarrow> string \<Rightarrow> string \<Rightarrow> string \<Rightarrow> conn option xprog" where
  "SocketOpenCOTSClient cfg thistrans protocol host port =
     SocketOpenCOTSClientBase cfg (TransName thistrans) (-1)"

definition SocketOpenCOTSServer :: "config \<Rightarrow> transp \<Rightarrow> string \<Rightarrow> string \<Rightarrow> string \<Rightarrow> conn option xprog" where
  "SocketOpenCOTSServer cfg thistrans protocol host port = do {
     (i, c) \<leftarrow> open_loop cfg (TransName thistrans)
       (\<lambda>i. SocketOpen cfg i (devcotsname (Sockettrans2devtab cfg ! i))) (-1);
     case c of
       None \<Rightarrow> return None
     | Some ciptr \<Rightarrow> do {
         do_if (is_inet cfg (fam_of cfg (nat i)))
           (sys_ignore (Setsockopt (c_fd ciptr) 1 2 1));
         do_if (fam_of cfg (nat i) = AF_INET6)
           (sys_ignore (Setsockopt (c_fd ciptr) 41 26 1));
         return (Some (ciptr\<lparr>c_index := nat i\<rparr>))
       }
   }"

definition SocketReopenCOTSServer :: "config \<Rightarrow> transp \<Rightarrow> int \<Rightarrow> string \<Rightarrow> conn option xprog" where
  "SocketReopenCOTSServer cfg thistrans fd port = do {
     (i, c) \<leftarrow> open_loop cfg (TransName thistrans)
       (\<lambda>i. SocketReopen cfg (devcotsname (Sockettrans2devtab cfg ! i)) fd port) (-1);
     return (map_option (\<lambda>ciptr. ciptr\<lparr>c_index := nat i\<rparr>) c)
   }"

definition SocketSetOption :: "conn \<Rightarrow> int \<Rightarrow> int \<Rightarrow> int xprog" where
  "SocketSetOption ciptr option arg = return (-1)"

section \<open>What they do to the process\<close>

lemma wp_get_name:
  assumes "\<And>w'. quiet w w' \<Longrightarrow> Q None w'"
    and "\<And>s w'. quiet w w' \<Longrightarrow> Q (Some (s, Null)) w'"
    and "\<And>s b w'. alloc w w' \<Longrightarrow> Q (Some (s, Ptr (w_next w) b)) w'"
  shows "wp (get_name call n) Q w"
  unfolding get_name_def Let_def
  by (simp, rule wp_sys) (auto intro!: wp_malloc_with assms simp: frame_defs)

lemma wp_SocketINETGetAddr:
  assumes "\<And>w'. quiet w w' \<Longrightarrow> Q (-1, c) w'"
    and "\<And>w'. quiet w w' \<Longrightarrow> Q (-1, c\<lparr>c_addr := Null\<rparr>) w'"
    and "\<And>b fam w'. alloc w w' \<Longrightarrow>
      Q (0, c\<lparr>c_addr := Ptr (w_next w) b, c_family := fam, c_addrlen := int (length b)\<rparr>) w'"
  shows "wp (SocketINETGetAddr cfg c) Q w"
  unfolding SocketINETGetAddr_def Let_def
  by (simp, intro conjI impI wp_get_name) (use assms in auto)

lemma wp_SocketINETGetPeerAddr:
  assumes "\<And>w'. quiet w w' \<Longrightarrow> Q (-1, c) w'"
    and "\<And>w'. quiet w w' \<Longrightarrow> Q (-1, c\<lparr>c_peeraddr := Null\<rparr>) w'"
    and "\<And>b w'. alloc w w' \<Longrightarrow>
      Q (0, c\<lparr>c_peeraddr := Ptr (w_next w) b, c_peeraddrlen := int (length b)\<rparr>) w'"
  shows "wp (SocketINETGetPeerAddr cfg c) Q w"
  unfolding SocketINETGetPeerAddr_def Let_def
  by (simp, intro conjI impI wp_get_name) (use assms in auto)

text \<open>
  \<open>SocketOpen\<close> gives a fresh connection with a fresh descriptor, or nothing. When the build
  checks descriptors against the limit, a descriptor above it is not closed.
\<close>

definition opened :: "xworld \<Rightarrow> xworld \<Rightarrow> conn \<Rightarrow> bool" where
  "opened w w' c \<longleftrightarrow> rest_same w w' \<and> c_fd c = lowest_fd (w_fds w) \<and> w_fds w' = c_fd c # w_fds w \<and>
     c_id c \<notin> set (w_heap w) \<and> w_heap w' = c_id c # w_heap w \<and> c_id c < w_next w' \<and>
     w_next w \<le> w_next w' \<and> c_addr c = Null \<and> c_peeraddr c = Null \<and> c_port c = Null \<and>
     recv_fds c = [] \<and> send_fds c = [] \<and> c_flags c = 0 \<and> w_fault w' = w_fault w"

definition not_opened :: "config \<Rightarrow> xworld \<Rightarrow> xworld \<Rightarrow> bool" where
  "not_opened cfg w w' \<longleftrightarrow> rest_same w w' \<and> w_heap w' = w_heap w \<and> w_next w \<le> w_next w' \<and>
     (\<not> checks_open_max cfg \<longrightarrow> w_fds w' = w_fds w) \<and> set (w_fds w) \<subseteq> set (w_fds w') \<and>
     (distinct (w_fds w) \<longrightarrow> distinct (w_fds w')) \<and> w_fault w' = w_fault w"

lemma SocketOpen_spec:
  assumes "os_wf w"
  shows "wp (SocketOpen cfg i type) (\<lambda>r w'. case r of
      None \<Rightarrow> not_opened cfg w w' \<and> os_wf w' | Some c \<Rightarrow> opened w w' c \<and> os_wf w') w"
  using assms os_wf_fresh [OF assms] os_wf_less [OF assms]
  unfolding SocketOpen_def Let_def
  by (simp, intro wp_calloc_conn; simp)
    (auto intro!: wp_sys_fd wp_sys wp_sys_ignore simp: opened_def not_opened_def rest_same_def os_wf_def)

lemma not_opened_trans:
  "\<not> checks_open_max cfg \<Longrightarrow> not_opened cfg u v \<Longrightarrow> not_opened cfg v w \<Longrightarrow> not_opened cfg u w"
  by (auto simp: not_opened_def rest_same_def)

lemma not_opened_opened:
  "\<not> checks_open_max cfg \<Longrightarrow> not_opened cfg u v \<Longrightarrow> opened v w c \<Longrightarrow> opened u w c"
  by (auto simp: not_opened_def opened_def rest_same_def)

text \<open>
  The loop, once for all openers: \<open>I\<close> holds as long as nothing was opened, \<open>S\<close> of the connection
  that was.
\<close>

lemma open_loop_rule:
  assumes "\<And>i w. I w \<Longrightarrow> wp (f i) (\<lambda>r w'. case r of None \<Rightarrow> I w' | Some c \<Rightarrow> S c w') w"
  shows "I w \<Longrightarrow> wp (open_loop cfg name f i) (\<lambda>(j, r) w'. case r of
       None \<Rightarrow> j < 0 \<and> I w'
     | Some c \<Rightarrow> S c w' \<and> i < j \<and> 0 \<le> j \<and> j < int (NUMSOCKETFAMILIES cfg) \<and>
         transname (Sockettrans2devtab cfg ! nat j) = name) w"
proof (induction "nat (int (NUMSOCKETFAMILIES cfg) - i)" arbitrary: i w rule: less_induct)
  case less
  define j where "j = SocketSelectFamily cfg i name"
  show ?case
  proof (cases "0 \<le> j")
    case True
    then have b: "i < j" "j < int (NUMSOCKETFAMILIES cfg)"
      "transname (Sockettrans2devtab cfg ! nat j) = name"
      using SocketSelectFamily_bounds [of cfg i name] by (auto simp: j_def)
    have next_ok: "wp (open_loop cfg name f j) (\<lambda>(j, r) w'. case r of
           None \<Rightarrow> j < 0 \<and> I w'
         | Some c \<Rightarrow> S c w' \<and> i < j \<and> 0 \<le> j \<and> j < int (NUMSOCKETFAMILIES cfg) \<and>
             transname (Sockettrans2devtab cfg ! nat j) = name) w1"
      if "I w1" for w1
      by (rule less.hyps [OF _ that, THEN wp_mono]) (use b in \<open>auto split: option.splits\<close>)
    show ?thesis
      using True b(1,2) less.prems
      by (subst open_loop.simps)
        (auto simp: j_def [symmetric] Let_def b(3) intro!: assms [THEN wp_mono_option] next_ok)
  next
    case False
    then show ?thesis
      using less.prems by (subst open_loop.simps) (simp add: j_def [symmetric] Let_def)
  qed
qed

lemma open_loop_spec:
  assumes "\<not> checks_open_max cfg" and "os_wf w"
  shows "wp (open_loop cfg name (\<lambda>i. SocketOpen cfg i (type i)) i)
    (\<lambda>(j, r) w'. case r of
       None \<Rightarrow> j < 0 \<and> (not_opened cfg w w' \<and> os_wf w')
     | Some c \<Rightarrow> (opened w w' c \<and> os_wf w') \<and> i < j \<and> 0 \<le> j \<and> j < int (NUMSOCKETFAMILIES cfg) \<and>
         transname (Sockettrans2devtab cfg ! nat j) = name) w"
proof (rule open_loop_rule)
  show "not_opened cfg w w \<and> os_wf w" using assms by (simp add: not_opened_def)
  fix i w1
  assume "not_opened cfg w w1 \<and> os_wf w1"
  then show "wp (SocketOpen cfg i (type i)) (\<lambda>r w'. case r of None \<Rightarrow> not_opened cfg w w' \<and> os_wf w'
      | Some c \<Rightarrow> opened w w' c \<and> os_wf w') w1"
    by (intro SocketOpen_spec [THEN wp_mono_option])
      (auto intro: not_opened_trans [OF assms(1)] not_opened_opened [OF assms(1)])
qed

lemma SocketOpenCOTSClientBase_spec:
  assumes "\<not> checks_open_max cfg" and "os_wf w"
  shows "wp (SocketOpenCOTSClientBase cfg name i) (\<lambda>r w'. case r of
      None \<Rightarrow> not_opened cfg w w' \<and> os_wf w'
    | Some c \<Rightarrow> opened w w' c \<and> os_wf w' \<and> i < int (c_index c) \<and> c_index c < NUMSOCKETFAMILIES cfg \<and>
        transname (Sockettrans2devtab cfg ! c_index c) = name) w"
  unfolding SocketOpenCOTSClientBase_def
  by (simp, rule open_loop_spec [OF assms, THEN wp_mono])
    (auto simp: opened_def split: option.splits)

lemma SocketOpenCOTSServer_spec:
  assumes "\<not> checks_open_max cfg" and "os_wf w"
  shows "wp (SocketOpenCOTSServer cfg t protocol host port) (\<lambda>r w'. case r of
      None \<Rightarrow> not_opened cfg w w' \<and> os_wf w'
    | Some c \<Rightarrow> opened w w' c \<and> os_wf w' \<and> c_index c < NUMSOCKETFAMILIES cfg \<and>
        transname (Sockettrans2devtab cfg ! c_index c) = TransName t) w"
  unfolding SocketOpenCOTSServer_def
  by (simp, rule open_loop_spec [OF assms, THEN wp_mono])
    (auto simp: opened_def rest_same_def os_wf_def split: option.splits intro!: wp_sys_ignore)

section \<open>Reopening\<close>

text \<open>A connection made by \<open>SocketReopen\<close>: its three blocks, its address and its fields.\<close>

definition reopened :: "int \<Rightarrow> string \<Rightarrow> xworld \<Rightarrow> xworld \<Rightarrow> conn \<Rightarrow> bool" where
  "reopened fd port w w' c \<longleftrightarrow> rest_same w w' \<and> w_fds w' = w_fds w \<and> length port \<le> 13 \<and>
     (\<exists>a p. c_addr c = Ptr a (le16 1 @ port @ [NUL]) \<and> c_peeraddr c = Ptr p (le16 1 @ port @ [NUL]) \<and>
        w_heap w' = [p, a, c_id c] @ w_heap w) \<and>
     c_fd c = fd \<and> c_family c = AF_UNIX \<and> c_flags c = TRANS_LOCAL OR TRANS_NOUNLINK \<and>
     c_addrlen c = int (length port + 3) \<and> c_peeraddrlen c = int (length port + 3) \<and>
     blocks (c_port c) = [] \<and> recv_fds c = [] \<and> send_fds c = []"

definition unchanged :: "xworld \<Rightarrow> xworld \<Rightarrow> bool" where
  "unchanged w w' \<longleftrightarrow> rest_same w w' \<and> w_fds w' = w_fds w \<and> w_heap w' = w_heap w \<and>
     w_fault w' = w_fault w"

lemma strncpy_Suc: "strncpy_bytes (Suc (length s)) s = s @ [NUL]"
  by (simp add: strncpy_bytes_def)

lemma blocks_reopen_port [simp]: "blocks (reopen_port port) = []"
  by (simp add: reopen_port_def split: option.split)

lemma SocketReopen_spec:
  assumes "os_wf w"
  shows "wp (SocketReopen cfg type fd port) (\<lambda>r w'. case r of
      None \<Rightarrow> unchanged w w' \<and> os_wf w'
    | Some c \<Rightarrow> reopened fd port w w' c \<and> os_wf w' \<and> w_fault w' = w_fault w) w"
  using assms os_wf_fresh [OF assms] os_wf_less [OF assms]
  unfolding SocketReopen_def Let_def
  by (auto intro!: wp_calloc_conn wp_malloc_with simp: reopened_def unchanged_def rest_same_def
      os_wf_def strncpy_Suc)

lemma SocketReopenCOTSServer_spec:
  assumes "os_wf w"
  shows "wp (SocketReopenCOTSServer cfg t fd port) (\<lambda>r w'. case r of
      None \<Rightarrow> unchanged w w' \<and> os_wf w'
    | Some c \<Rightarrow> reopened fd port w w' c \<and> os_wf w' \<and> w_fault w' = w_fault w \<and>
        transname (Sockettrans2devtab cfg ! c_index c) = TransName t) w"
proof -
  have "wp (open_loop cfg (TransName t) (\<lambda>i. SocketReopen cfg (devcotsname (Sockettrans2devtab cfg ! i))
      fd port) (-1)) (\<lambda>(j, r) w'. case r of
       None \<Rightarrow> j < 0 \<and> (unchanged w w' \<and> os_wf w')
     | Some c \<Rightarrow> (reopened fd port w w' c \<and> os_wf w' \<and> w_fault w' = w_fault w) \<and> -1 < j \<and> 0 \<le> j \<and>
         j < int (NUMSOCKETFAMILIES cfg) \<and>
         transname (Sockettrans2devtab cfg ! nat j) = TransName t) w"
  proof (rule open_loop_rule)
    show "unchanged w w \<and> os_wf w" using assms by (simp add: unchanged_def)
    fix i w1
    assume w1: "unchanged w w1 \<and> os_wf w1"
    then show "wp (SocketReopen cfg (devcotsname (Sockettrans2devtab cfg ! i)) fd port)
        (\<lambda>r w'. case r of None \<Rightarrow> unchanged w w' \<and> os_wf w'
          | Some c \<Rightarrow> reopened fd port w w' c \<and> os_wf w' \<and> w_fault w' = w_fault w) w1"
      by (intro SocketReopen_spec [THEN wp_mono_option])
        (auto simp: unchanged_def reopened_def rest_same_def)
  qed
  then show ?thesis
    unfolding SocketReopenCOTSServer_def
    by simp (erule wp_mono, auto simp: reopened_def split: option.splits)
qed

end
