(* ===== verification/SockListen.thy ===== *)
theory SockListen
  imports SockOpen
begin

unbundle bit_operations_syntax

text \<open>
  Listening sockets (\<open>Xtranssock.c\<close>, second part): the path of a Unix socket, \<open>bind\<close> and
  \<open>listen\<close> with retries, the listeners of the INET and UNIX transports, recreating a Unix socket
  that disappeared, and accepting connections; and \<open>FreeConnInfo\<close> of \<open>Xtrans.c\<close>.
\<close>

section \<open>FreeConnInfo\<close>

definition FreeConnInfo :: "conn \<Rightarrow> unit xprog" where
  "FreeConnInfo ciptr = do {
     free_ptr (c_addr ciptr);
     free_ptr (c_peeraddr ciptr);
     free_ptr (c_port ciptr);
     free_block (c_id ciptr)
   }"

section \<open>set_sun_path\<close>

text \<open>The new contents of \<open>path\<close>, a buffer of 108 bytes; \<open>None\<close> for the result -1.\<close>

definition set_sun_path :: "string \<Rightarrow> string \<Rightarrow> bool \<Rightarrow> string option" where
  "set_sun_path port upath abstract =
     (let maxlen = 107 in
      if port = [] then None
      else
        let (upath, at) = (if hd port = CHR ''@'' then ([], [])
              else if abstract then (upath, ''@'') else (upath, []));
            upath = (if hd port = CHR ''/'' then [] else upath)
        in if length port + length upath > maxlen then None
           else Some (snprintf_s 108 (at @ upath @ port)))"

section \<open>SocketCreateListener\<close>

text \<open>The loop around \<open>bind\<close>: 0 to go on, or the error code to return.\<close>

fun bind_loop :: "int \<Rightarrow> string \<Rightarrow> u32 \<Rightarrow> nat \<Rightarrow> int xprog" where
  "bind_loop fd sockname flags retry = do {
     r \<leftarrow> sys (Bind fd sockname);
     if r_ret r < 0 then do {
       e \<leftarrow> gets w_errno;
       if e = EADDRINUSE then
         (if has flags ADDR_IN_USE_ALLOWED then return 0 else return TRANS_ADDR_IN_USE)
       else
         (case retry of
            0 \<Rightarrow> do { _ \<leftarrow> c_close fd; return TRANS_CREATE_LISTENER_FAILED }
          | Suc n \<Rightarrow> do { sys_ignore (Sleep 1); bind_loop fd sockname flags n })
     } else return 0
   }"

declare bind_loop.simps [simp del]

abbreviation BACKLOG :: int where "BACKLOG \<equiv> 128"

definition SocketCreateListener :: "config \<Rightarrow> conn \<Rightarrow> string \<Rightarrow> u32 \<Rightarrow> (int \<times> conn) xprog" where
  "SocketCreateListener cfg ciptr sockname flags = do {
     let fd = c_fd ciptr;
     let inet = is_inet cfg (fam_of cfg (c_index ciptr));
     let retry = (if inet then 20 else 0);
     b \<leftarrow> bind_loop fd sockname flags retry;
     if b < 0 then return (b, ciptr)
     else do {
       do_if inet (sys_ignore (Setsockopt fd 1 13 0));
       l \<leftarrow> sys (ListenC fd BACKLOG);
       if r_ret l < 0 then do {
         _ \<leftarrow> c_close fd;
         return (TRANS_CREATE_LISTENER_FAILED, ciptr)
       } else return (0, ciptr\<lparr>c_flags := 1 OR (c_flags ciptr AND (TRANS_NOUNLINK OR TRANS_ABSTRACT))\<rparr>)
     }
   }"

section \<open>SocketINETCreateListener\<close>

text \<open>A sum of type \<open>long\<close>; what overflows wraps.\<close>

definition long_wrap :: "int \<Rightarrow> int" where
  "long_wrap x = (x + 2 ^ 63) mod 2 ^ 64 - 2 ^ 63"

text \<open>
  The port string of an X display number: \<open>X_TCP_PORT\<close> is added to it. Other strings, and other
  clients of the library, are left alone; the X library passes no null pointer.
\<close>

definition fixup_port :: "config \<Rightarrow> string option \<Rightarrow> ('z, string option) prog" where
  "fixup_port cfg port =
     (if cfg_t cfg = X11_t then
        (case port of
           None \<Rightarrow> do { fault; return None }
         | Some p \<Rightarrow> return (Some (if is_numeric p
             then snprintf_s 32 (print_lu (long_wrap (X_TCP_PORT + strtol p))) else p)))
      else return port)"

definition inet_any :: "nat \<Rightarrow> string" where
  "inet_any sport = le16 2 @ be16 sport @ replicate 12 NUL"

definition inet6_any :: "nat \<Rightarrow> string" where
  "inet6_any sport = le16 10 @ be16 sport @ replicate 24 NUL"

text \<open>The second half of \<open>SocketINETCreateListener\<close>, once the port number is known.\<close>

definition inet_listen_at :: "config \<Rightarrow> conn \<Rightarrow> nat \<Rightarrow> u32 \<Rightarrow> (int \<times> conn) xprog" where
  "inet_listen_at cfg ciptr sport flags = do {
     let sockname = (if \<not> cfg_ipv6 cfg \<or> fam_of cfg (c_index ciptr) = AF_INET
                     then inet_any sport else inet6_any sport);
     (status, ciptr) \<leftarrow> SocketCreateListener cfg ciptr sockname flags;
     if status < 0 then return (status, ciptr)
     else do {
       (r, ciptr) \<leftarrow> SocketINETGetAddr cfg ciptr;
       return (if r < 0 then TRANS_CREATE_LISTENER_FAILED else 0, ciptr)
     }
   }"

definition SocketINETCreateListener :: "config \<Rightarrow> conn \<Rightarrow> string option \<Rightarrow> u32 \<Rightarrow> (int \<times> conn) xprog" where
  "SocketINETCreateListener cfg ciptr port flags = do {
     port \<leftarrow> fixup_port cfg port;
     sport \<leftarrow> (case port of
         None \<Rightarrow> return (Some 0)
       | Some p \<Rightarrow>
           if p = [] then return (Some 0)
           else if \<not> is_numeric p then do {
             servp \<leftarrow> sys (Getservbyname p ''tcp'');
             return (if r_ret servp < 0 then None else Some (nat (r_val servp mod 65536)))
           } else do {
             let tmpport = strtol p;
             return (if tmpport < 1024 \<or> tmpport > USHRT_MAX then None else Some (nat tmpport))
           });
     case sport of
       None \<Rightarrow> return (TRANS_CREATE_LISTENER_FAILED, ciptr)
     | Some sport \<Rightarrow> inet_listen_at cfg ciptr sport flags
   }"

section \<open>SocketUNIXCreateListener and SocketUNIXResetListener\<close>

definition dir_mode :: "config \<Rightarrow> u32" where
  "dir_mode cfg = (if cfg_sticky cfg then 0x3ff else 0x1ff)"

definition sockaddr_un :: "string \<Rightarrow> string" where
  "sockaddr_un path = le16 1 @ strncpy_bytes 108 path"

text \<open>
  The second half of \<open>SocketUNIXCreateListener\<close>: listen at a path, remember the address (with
  an \<open>@\<close> for the null of an abstract one) and restore the mask.
\<close>

definition unix_listen_at :: "config \<Rightarrow> conn \<Rightarrow> string \<Rightarrow> bool \<Rightarrow> u32 \<Rightarrow> u32 \<Rightarrow> (int \<times> conn) xprog" where
  "unix_listen_at cfg ciptr path abstract flags oldUmask = do {
     let sockname = le16 1 @ (if abstract then NUL # tl path else path);
     do_if (\<not> abstract) (sys_ignore (Unlink path));
     (status, ciptr) \<leftarrow> SocketCreateListener cfg ciptr sockname flags;
     if status < 0 then do {
       _ \<leftarrow> c_umask oldUmask;
       return (status, ciptr)
     } else do {
       let path = (if abstract then CHR ''@'' # tl path else path);
       addr \<leftarrow> malloc_with 110 (sockaddr_un path);
       if addr = Null then do {
         _ \<leftarrow> c_umask oldUmask;
         return (TRANS_CREATE_LISTENER_FAILED, ciptr\<lparr>c_addr := Null\<rparr>)
       } else do {
         _ \<leftarrow> c_umask oldUmask;
         return (0, ciptr\<lparr>c_addr := addr, c_family := AF_UNIX, c_addrlen := 110\<rparr>)
       }
     }
   }"

definition SocketUNIXCreateListener :: "config \<Rightarrow> conn \<Rightarrow> string option \<Rightarrow> u32 \<Rightarrow> (int \<times> conn) xprog" where
  "SocketUNIXCreateListener cfg ciptr port flags = do {
     t \<leftarrow> trans_of ciptr;
     fl \<leftarrow> tflags t;
     let abstract = has fl TRANS_ABSTRACT;
     oldUmask \<leftarrow> c_umask 0;
     mk \<leftarrow> (if abstract then return 0 else trans_mkdir cfg (UNIX_DIR cfg) (dir_mode cfg));
     if mk = -1 then do {
       _ \<leftarrow> c_umask oldUmask;
       return (TRANS_CREATE_LISTENER_FAILED, ciptr)
     } else do {
       port \<leftarrow> (case port of
           Some p \<Rightarrow> if p \<noteq> [] then return p
             else do { pid \<leftarrow> sys Getpid; return (snprintf_s 108 (UNIX_PATH cfg @ print_d (r_ret pid))) }
         | None \<Rightarrow> do { pid \<leftarrow> sys Getpid; return (snprintf_s 108 (UNIX_PATH cfg @ print_d (r_ret pid))) });
       case set_sun_path port (UNIX_PATH cfg) abstract of
         None \<Rightarrow> return (TRANS_CREATE_LISTENER_FAILED, ciptr)
       | Some path \<Rightarrow> unix_listen_at cfg ciptr path abstract flags oldUmask
     }
   }"

definition S_ISSOCK :: "u32 \<Rightarrow> bool" where
  "S_ISSOCK mode \<longleftrightarrow> mode AND 0xf000 = 0xc000"

definition SocketUNIXResetListener :: "config \<Rightarrow> conn \<Rightarrow> (int \<times> conn) xprog" where
  "SocketUNIXResetListener cfg ciptr = do {
     t \<leftarrow> trans_of ciptr;
     fl \<leftarrow> tflags t;
     let abstract = has fl TRANS_ABSTRACT;
     gone \<leftarrow> (if abstract then return False
       else do {
         path \<leftarrow> cstr_at (c_addr ciptr) 2;
         s \<leftarrow> sys (Stat path);
         return (r_ret s = -1 \<or> \<not> S_ISSOCK (st_mode (r_stat s)))
       });
     if gone then do {
       oldUmask \<leftarrow> c_umask 0;
       mk \<leftarrow> trans_mkdir cfg (UNIX_DIR cfg) (dir_mode cfg);
       if mk = -1 then do {
         _ \<leftarrow> c_umask oldUmask;
         return (TRANS_RESET_FAILURE, ciptr)
       } else do {
         _ \<leftarrow> c_close (c_fd ciptr);
         path \<leftarrow> cstr_at (c_addr ciptr) 2;
         sys_ignore (Unlink path);
         fd \<leftarrow> sys_fd (Socket AF_UNIX SOCK_STREAM 0);
         let ciptr = ciptr\<lparr>c_fd := fd\<rparr>;
         if fd < 0 then do {
           FreeConnInfo ciptr;
           _ \<leftarrow> c_umask oldUmask;
           return (TRANS_RESET_FAILURE, ciptr)
         } else do {
           unsock \<leftarrow> memcpy_from (c_addr ciptr) (nat (c_addrlen ciptr));
           b \<leftarrow> sys (Bind fd unsock);
           if r_ret b < 0 then do {
             _ \<leftarrow> c_close fd;
             FreeConnInfo ciptr;
             return (TRANS_RESET_FAILURE, ciptr)
           } else do {
             l \<leftarrow> sys (ListenC fd BACKLOG);
             if r_ret l < 0 then do {
               _ \<leftarrow> c_close fd;
               FreeConnInfo ciptr;
               _ \<leftarrow> c_umask oldUmask;
               return (TRANS_RESET_FAILURE, ciptr)
             } else do {
               _ \<leftarrow> c_umask oldUmask;
               return (TRANS_RESET_NEW_FD, ciptr)
             }
           }
         }
       }
     } else return (TRANS_RESET_NOOP, ciptr)
   }"

section \<open>Accepting\<close>

definition SocketINETAccept :: "config \<Rightarrow> conn \<Rightarrow> (conn option \<times> int) xprog" where
  "SocketINETAccept cfg ciptr = do {
     n \<leftarrow> calloc_conn;
     case n of
       None \<Rightarrow> return (None, TRANS_ACCEPT_BAD_MALLOC)
     | Some newciptr \<Rightarrow> do {
         fd \<leftarrow> sys_fd (AcceptC (c_fd ciptr));
         let newciptr = newciptr\<lparr>c_fd := fd\<rparr>;
         if fd < 0 then do {
           free_block (c_id newciptr);
           return (None, TRANS_ACCEPT_FAILED)
         } else do {
           sys_ignore (Setsockopt fd 6 1 1);
           (r, newciptr) \<leftarrow> SocketINETGetAddr cfg newciptr;
           if r < 0 then do {
             _ \<leftarrow> c_close (c_fd newciptr);
             free_block (c_id newciptr);
             return (None, TRANS_ACCEPT_MISC_ERROR)
           } else do {
             (r, newciptr) \<leftarrow> SocketINETGetPeerAddr cfg newciptr;
             if r < 0 then do {
               _ \<leftarrow> c_close (c_fd newciptr);
               free_ptr (c_addr newciptr);
               free_block (c_id newciptr);
               return (None, TRANS_ACCEPT_MISC_ERROR)
             } else return (Some newciptr, 0)
           }
         }
       }
   }"

text \<open>The listener is returned too: its address length is set to that of the peer's address.\<close>

definition SocketUNIXAccept :: "config \<Rightarrow> conn \<Rightarrow> (conn option \<times> int \<times> conn) xprog" where
  "SocketUNIXAccept cfg ciptr = do {
     n \<leftarrow> calloc_conn;
     case n of
       None \<Rightarrow> return (None, TRANS_ACCEPT_BAD_MALLOC, ciptr)
     | Some newciptr \<Rightarrow> do {
         r \<leftarrow> sys (AcceptC (c_fd ciptr));
         if r_ret r < 0 then do {
           free_block (c_id newciptr);
           return (None, TRANS_ACCEPT_FAILED, ciptr)
         } else do {
           fd \<leftarrow> new_fd;
           let newciptr = newciptr\<lparr>c_fd := fd\<rparr>;
           let namelen = length (r_data r);
           let ciptr = ciptr\<lparr>c_addrlen := int namelen\<rparr>;
           a \<leftarrow> malloc namelen;
           case a of
             None \<Rightarrow> do {
               _ \<leftarrow> c_close fd;
               free_block (c_id newciptr);
               return (None, TRANS_ACCEPT_BAD_MALLOC, ciptr)
             }
           | Some a \<Rightarrow> do {
               bytes \<leftarrow> memcpy_from (c_addr ciptr) namelen;
               p \<leftarrow> malloc namelen;
               case p of
                 None \<Rightarrow> do {
                   _ \<leftarrow> c_close fd;
                   free_block a;
                   free_block (c_id newciptr);
                   return (None, TRANS_ACCEPT_BAD_MALLOC, ciptr)
                 }
               | Some p \<Rightarrow>
                   return (Some (newciptr\<lparr>c_addr := Ptr a bytes, c_addrlen := int namelen,
                     c_peeraddr := Ptr p bytes, c_peeraddrlen := int namelen,
                     c_family := AF_UNIX\<rparr>), 0, ciptr)
             }
         }
       }
   }"

end
