(* ===== verification/SockIO.thy ===== *)
theory SockIO
  imports SockListen
begin

unbundle bit_operations_syntax

text \<open>
  Reading, writing and closing (\<open>Xtranssock.c\<close>, last part): the number of readable bytes, the
  passing of descriptors over a Unix socket, \<open>SocketRead\<close>, \<open>SocketReadv\<close>, \<open>SocketWrite\<close> and
  \<open>SocketWritev\<close>, and the ways to close a connection. A buffer that is filled is returned as the
  bytes stored in it; an I/O vector is the list of its buffers.
\<close>

section \<open>Readable bytes\<close>

abbreviation (input) FIONREAD :: int where "FIONREAD \<equiv> 0x541B"

text \<open>The result and what is stored in \<open>pend\<close>.\<close>

definition SocketBytesReadable :: "conn \<Rightarrow> (int \<times> int) xprog" where
  "SocketBytesReadable ciptr = do {
     r \<leftarrow> sys (Ioctl (c_fd ciptr) FIONREAD);
     return (r_ret r, r_val r)
   }"

section \<open>Passing descriptors\<close>

definition SocketRecvFd :: "conn \<Rightarrow> (int \<times> conn) xprog" where
  "SocketRecvFd ciptr = do {
     (fd, q) \<leftarrow> removeFd (recv_fds ciptr);
     return (fd, ciptr\<lparr>recv_fds := q\<rparr>)
   }"

definition SocketSendFd :: "conn \<Rightarrow> int \<Rightarrow> bool \<Rightarrow> (int \<times> conn) xprog" where
  "SocketSendFd ciptr fd do_close = do {
     q \<leftarrow> appendFd (send_fds ciptr) fd do_close;
     return (0, ciptr\<lparr>send_fds := q\<rparr>)
   }"

definition SocketRecvFdInvalid :: "conn \<Rightarrow> (int \<times> conn) xprog" where
  "SocketRecvFdInvalid ciptr = do { set_errno EINVAL; return (-1, ciptr) }"

definition SocketSendFdInvalid :: "conn \<Rightarrow> int \<Rightarrow> bool \<Rightarrow> (int \<times> conn) xprog" where
  "SocketSendFdInvalid ciptr fd do_close = do { set_errno EINVAL; return (-1, ciptr) }"

abbreviation (input) MAX_FDS :: nat where "MAX_FDS \<equiv> 128"
abbreviation (input) SOL_SOCKET :: int where "SOL_SOCKET \<equiv> 1"
abbreviation (input) SCM_RIGHTS :: int where "SCM_RIGHTS \<equiv> 1"

section \<open>Reading\<close>

text \<open>
  The system opens the descriptors of the \<open>SCM_RIGHTS\<close> messages that came with the data before
  the call returns; each control message is given with its level, type and descriptors.
\<close>

fun new_fds :: "nat \<Rightarrow> ('z, int list) prog" where
  "new_fds 0 = return []"
| "new_fds (Suc n) = do { fd \<leftarrow> new_fd; fds \<leftarrow> new_fds n; return (fd # fds) }"

fun install_rights :: "(int \<times> int \<times> nat) list \<Rightarrow> ('z, (int \<times> int \<times> int list) list) prog" where
  "install_rights [] = return []"
| "install_rights ((level, type, n) # ms) = do {
     fds \<leftarrow> (if level = SOL_SOCKET \<and> type = SCM_RIGHTS then new_fds n else return []);
     hdrs \<leftarrow> install_rights ms;
     return ((level, type, fds) # hdrs)
   }"

fun appendFds :: "connfd list \<Rightarrow> int list \<Rightarrow> ('z, connfd list) prog" where
  "appendFds q [] = return q"
| "appendFds q (fd # fds) = do { q \<leftarrow> appendFd q fd False; appendFds q fds }"

text \<open>The loop over the control message headers.\<close>

fun collect_fds :: "connfd list \<Rightarrow> (int \<times> int \<times> int list) list \<Rightarrow> ('z, connfd list) prog" where
  "collect_fds q [] = return q"
| "collect_fds q ((level, type, fds) # hdrs) = do {
     q \<leftarrow> (if level = SOL_SOCKET \<and> type = SCM_RIGHTS then appendFds q fds else return q);
     collect_fds q hdrs
   }"

definition recvmsg_fds :: "conn \<Rightarrow> nat \<Rightarrow> (int \<times> string \<times> conn) xprog" where
  "recvmsg_fds ciptr len = do {
     r \<leftarrow> sys (Recvmsg (c_fd ciptr) len);
     if 0 \<le> r_ret r then do {
       hdrs \<leftarrow> install_rights (r_cmsgs r);
       q \<leftarrow> collect_fds (recv_fds ciptr) hdrs;
       return (r_ret r, take len (r_data r), ciptr\<lparr>recv_fds := q\<rparr>)
     } else return (r_ret r, [], ciptr)
   }"

definition SocketRead :: "config \<Rightarrow> conn \<Rightarrow> nat \<Rightarrow> (int \<times> string \<times> conn) xprog" where
  "SocketRead cfg ciptr len =
     (if cfg_send_fds cfg then recvmsg_fds ciptr len
      else do {
        r \<leftarrow> sys (ReadC (c_fd ciptr) len);
        return (r_ret r, if 0 \<le> r_ret r then take len (r_data r) else [], ciptr)
      })"

text \<open>The vector is given by the sizes of its buffers, which are filled one after another.\<close>

definition SocketReadv :: "config \<Rightarrow> conn \<Rightarrow> nat list \<Rightarrow> (int \<times> string \<times> conn) xprog" where
  "SocketReadv cfg ciptr sizes =
     (if cfg_send_fds cfg then recvmsg_fds ciptr (sum_list sizes)
      else do {
        r \<leftarrow> sys (ReadC (c_fd ciptr) (sum_list sizes));
        return (r_ret r, if 0 \<le> r_ret r then take (sum_list sizes) (r_data r) else [], ciptr)
      })"

section \<open>Writing\<close>

text \<open>
  The control buffer has room for \<open>MAX_FDS\<close> descriptors; storing more writes past its end. The
  walk over the queue ends behind its last node, so that all of it is discarded.
\<close>

definition SocketWritev :: "config \<Rightarrow> conn \<Rightarrow> string list \<Rightarrow> (int \<times> conn) xprog" where
  "SocketWritev cfg ciptr bufs =
     (if cfg_send_fds cfg \<and> send_fds ciptr \<noteq> [] then do {
        let nfd = nFd (send_fds ciptr);
        do_if (MAX_FDS < nfd) fault;
        r \<leftarrow> sys (Sendmsg (c_fd ciptr) bufs (map cf_fd (send_fds ciptr)));
        if 0 < r_ret r then do {
          q \<leftarrow> discardFd (send_fds ciptr) None False;
          return (r_ret r, ciptr\<lparr>send_fds := q\<rparr>)
        } else return (r_ret r, ciptr)
      } else do {
        r \<leftarrow> sys (WritevC (c_fd ciptr) bufs);
        return (r_ret r, ciptr)
      })"

definition SocketWrite :: "config \<Rightarrow> conn \<Rightarrow> string \<Rightarrow> (int \<times> conn) xprog" where
  "SocketWrite cfg ciptr buf =
     (if cfg_send_fds cfg \<and> send_fds ciptr \<noteq> [] then SocketWritev cfg ciptr [buf]
      else do {
        r \<leftarrow> sys (WriteC (c_fd ciptr) buf);
        return (r_ret r, ciptr)
      })"

section \<open>Closing\<close>

definition SocketDisconnect :: "conn \<Rightarrow> int xprog" where
  "SocketDisconnect ciptr = do { r \<leftarrow> sys (Shutdown (c_fd ciptr) 2); return (r_ret r) }"

definition SocketINETClose :: "conn \<Rightarrow> (int \<times> conn) xprog" where
  "SocketINETClose ciptr = do { ret \<leftarrow> c_close (c_fd ciptr); return (ret, ciptr) }"

text \<open>Whether \<open>sockname\<close> is the address of a Unix socket with a path; it reads three bytes.\<close>

definition names_path :: "string cptr \<Rightarrow> bool xprog" where
  "names_path sockname =
     (if sockname = Null then return False
      else do {
        b \<leftarrow> memcpy_from sockname 3;
        return (int (rd_le16 b) = AF_UNIX \<and> b ! 2 \<noteq> NUL)
      })"

definition SocketUNIXClose :: "config \<Rightarrow> conn \<Rightarrow> (int \<times> conn) xprog" where
  "SocketUNIXClose cfg ciptr = do {
     ciptr \<leftarrow> (if cfg_send_fds cfg then cleanupFds ciptr else return ciptr);
     ret \<leftarrow> c_close (c_fd ciptr);
     named \<leftarrow> (if c_flags ciptr \<noteq> 0 then names_path (c_addr ciptr) else return False);
     do_if named (do {
       keep \<leftarrow> (if has (c_flags ciptr) TRANS_NOUNLINK then return True
               else do { t \<leftarrow> trans_of ciptr; fl \<leftarrow> tflags t; return (has fl TRANS_ABSTRACT) });
       do_if (\<not> keep) (do { path \<leftarrow> cstr_at (c_addr ciptr) 2; sys_ignore (Unlink path) })
     });
     return (ret, ciptr)
   }"

definition SocketUNIXCloseForCloning :: "config \<Rightarrow> conn \<Rightarrow> (int \<times> conn) xprog" where
  "SocketUNIXCloseForCloning cfg ciptr = do {
     ciptr \<leftarrow> (if cfg_send_fds cfg then cleanupFds ciptr else return ciptr);
     ret \<leftarrow> c_close (c_fd ciptr);
     return (ret, ciptr)
   }"

end
