(* ===== verification/SockConn.thy ===== *)
theory SockConn
  imports SockIO
begin

unbundle bit_operations_syntax

text \<open>
  Connecting (\<open>SocketINETConnect\<close>, \<open>UnixHostReallyLocal\<close> and \<open>SocketUNIXConnect\<close> of
  \<open>Xtranssock.c\<close>). The address list that \<open>SocketINETConnect\<close> keeps between calls is part of the
  global state; a position in it is the rest of the list from there on, the empty list standing
  for the null pointer at its end.
\<close>

section \<open>SocketINETConnect: the host and port\<close>

definition connect_host :: "config \<Rightarrow> string option \<Rightarrow> ('z, string) prog" where
  "connect_host cfg host = (case host of Some h \<Rightarrow> return h | None \<Rightarrow> GetHostname cfg 256)"

definition connect_port :: "config \<Rightarrow> string \<Rightarrow> string" where
  "connect_port cfg port = (if cfg_t cfg = X11_t \<and> is_numeric port
     then snprintf_s 32 (print_lu (long_wrap (X_TCP_PORT + strtol port))) else port)"

section \<open>SocketINETConnect: looking up the addresses\<close>

text \<open>
  The cached list is dropped when it belongs to another host or port (their stored copies are cut
  to 63 and 31 characters); without one, the name is looked up. \<open>None\<close> is a failed lookup. The
  allocation of the cache itself is not checked.
\<close>

definition drop_stale :: "string \<Rightarrow> string \<Rightarrow> addrlist \<Rightarrow> addrlist xprog" where
  "drop_stale host port al =
     (if host \<noteq> al_host al \<or> port \<noteq> al_port al then do {
        (case al_first al of Some (i, _) \<Rightarrow> do { sys_ignore Freeaddrinfo; free_block i }
         | None \<Rightarrow> return ());
        return (al\<lparr>al_first := None\<rparr>)
      } else return al)"

definition get_addrlist :: "string \<Rightarrow> string \<Rightarrow> addrlist option xprog" where
  "get_addrlist host port = do {
     g \<leftarrow> gets g_addrlist;
     case g of
       Some al \<Rightarrow> do { al \<leftarrow> drop_stale host port al; return (Some al) }
     | None \<Rightarrow> do {
         b \<leftarrow> malloc 112;
         case b of
           None \<Rightarrow> do { fault; return None }
         | Some i \<Rightarrow> return (Some \<lparr>al_id = i, al_addr = [], al_first = None, al_port = [], al_host = []\<rparr>)
       }
   }"

definition set_addrlist :: "addrlist \<Rightarrow> unit xprog" where
  "set_addrlist al = modify (g_addrlist_update (\<lambda>_. Some al))"

definition lookup_addrs :: "config \<Rightarrow> conn \<Rightarrow> string \<Rightarrow> string \<Rightarrow> addrlist \<Rightarrow> addrlist option xprog" where
  "lookup_addrs cfg ciptr host port al =
     (case al_first al of
        Some _ \<Rightarrow> return (Some al)
      | None \<Rightarrow> do {
          let al = al\<lparr>al_port := snprintf_s 32 port, al_host := snprintf_s 64 host\<rparr>;
          r \<leftarrow> sys (Getaddrinfo host (Some port) (devcotsname (Sockettrans2devtab cfg ! c_index ciptr)));
          if r_ret r \<noteq> 0 then do { set_addrlist al; set_errno EINVAL; return None }
          else do {
            i \<leftarrow> new_block;
            return (Some (al\<lparr>al_first := Some (i, r_addrs r), al_addr := []\<rparr>))
          }
        })"

section \<open>SocketINETConnect: choosing an address\<close>

text \<open>
  An address of the other family than the socket's is used only for \<open>tcp\<close>, on a new socket that
  replaces the connection's descriptor. The index of the connection stays as it is.
\<close>

definition replace_socket :: "config \<Rightarrow> conn \<Rightarrow> int \<Rightarrow> int \<Rightarrow> (bool \<times> conn) xprog" where
  "replace_socket cfg ciptr previndex family =
     (if transname (Sockettrans2devtab cfg ! c_index ciptr) = ''tcp'' then do {
        (_, ciptr) \<leftarrow> SocketINETClose ciptr;
        n \<leftarrow> SocketOpenCOTSClientBase cfg ''tcp'' previndex;
        case n of
          None \<Rightarrow> return (False, ciptr)
        | Some newciptr \<Rightarrow> do {
            let ciptr = ciptr\<lparr>c_fd := c_fd newciptr\<rparr>;
            free_block (c_id newciptr);
            return (fam_of cfg (c_index newciptr) = family, ciptr)
          }
      } else return (False, ciptr))"

definition use_addr :: "config \<Rightarrow> conn \<Rightarrow> addrinfo \<Rightarrow> (bool \<times> conn) xprog" where
  "use_addr cfg ciptr a =
     (if ai_family a = AF_INET then
        (if fam_of cfg (c_index ciptr) = AF_INET6
         then replace_socket cfg ciptr (int (c_index ciptr)) AF_INET else return (True, ciptr))
      else if ai_family a = AF_INET6 then
        (if fam_of cfg (c_index ciptr) = AF_INET
         then replace_socket cfg ciptr (-1) AF_INET6 else return (True, ciptr))
      else return (False, ciptr))"

text \<open>
  \<open>while (socketaddr == NULL)\<close>: go on from the current position, once back to the beginning; the
  result is the position of the address to use, \<open>None\<close> when the whole list has none.
\<close>

function pick_addr :: "config \<Rightarrow> addrinfo list \<Rightarrow> bool \<Rightarrow> conn \<Rightarrow> addrinfo list \<Rightarrow>
    (addrinfo list option \<times> conn) xprog" where
  "pick_addr cfg firstaddr resetonce ciptr addr =
     (if addr = [] \<and> resetonce then return (None, ciptr)
      else case (if addr = [] then firstaddr else addr) of
        [] \<Rightarrow> do { fault; return (None, ciptr) }
      | a # ai_next \<Rightarrow> do {
          (usable, ciptr) \<leftarrow> use_addr cfg ciptr a;
          if usable then return (Some (a # ai_next), ciptr)
          else pick_addr cfg firstaddr (resetonce \<or> addr = []) ciptr ai_next
        })"
  by pat_completeness auto
termination
  by (relation "measures [\<lambda>(cfg, firstaddr, resetonce, ciptr, addr). if resetonce then 0 else 1,
      \<lambda>(cfg, firstaddr, resetonce, ciptr, addr). length addr]")
    (auto split: if_splits)

declare pick_addr.simps [simp del]

section \<open>SocketINETConnect: connecting\<close>

text \<open>\<open>others\<close>: there are other addresses to try.\<close>

definition connect_errno :: "bool \<Rightarrow> int \<Rightarrow> int" where
  "connect_errno others olderrno =
     (if olderrno = ECONNREFUSED \<or> olderrno = EINTR \<or>
         (others \<and> (olderrno = ENETUNREACH \<or> olderrno = EAFNOSUPPORT \<or> olderrno = EADDRNOTAVAIL \<or>
           olderrno = ETIMEDOUT \<or> olderrno = EHOSTDOWN))
      then TRANS_TRY_CONNECT_AGAIN
      else if olderrno = EWOULDBLOCK \<or> olderrno = EINPROGRESS then TRANS_IN_PROGRESS
      else TRANS_CONNECT_FAILED)"

definition inet_connect_to :: "config \<Rightarrow> conn \<Rightarrow> string \<Rightarrow> bool \<Rightarrow> (int \<times> conn) xprog" where
  "inet_connect_to cfg ciptr socketaddr others = do {
     sys_ignore (Setsockopt (c_fd ciptr) 1 9 1);
     r \<leftarrow> sys (ConnectC (c_fd ciptr) socketaddr);
     if r_ret r < 0 then do {
       olderrno \<leftarrow> gets w_errno;
       return (connect_errno others olderrno, ciptr)
     } else do {
       (r, ciptr) \<leftarrow> SocketINETGetAddr cfg ciptr;
       if r < 0 then return (TRANS_CONNECT_FAILED, ciptr)
       else do {
         (r, ciptr) \<leftarrow> SocketINETGetPeerAddr cfg ciptr;
         return (if r < 0 then TRANS_CONNECT_FAILED else 0, ciptr)
       }
     }
   }"

text \<open>With IPv6: by the address list.\<close>

definition inet_connect_list :: "config \<Rightarrow> conn \<Rightarrow> string \<Rightarrow> string \<Rightarrow> (int \<times> conn) xprog" where
  "inet_connect_list cfg ciptr host port = do {
     g \<leftarrow> get_addrlist host port;
     case g of
       None \<Rightarrow> return (TRANS_CONNECT_FAILED, ciptr)
     | Some al \<Rightarrow> do {
         l \<leftarrow> lookup_addrs cfg ciptr host port al;
         case l of
           None \<Rightarrow> return (TRANS_CONNECT_FAILED, ciptr)
         | Some al \<Rightarrow> do {
             let firstaddr = (case al_first al of Some (_, as) \<Rightarrow> as | None \<Rightarrow> []);
             (pos, ciptr) \<leftarrow> pick_addr cfg firstaddr False ciptr (al_addr al);
             case pos of
               None \<Rightarrow> do {
                 set_addrlist (al\<lparr>al_addr := []\<rparr>);
                 return (TRANS_CONNECT_FAILED, ciptr)
               }
             | Some addr \<Rightarrow> do {
                 (res, ciptr) \<leftarrow> inet_connect_to cfg ciptr (ai_addr (hd addr))
                   (tl addr \<noteq> [] \<or> length addr \<noteq> length firstaddr);
                 set_addrlist (al\<lparr>al_addr := (if res \<noteq> 0 then tl addr else addr)\<rparr>);
                 return (res, ciptr)
               }
           }
       }
   }"

text \<open>Without IPv6: the address and port of a \<open>sockaddr_in\<close>, or \<open>None\<close>.\<close>

definition host_addr :: "string \<Rightarrow> string option xprog" where
  "host_addr host = do {
     tmpaddr \<leftarrow> (if host \<noteq> [] \<and> isdigit (hd host) then do {
         r \<leftarrow> sys (Inet_addr host);
         return (if r_ret r < 0 \<or> take 4 (r_data r) = replicate 4 CHR 0xFF then None
                 else Some (take 4 (r_data r)))
       } else return None);
     case tmpaddr of
       Some a \<Rightarrow> return (Some a)
     | None \<Rightarrow> do {
         hostp \<leftarrow> sys (Gethostbyname host);
         if r_ret hostp < 0 then do { set_errno EINVAL; return None }
         else if r_val hostp \<noteq> AF_INET then do { set_errno EPROTOTYPE; return None }
         else return (Some (take 4 (r_data hostp)))
       }
   }"

definition tcp_port :: "string \<Rightarrow> nat option xprog" where
  "tcp_port port =
     (if \<not> is_numeric port then do {
        servp \<leftarrow> sys (Getservbyname port ''tcp'');
        return (if r_ret servp < 0 then None else Some (nat (r_val servp mod 65536)))
      } else do {
        let tmpport = strtol port;
        return (if tmpport < 1024 \<or> tmpport > USHRT_MAX then None else Some (nat tmpport))
      })"

definition inet_connect_v4 :: "config \<Rightarrow> conn \<Rightarrow> string \<Rightarrow> string \<Rightarrow> (int \<times> conn) xprog" where
  "inet_connect_v4 cfg ciptr host port = do {
     a \<leftarrow> host_addr host;
     case a of
       None \<Rightarrow> return (TRANS_CONNECT_FAILED, ciptr)
     | Some a \<Rightarrow> do {
         p \<leftarrow> tcp_port port;
         case p of
           None \<Rightarrow> return (TRANS_CONNECT_FAILED, ciptr)
         | Some p \<Rightarrow>
             inet_connect_to cfg ciptr (le16 2 @ be16 p @ strncpy_bytes 4 a @ replicate 8 NUL) False
       }
   }"

definition SocketINETConnect :: "config \<Rightarrow> conn \<Rightarrow> string option \<Rightarrow> string \<Rightarrow> (int \<times> conn) xprog" where
  "SocketINETConnect cfg ciptr host port = do {
     host \<leftarrow> connect_host cfg host;
     let port = connect_port cfg port;
     if cfg_ipv6 cfg then inet_connect_list cfg ciptr host port
     else inet_connect_v4 cfg ciptr host port
   }"

section \<open>UnixHostReallyLocal\<close>

definition same_addr :: "addrinfo \<Rightarrow> addrinfo \<Rightarrow> bool" where
  "same_addr i j \<longleftrightarrow> ai_family i = ai_family j \<and>
     ((ai_family i = AF_INET \<and> sin_addr (ai_addr i) = sin_addr (ai_addr j)) \<or>
      (ai_family i = AF_INET6 \<and> sin6_addr (ai_addr i) = sin6_addr (ai_addr j)))"

text \<open>
  Without IPv6 the addresses of a host entry are four bytes each, of which at most nine are
  remembered for the host given.
\<close>

definition UnixHostReallyLocal :: "config \<Rightarrow> string \<Rightarrow> bool xprog" where
  "UnixHostReallyLocal cfg host = do {
     hostnamebuf \<leftarrow> GetHostname cfg 256;
     if hostnamebuf = host then return True
     else if cfg_ipv6 cfg then do {
       l \<leftarrow> sys (Getaddrinfo hostnamebuf None 0);
       if r_ret l \<noteq> 0 then return False
       else do {
         localhostaddr \<leftarrow> new_block;
         other \<leftarrow> sys (Getaddrinfo host None 0);
         if r_ret other \<noteq> 0 then do {
           sys_ignore Freeaddrinfo; free_block localhostaddr;
           return False
         } else do {
           otherhostaddr \<leftarrow> new_block;
           let equiv = list_ex (\<lambda>i. list_ex (same_addr i) (r_addrs other)) (r_addrs l);
           sys_ignore Freeaddrinfo; free_block localhostaddr;
           sys_ignore Freeaddrinfo; free_block otherhostaddr;
           return equiv
         }
       }
     } else do {
       hostp \<leftarrow> sys (Gethostbyname host);
       if r_ret hostp < 0 then return False
       else do {
         let specified = map (\<lambda>a. take 4 (ai_addr a)) (take 9 (r_addrs hostp));
         hostp \<leftarrow> sys (Gethostbyname hostnamebuf);
         if r_ret hostp < 0 then return False
         else return (list_ex (\<lambda>s. list_ex (\<lambda>a. take 4 (ai_addr a) = s) (r_addrs hostp)) specified)
       }
     }
   }"

section \<open>SocketUNIXConnect\<close>

text \<open>After a failed \<open>connect\<close>; an abstract socket that is not there makes the transport go back to
  the file system.\<close>

definition unix_connect_failed :: "transp \<Rightarrow> bool \<Rightarrow> int xprog" where
  "unix_connect_failed t abstract = do {
     olderrno \<leftarrow> gets w_errno;
     set_errno olderrno;
     if olderrno = EWOULDBLOCK \<or> olderrno = EINPROGRESS then return TRANS_IN_PROGRESS
     else if olderrno = EINTR then return TRANS_TRY_CONNECT_AGAIN
     else if olderrno = ENOENT \<or> olderrno = ECONNREFUSED then
       (if abstract then do {
          fl \<leftarrow> tflags t;
          set_tflags t (fl AND NOT TRANS_ABSTRACT);
          return TRANS_TRY_CONNECT_AGAIN
        } else return TRANS_CONNECT_FAILED)
     else return TRANS_CONNECT_FAILED
   }"

text \<open>After a successful \<open>connect\<close>: both addresses of the connection are the one connected to.\<close>

definition unix_connected :: "conn \<Rightarrow> string \<Rightarrow> bool \<Rightarrow> (int \<times> conn) xprog" where
  "unix_connected ciptr path abstract = do {
     let namelen = length path + 2;
     let bytes = le16 1 @ (if abstract then CHR ''@'' # tl path else path);
     addr \<leftarrow> malloc_with namelen bytes;
     let ciptr = ciptr\<lparr>c_addr := addr\<rparr>;
     if addr = Null then return (TRANS_CONNECT_FAILED, ciptr)
     else do {
       peer \<leftarrow> malloc_with namelen bytes;
       let ciptr = ciptr\<lparr>c_peeraddr := peer\<rparr>;
       if peer = Null then return (TRANS_CONNECT_FAILED, ciptr)
       else return (0, ciptr\<lparr>c_family := AF_UNIX, c_addrlen := int namelen,
         c_peeraddrlen := int namelen\<rparr>)
     }
   }"

definition SocketUNIXConnect :: "config \<Rightarrow> conn \<Rightarrow> string option \<Rightarrow> string option \<Rightarrow> (int \<times> conn) xprog" where
  "SocketUNIXConnect cfg ciptr host port = do {
     t \<leftarrow> trans_of ciptr;
     fl \<leftarrow> tflags t;
     let abstract = has fl TRANS_ABSTRACT;
     remote \<leftarrow> (case host of
         None \<Rightarrow> return False
       | Some h \<Rightarrow> if h \<noteq> [] \<and> hd h \<noteq> CHR ''/'' \<and> h \<noteq> ''unix''
           then do { r \<leftarrow> UnixHostReallyLocal cfg h; return (\<not> r) } else return False);
     if remote then return (TRANS_CONNECT_FAILED, ciptr)
     else case port of
       None \<Rightarrow> return (TRANS_CONNECT_FAILED, ciptr)
     | Some p \<Rightarrow>
         if p = [] then return (TRANS_CONNECT_FAILED, ciptr)
         else case set_sun_path p (UNIX_PATH cfg) abstract of
           None \<Rightarrow> return (TRANS_CONNECT_FAILED, ciptr)
         | Some path \<Rightarrow> do {
             let sockname = le16 1 @ (if abstract then NUL # tl path else path);
             r \<leftarrow> sys (ConnectC (c_fd ciptr) sockname);
             if r_ret r < 0 then do { ret \<leftarrow> unix_connect_failed t abstract; return (ret, ciptr) }
             else unix_connected ciptr path abstract
           }
   }"

end
