(* ===== verification/Xtrans.thy ===== *)
theory Xtrans
  imports XtransFlags SockConn
begin

unbundle bit_operations_syntax

text \<open>
  The public interface of the library (\<open>include/X11/Xtrans/Xtrans.c\<close>). The functions carry the
  prefix \<open>Trans\<close>, for the name that the macro \<open>TRANS\<close> makes. Calls through the function pointers
  of a transport go to the functions of its table in \<open>Xtranssock.c\<close>.
\<close>

section \<open>Opening\<close>

abbreviation (input) XTRANS_OPEN_COTS_CLIENT :: int where "XTRANS_OPEN_COTS_CLIENT \<equiv> 1"
abbreviation (input) XTRANS_OPEN_COTS_SERVER :: int where "XTRANS_OPEN_COTS_SERVER \<equiv> 2"

text \<open>The string behind a pointer that was checked not to be null.\<close>

abbreviation str_of :: "string cptr \<Rightarrow> string" where
  "str_of p \<equiv> (case deref p of Some s \<Rightarrow> s | None \<Rightarrow> [])"

definition TransOpen :: "config \<Rightarrow> int \<Rightarrow> string \<Rightarrow> conn option xprog" where
  "TransOpen cfg type address = do {
     parts \<leftarrow> ParseAddress cfg address;
     case parts of
       None \<Rightarrow> return None
     | Some (protocol, host, port) \<Rightarrow>
         (case SelectTransport cfg (str_of protocol) of
            None \<Rightarrow> do {
              free_ptr protocol; free_ptr host; free_ptr port;
              return None
            }
          | Some thistrans \<Rightarrow> do {
              c \<leftarrow> (if type = XTRANS_OPEN_COTS_CLIENT
                   then SocketOpenCOTSClient cfg thistrans (str_of protocol) (str_of host) (str_of port)
                   else if type = XTRANS_OPEN_COTS_SERVER
                   then SocketOpenCOTSServer cfg thistrans (str_of protocol) (str_of host) (str_of port)
                   else return None);
              case c of
                None \<Rightarrow> do {
                  free_ptr protocol; free_ptr host; free_ptr port;
                  return None
                }
              | Some ciptr \<Rightarrow> do {
                  let ciptr = ciptr\<lparr>transptr := Some thistrans, c_port := port\<rparr>;
                  free_ptr protocol; free_ptr host;
                  return (Some ciptr)
                }
            })
   }"

definition TransReopen :: "config \<Rightarrow> int \<Rightarrow> int \<Rightarrow> int \<Rightarrow> string \<Rightarrow> conn option xprog" where
  "TransReopen cfg type trans_id fd port =
     (case find (\<lambda>(_, i). i = trans_id) (Xtransports cfg) of
        None \<Rightarrow> return None
      | Some (thistrans, _) \<Rightarrow> do {
          save_port \<leftarrow> strdup port;
          if save_port = Null then return None
          else do {
            c \<leftarrow> (if type = XTRANS_OPEN_COTS_SERVER
                 then SocketReopenCOTSServer cfg thistrans fd port else return None);
            case c of
              None \<Rightarrow> do { free_ptr save_port; return None }
            | Some ciptr \<Rightarrow>
                return (Some (ciptr\<lparr>transptr := Some thistrans, c_port := save_port\<rparr>))
          }
        })"

definition TransOpenCOTSClient :: "config \<Rightarrow> string \<Rightarrow> conn option xprog" where
  "TransOpenCOTSClient cfg address = TransOpen cfg XTRANS_OPEN_COTS_CLIENT address"

definition TransOpenCOTSServer :: "config \<Rightarrow> string \<Rightarrow> conn option xprog" where
  "TransOpenCOTSServer cfg address = TransOpen cfg XTRANS_OPEN_COTS_SERVER address"

definition TransReopenCOTSServer :: "config \<Rightarrow> int \<Rightarrow> int \<Rightarrow> string \<Rightarrow> conn option xprog" where
  "TransReopenCOTSServer cfg trans_id fd port = TransReopen cfg XTRANS_OPEN_COTS_SERVER trans_id fd port"

text \<open>The result and what is stored for the identifier, the descriptor and the port.\<close>

definition TransGetReopenInfo :: "config \<Rightarrow> conn \<Rightarrow> (int \<times> int \<times> int \<times> string cptr) xprog" where
  "TransGetReopenInfo cfg ciptr =
     (case find (\<lambda>(t, _). transptr ciptr = Some t) (Xtransports cfg) of
        None \<Rightarrow> return (0, 0, 0, Null)
      | Some (_, trans_id) \<Rightarrow> do {
          do_if (c_port ciptr = Null) fault;
          port \<leftarrow> strdup (str_of (c_port ciptr));
          return (if port = Null then 0 else 1, trans_id, c_fd ciptr, port)
        })"

section \<open>Options\<close>

abbreviation (input) TRANS_NONBLOCKING :: int where "TRANS_NONBLOCKING \<equiv> 1"
abbreviation (input) TRANS_CLOSEONEXEC :: int where "TRANS_CLOSEONEXEC \<equiv> 2"
abbreviation (input) F_SETFD :: int where "F_SETFD \<equiv> 2"
abbreviation (input) F_GETFL :: int where "F_GETFL \<equiv> 3"
abbreviation (input) F_SETFL :: int where "F_SETFL \<equiv> 4"
abbreviation (input) O_NONBLOCK :: int where "O_NONBLOCK \<equiv> 2048"

definition TransSetOption :: "conn \<Rightarrow> int \<Rightarrow> int \<Rightarrow> int xprog" where
  "TransSetOption ciptr option arg = do {
     let fd = c_fd ciptr;
     if option = TRANS_NONBLOCKING then
       (if arg = 1 then do {
          r \<leftarrow> sys (Fcntl fd F_GETFL 0);
          if r_ret r \<noteq> -1 then do {
            r \<leftarrow> sys (Fcntl fd F_SETFL (r_ret r OR O_NONBLOCK));
            return (r_ret r)
          } else return (r_ret r)
        } else return 0)
     else if option = TRANS_CLOSEONEXEC then do {
       r \<leftarrow> sys (Fcntl fd F_SETFD 1);
       return (r_ret r)
     } else return 0
   }"

section \<open>The transport tables\<close>

text \<open>The entries of the two local transports differ from those of the three INET ones.\<close>

fun is_unix :: "transp \<Rightarrow> bool" where
  "is_unix SocketLocalFuncs = True"
| "is_unix SocketUNIXFuncs = True"
| "is_unix _ = False"

definition TransCreateListener :: "config \<Rightarrow> conn \<Rightarrow> string option \<Rightarrow> u32 \<Rightarrow> (int \<times> conn) xprog" where
  "TransCreateListener cfg ciptr port flags = do {
     t \<leftarrow> trans_of ciptr;
     if is_unix t then SocketUNIXCreateListener cfg ciptr port flags
     else SocketINETCreateListener cfg ciptr port flags
   }"

definition TransResetListener :: "config \<Rightarrow> conn \<Rightarrow> (int \<times> conn) xprog" where
  "TransResetListener cfg ciptr = do {
     t \<leftarrow> trans_of ciptr;
     if is_unix t then SocketUNIXResetListener cfg ciptr else return (TRANS_RESET_NOOP, ciptr)
   }"

text \<open>The new connection, the status and the listener.\<close>

definition TransAccept :: "config \<Rightarrow> conn \<Rightarrow> (conn option \<times> int \<times> conn) xprog" where
  "TransAccept cfg ciptr = do {
     t \<leftarrow> trans_of ciptr;
     (newciptr, status, ciptr) \<leftarrow>
       (if is_unix t then SocketUNIXAccept cfg ciptr
        else do { (n, status) \<leftarrow> SocketINETAccept cfg ciptr; return (n, status, ciptr) });
     return (map_option (transptr_update (\<lambda>_. transptr ciptr)) newciptr, status, ciptr)
   }"

text \<open>An empty port is not freed.\<close>

definition TransConnect :: "config \<Rightarrow> conn \<Rightarrow> string \<Rightarrow> (int \<times> conn) xprog" where
  "TransConnect cfg ciptr address = do {
     parts \<leftarrow> ParseAddress cfg address;
     case parts of
       None \<Rightarrow> return (-1, ciptr)
     | Some (protocol, host, port) \<Rightarrow>
         if str_of port = [] then do {
           free_ptr protocol; free_ptr host;
           return (-1, ciptr)
         } else do {
           t \<leftarrow> trans_of ciptr;
           (ret, ciptr) \<leftarrow>
             (if is_unix t then SocketUNIXConnect cfg ciptr (deref host) (deref port)
              else SocketINETConnect cfg ciptr (deref host) (str_of port));
           free_ptr protocol; free_ptr host; free_ptr port;
           return (ret, ciptr)
         }
   }"

definition TransBytesReadable :: "conn \<Rightarrow> (int \<times> int) xprog" where
  "TransBytesReadable ciptr = do { _ \<leftarrow> trans_of ciptr; SocketBytesReadable ciptr }"

definition TransRead :: "config \<Rightarrow> conn \<Rightarrow> nat \<Rightarrow> (int \<times> string \<times> conn) xprog" where
  "TransRead cfg ciptr len = do { _ \<leftarrow> trans_of ciptr; SocketRead cfg ciptr len }"

definition TransWrite :: "config \<Rightarrow> conn \<Rightarrow> string \<Rightarrow> (int \<times> conn) xprog" where
  "TransWrite cfg ciptr buf = do { _ \<leftarrow> trans_of ciptr; SocketWrite cfg ciptr buf }"

definition TransReadv :: "config \<Rightarrow> conn \<Rightarrow> nat list \<Rightarrow> (int \<times> string \<times> conn) xprog" where
  "TransReadv cfg ciptr sizes = do { _ \<leftarrow> trans_of ciptr; SocketReadv cfg ciptr sizes }"

definition TransWritev :: "config \<Rightarrow> conn \<Rightarrow> string list \<Rightarrow> (int \<times> conn) xprog" where
  "TransWritev cfg ciptr bufs = do { _ \<leftarrow> trans_of ciptr; SocketWritev cfg ciptr bufs }"

definition TransSendFd :: "conn \<Rightarrow> int \<Rightarrow> bool \<Rightarrow> (int \<times> conn) xprog" where
  "TransSendFd ciptr fd do_close = do {
     t \<leftarrow> trans_of ciptr;
     if is_unix t then SocketSendFd ciptr fd do_close else SocketSendFdInvalid ciptr fd do_close
   }"

definition TransRecvFd :: "conn \<Rightarrow> (int \<times> conn) xprog" where
  "TransRecvFd ciptr = do {
     t \<leftarrow> trans_of ciptr;
     if is_unix t then SocketRecvFd ciptr else SocketRecvFdInvalid ciptr
   }"

definition TransDisconnect :: "conn \<Rightarrow> int xprog" where
  "TransDisconnect ciptr = do { _ \<leftarrow> trans_of ciptr; SocketDisconnect ciptr }"

definition TransClose :: "config \<Rightarrow> conn \<Rightarrow> int xprog" where
  "TransClose cfg ciptr = do {
     t \<leftarrow> trans_of ciptr;
     (ret, ciptr) \<leftarrow> (if is_unix t then SocketUNIXClose cfg ciptr else SocketINETClose ciptr);
     FreeConnInfo ciptr;
     return ret
   }"

definition TransCloseForCloning :: "config \<Rightarrow> conn \<Rightarrow> int xprog" where
  "TransCloseForCloning cfg ciptr = do {
     t \<leftarrow> trans_of ciptr;
     (ret, ciptr) \<leftarrow> (if is_unix t then SocketUNIXCloseForCloning cfg ciptr else SocketINETClose ciptr);
     FreeConnInfo ciptr;
     return ret
   }"

definition TransIsLocal :: "conn \<Rightarrow> bool" where
  "TransIsLocal ciptr \<longleftrightarrow> c_family ciptr = AF_UNIX"

text \<open>The result, the family, the length and the copy of the address.\<close>

definition TransGetPeerAddr :: "conn \<Rightarrow> (int \<times> int \<times> int \<times> string cptr) xprog" where
  "TransGetPeerAddr ciptr = do {
     b \<leftarrow> malloc (nat (c_peeraddrlen ciptr));
     case b of
       None \<Rightarrow> return (-1, c_family ciptr, c_peeraddrlen ciptr, Null)
     | Some i \<Rightarrow> do {
         bytes \<leftarrow> memcpy_from (c_peeraddr ciptr) (nat (c_peeraddrlen ciptr));
         return (0, c_family ciptr, c_peeraddrlen ciptr, Ptr i bytes)
       }
   }"

definition TransGetConnectionNumber :: "conn \<Rightarrow> int" where
  "TransGetConnectionNumber ciptr = c_fd ciptr"

section \<open>Listening on everything\<close>

abbreviation (input) SD_LISTEN_FDS_START :: int where "SD_LISTEN_FDS_START \<equiv> 3"

text \<open>
  \<open>temp_ciptrs\<close> is an array of \<open>NUMTRANS\<close> entries, the model's list of the entries used; a store
  behind its end is undefined.
\<close>

definition store_ciptr :: "config \<Rightarrow> conn list \<Rightarrow> conn \<Rightarrow> (conn list) xprog" where
  "store_ciptr cfg temp_ciptrs ciptr = do {
     do_if (NUMTRANS cfg \<le> length temp_ciptrs) fault;
     return (temp_ciptrs @ [ciptr])
   }"

text \<open>The transport of a socket that was passed in, from its address.\<close>

definition received_transport :: "config \<Rightarrow> string \<Rightarrow> (int \<times> string) option" where
  "received_transport cfg a =
     (let family = int (rd_le16 (strncpy_bytes 128 a)) in
      if family = AF_UNIX then
        Some (TRANS_SOCKET_UNIX_INDEX, if length a > 2 \<and> a ! 2 = NUL then ''local'' else ''unix'')
      else if family = AF_INET then Some (TRANS_SOCKET_INET_INDEX, ''inet'')
      else if family = AF_INET6 \<and> cfg_ipv6 cfg then Some (TRANS_SOCKET_INET6_INDEX, ''inet6'')
      else None)"

text \<open>One received socket: \<open>None\<close> to give up.\<close>

definition receive_fd :: "config \<Rightarrow> string option \<Rightarrow> int \<Rightarrow> conn list \<Rightarrow> conn list option xprog" where
  "receive_fd cfg port fd temp_ciptrs = do {
     r \<leftarrow> sys (Getsockname fd 128);
     if r_ret r < 0 then return None
     else case received_transport cfg (r_data r) of
       None \<Rightarrow> return None
     | Some (ti, tn) \<Rightarrow> do {
         do_if (port = None) fault;
         c \<leftarrow> TransReopenCOTSServer cfg ti fd (case port of Some p \<Rightarrow> p | None \<Rightarrow> []);
         case c of
           None \<Rightarrow> return None
         | Some ciptr \<Rightarrow> do {
             temp_ciptrs \<leftarrow> store_ciptr cfg temp_ciptrs ciptr;
             _ \<leftarrow> Received cfg tn;
             return (Some temp_ciptrs)
           }
       }
   }"

fun receive_loop :: "config \<Rightarrow> string option \<Rightarrow> int list \<Rightarrow> conn list \<Rightarrow> (int \<times> conn list) xprog" where
  "receive_loop cfg port [] temp_ciptrs = return (0, temp_ciptrs)"
| "receive_loop cfg port (fd # fds) temp_ciptrs =
     (if NUMTRANS cfg \<le> length temp_ciptrs then return (0, temp_ciptrs)
      else do {
        r \<leftarrow> receive_fd cfg port fd temp_ciptrs;
        case r of
          None \<Rightarrow> return (-1, temp_ciptrs)
        | Some temp_ciptrs \<Rightarrow> receive_loop cfg port fds temp_ciptrs
      })"

definition receive_listening_fds :: "config \<Rightarrow> string option \<Rightarrow> conn list \<Rightarrow> (int \<times> conn list) xprog" where
  "receive_listening_fds cfg port temp_ciptrs =
     (if cfg_systemd cfg then do {
        n \<leftarrow> sys (Sd_listen_fds 1);
        if r_ret n < 0 then return (-1, temp_ciptrs)
        else receive_loop cfg port (map (\<lambda>i. int i + SD_LISTEN_FDS_START) [0..<nat (r_ret n)]) temp_ciptrs
      } else return (0, temp_ciptrs))"

fun close_all :: "config \<Rightarrow> conn list \<Rightarrow> unit xprog" where
  "close_all cfg [] = return ()"
| "close_all cfg (c # cs) = do { _ \<leftarrow> TransClose cfg c; close_all cfg cs }"

text \<open>
  One turn of the loop over the transports: go on with the listeners so far and whether IPv6
  succeeded, or \<open>None\<close> when a server is already running.
\<close>

definition listen_on :: "config \<Rightarrow> string option \<Rightarrow> transp \<Rightarrow> int \<Rightarrow> conn list \<Rightarrow> bool \<Rightarrow>
    (conn list \<times> bool) option xprog" where
  "listen_on cfg port t transport_id temp_ciptrs ipv6_succ = do {
     fl \<leftarrow> tflags t;
     if has fl TRANS_ALIAS \<or> has fl TRANS_NOLISTEN \<or> has fl TRANS_RECEIVED
     then return (Some (temp_ciptrs, ipv6_succ))
     else do {
       let buffer = snprintf_s 256 (TransName t @ ''/:'' @ (case port of Some p \<Rightarrow> p | None \<Rightarrow> []));
       c \<leftarrow> TransOpenCOTSServer cfg buffer;
       case c of
         None \<Rightarrow> return (Some (temp_ciptrs, ipv6_succ))
       | Some ciptr \<Rightarrow> do {
           let flags = (if cfg_ipv6 cfg \<and> transport_id = TRANS_SOCKET_INET_INDEX \<and> ipv6_succ
                        then ADDR_IN_USE_ALLOWED else 0);
           (status, ciptr) \<leftarrow> TransCreateListener cfg ciptr port flags;
           if status < 0 then
             (if status = TRANS_ADDR_IN_USE then do { close_all cfg temp_ciptrs; return None }
              else return (Some (temp_ciptrs, ipv6_succ)))
           else do {
             temp_ciptrs \<leftarrow> store_ciptr cfg temp_ciptrs ciptr;
             return (Some (temp_ciptrs,
               ipv6_succ \<or> (cfg_ipv6 cfg \<and> transport_id = TRANS_SOCKET_INET6_INDEX)))
           }
         }
     }
   }"

fun listen_loop :: "config \<Rightarrow> string option \<Rightarrow> (transp \<times> int) list \<Rightarrow> conn list \<Rightarrow> bool \<Rightarrow>
    conn list option xprog" where
  "listen_loop cfg port [] temp_ciptrs ipv6_succ = return (Some temp_ciptrs)"
| "listen_loop cfg port ((t, transport_id) # ts) temp_ciptrs ipv6_succ = do {
     r \<leftarrow> listen_on cfg port t transport_id temp_ciptrs ipv6_succ;
     case r of
       None \<Rightarrow> return None
     | Some (temp_ciptrs, ipv6_succ) \<Rightarrow> listen_loop cfg port ts temp_ciptrs ipv6_succ
   }"

text \<open>
  The result and what is stored behind the three pointers: \<open>partial\<close> (\<open>None\<close> where it is not set),
  the listeners counted by \<open>count_ret\<close>, and the array of them.
\<close>

record listeners =
  ml_ret :: int
  ml_partial :: "bool option"
  ml_count :: nat
  ml_ciptrs :: "conn list cptr"

definition TransMakeAllCOTSServerListeners :: "config \<Rightarrow> string option \<Rightarrow> (listeners \<times> conn list) xprog" where
  "TransMakeAllCOTSServerListeners cfg port = do {
     (r, temp_ciptrs) \<leftarrow> receive_listening_fds cfg port [];
     if r < 0 then return (\<lparr>ml_ret = -1, ml_partial = None, ml_count = length temp_ciptrs,
       ml_ciptrs = Null\<rparr>, temp_ciptrs)
     else do {
       l \<leftarrow> listen_loop cfg port (Xtransports cfg) temp_ciptrs False;
       case l of
         None \<Rightarrow> return (\<lparr>ml_ret = -1, ml_partial = Some False, ml_count = 0, ml_ciptrs = Null\<rparr>, [])
       | Some temp_ciptrs \<Rightarrow> do {
           complete \<leftarrow> complete_network_count cfg;
           let count = length temp_ciptrs;
           let partial = Some (count < complete);
           if 0 < count then do {
             a \<leftarrow> malloc_with (count * 8) temp_ciptrs;
             return (\<lparr>ml_ret = (if a = Null then -1 else 0), ml_partial = partial, ml_count = count,
               ml_ciptrs = a\<rparr>, temp_ciptrs)
           } else return (\<lparr>ml_ret = 0, ml_partial = partial, ml_count = count, ml_ciptrs = Null\<rparr>, temp_ciptrs)
         }
     }
   }"

section \<open>Emulated vectors\<close>

text \<open>
  \<open>ReadV\<close> and \<open>WriteV\<close>, for systems without \<open>readv\<close> and \<open>writev\<close>. A buffer is the number of bytes to
  read or the bytes to write that are left; the result of a buffer is whether to return at once
  and with what, and the running total.
\<close>

function write_buf :: "config \<Rightarrow> conn \<Rightarrow> string \<Rightarrow> int \<Rightarrow> (int option \<times> int \<times> conn) xprog" where
  "write_buf cfg ciptr base tot =
     (if base = [] then return (None, tot, ciptr)
      else do {
        (nbytes, ciptr) \<leftarrow> TransWrite cfg ciptr base;
        if nbytes < 0 \<and> tot = 0 then return (Some (-1), tot, ciptr)
        else if nbytes \<le> 0 then return (Some tot, tot, ciptr)
        else do {
          set_errno 0;
          write_buf cfg ciptr (drop (nat nbytes) base) (tot + nbytes)
        }
      })"
  by pat_completeness auto
termination
  by (relation "measure (\<lambda>(cfg, ciptr, base, tot). length base)") auto

declare write_buf.simps [simp del]

fun write_bufs :: "config \<Rightarrow> conn \<Rightarrow> string list \<Rightarrow> int \<Rightarrow> (int \<times> conn) xprog" where
  "write_bufs cfg ciptr [] tot = return (tot, ciptr)"
| "write_bufs cfg ciptr (base # iov) tot = do {
     (r, tot, ciptr) \<leftarrow> write_buf cfg ciptr base tot;
     case r of Some ret \<Rightarrow> return (ret, ciptr) | None \<Rightarrow> write_bufs cfg ciptr iov tot
   }"

definition TransWriteV :: "config \<Rightarrow> conn \<Rightarrow> string list \<Rightarrow> (int \<times> conn) xprog" where
  "TransWriteV cfg ciptr iov = do { set_errno 0; write_bufs cfg ciptr iov 0 }"

function read_buf :: "config \<Rightarrow> conn \<Rightarrow> nat \<Rightarrow> int \<Rightarrow> string \<Rightarrow> (int option \<times> int \<times> string \<times> conn) xprog" where
  "read_buf cfg ciptr len tot got =
     (if len = 0 then return (None, tot, got, ciptr)
      else do {
        (nbytes, bytes, ciptr) \<leftarrow> TransRead cfg ciptr len;
        if nbytes < 0 \<and> tot = 0 then return (Some (-1), tot, got, ciptr)
        else if nbytes \<le> 0 then return (Some tot, tot, got, ciptr)
        else do {
          set_errno 0;
          read_buf cfg ciptr (len - nat nbytes) (tot + nbytes) (got @ bytes)
        }
      })"
  by pat_completeness auto
termination
  by (relation "measure (\<lambda>(cfg, ciptr, len, tot, got). len)") auto

declare read_buf.simps [simp del]

fun read_bufs :: "config \<Rightarrow> conn \<Rightarrow> nat list \<Rightarrow> int \<Rightarrow> string list \<Rightarrow> (int \<times> string list \<times> conn) xprog" where
  "read_bufs cfg ciptr [] tot got = return (tot, got, ciptr)"
| "read_bufs cfg ciptr (len # iov) tot got = do {
     (r, tot, bytes, ciptr) \<leftarrow> read_buf cfg ciptr len tot [];
     case r of
       Some ret \<Rightarrow> return (ret, got @ [bytes], ciptr)
     | None \<Rightarrow> read_bufs cfg ciptr iov tot (got @ [bytes])
   }"

definition TransReadV :: "config \<Rightarrow> conn \<Rightarrow> nat list \<Rightarrow> (int \<times> string list \<times> conn) xprog" where
  "TransReadV cfg ciptr iov = do { set_errno 0; read_bufs cfg ciptr iov 0 [] }"

end
