(* ===== verification/ConnProps.thy ===== *)
theory ConnProps
  imports ParseProps SockConn "HOL-Library.Sublist"
begin

unbundle bit_operations_syntax

text \<open>
  Properties of connecting: every outcome of \<open>SocketUNIXConnect\<close> with what it leaves allocated, the
  way back from an abstract socket to the file system, and the search for a usable address in
  \<open>SocketINETConnect\<close>.
\<close>

section \<open>Unix sockets\<close>

lemma wp_UnixHostReallyLocal:
  assumes "os_wf w" and "\<And>b w'. kept w w' \<Longrightarrow> w_heap w' = w_heap w \<Longrightarrow> os_wf w' \<Longrightarrow> Q b w'"
  shows "wp (UnixHostReallyLocal cfg host) Q w"
  using assms(1) os_wf_fresh [OF assms(1)] os_wf_less [OF assms(1)]
  unfolding UnixHostReallyLocal_def Let_def
  by (auto intro!: wp_GetHostname wp_sys wp_sys_ignore assms(2) simp: kept_def rest_same_def os_wf_def)

text \<open>What a call to \<open>SocketUNIXConnect\<close> may do, by its result.\<close>

definition unix_same :: "xworld \<Rightarrow> xworld \<Rightarrow> bool" where
  "unix_same w w' \<longleftrightarrow> w_fds w' = w_fds w \<and> w_umask w' = w_umask w \<and> w_fault w' = w_fault w \<and>
     w_badfd w' = w_badfd w \<and> w_env w' = w_env w \<and> os_wf w'"

definition unix_flags :: "transp \<Rightarrow> xworld \<Rightarrow> int \<Rightarrow> xworld \<Rightarrow> bool" where
  "unix_flags t w r w' \<longleftrightarrow>
     (if r = TRANS_TRY_CONNECT_AGAIN \<and> w_errno w' \<noteq> EINTR
      then has (g_flags w t) TRANS_ABSTRACT \<and>
        g_flags w' = (g_flags w)(t := g_flags w t AND NOT TRANS_ABSTRACT)
      else g_flags w' = g_flags w)"

definition unix_errno :: "int \<Rightarrow> int \<Rightarrow> bool" where
  "unix_errno r e \<longleftrightarrow> r \<in> {0, TRANS_CONNECT_FAILED, TRANS_TRY_CONNECT_AGAIN, TRANS_IN_PROGRESS} \<and>
     (r = TRANS_IN_PROGRESS \<longrightarrow> e \<in> {EWOULDBLOCK, EINPROGRESS}) \<and>
     (r = TRANS_TRY_CONNECT_AGAIN \<longrightarrow> e \<in> {EINTR, ENOENT, ECONNREFUSED})"

definition unix_alloc :: "conn \<Rightarrow> xworld \<Rightarrow> int \<Rightarrow> conn \<Rightarrow> xworld \<Rightarrow> bool" where
  "unix_alloc c w r c' w' \<longleftrightarrow>
     (if r = 0 then \<exists>a p b. w_heap w' = [p, a] @ w_heap w \<and>
        c' = c\<lparr>c_addr := Ptr a b, c_peeraddr := Ptr p b, c_family := AF_UNIX,
          c_addrlen := int (length b), c_peeraddrlen := int (length b)\<rparr>
      else c' = c \<and> w_heap w' = w_heap w \<or>
        r = TRANS_CONNECT_FAILED \<and> c' = c\<lparr>c_addr := Null\<rparr> \<and> w_heap w' = w_heap w \<or>
        r = TRANS_CONNECT_FAILED \<and> (\<exists>a b. c' = c\<lparr>c_addr := Ptr a b, c_peeraddr := Null\<rparr> \<and>
          w_heap w' = a # w_heap w))"

definition unix_connect_post :: "transp \<Rightarrow> conn \<Rightarrow> xworld \<Rightarrow> int \<times> conn \<Rightarrow> xworld \<Rightarrow> bool" where
  "unix_connect_post t c w = (\<lambda>(r, c') w'. unix_same w w' \<and> unix_flags t w r w' \<and>
     unix_errno r (w_errno w') \<and> unix_alloc c w r c' w')"

lemmas unix_defs = unix_connect_post_def unix_flags_def unix_errno_def unix_alloc_def

lemma unix_same_update [simp]: "unix_same w (u\<lparr>w_errno := e\<rparr>) = unix_same w u"
  "unix_same w (u\<lparr>w_log := l\<rparr>) = unix_same w u" "unix_same w (u\<lparr>g_flags := f\<rparr>) = unix_same w u"
  by (simp_all add: unix_same_def os_wf_def)

lemma kept_unix: "kept w u \<Longrightarrow> os_wf u \<Longrightarrow> unix_same w u \<and> g_flags u = g_flags w"
  by (simp add: unix_same_def kept_def rest_same_def)

lemma unix_connect_failed_spec:
  assumes "unix_same w u" and "g_flags u = g_flags w" and "w_heap u = w_heap w"
  shows "wp (unix_connect_failed t (has (g_flags w t) TRANS_ABSTRACT))
    (\<lambda>r. unix_connect_post t c w (r, c)) u"
  unfolding unix_connect_failed_def wp_bind wp_gets wp_set_errno wp_if wp_tflags wp_set_tflags wp_return
  using assms by (auto simp: unix_defs)

lemma unix_connected_spec:
  assumes "unix_same w u" and "g_flags u = g_flags w" and "w_heap u = w_heap w" and "path \<noteq> []"
  shows "wp (unix_connected c path abstract) (unix_connect_post t c w) u"
proof -
  define b where "b = le16 1 @ (if abstract then CHR ''@'' # tl path else path)"
  have len: "length path + 2 = length b" using assms(4) by (cases path) (auto simp: b_def)
  have complete: "unix_connect_post t c w (0, c\<lparr>c_addr := Ptr a b, c_peeraddr := Ptr p b, c_family := AF_UNIX,
      c_addrlen := int (length b), c_peeraddrlen := int (length b)\<rparr>) v"
    if "unix_same w v" "g_flags v = g_flags w" "w_heap v = [p, a] @ w_heap w" for a p v
    using that by (auto simp: unix_defs)
  have no_peer: "unix_connect_post t c w (-1, c\<lparr>c_addr := Ptr a b, c_peeraddr := Null\<rparr>) v"
    if "unix_same w v" "g_flags v = g_flags w" "w_heap v = a # w_heap w" for a v
    using that by (auto simp: unix_defs)
  have no_addr: "unix_connect_post t c w (-1, c\<lparr>c_addr := Null\<rparr>) v"
    if "unix_same w v" "g_flags v = g_flags w" "w_heap v = w_heap w" for v
    using that by (auto simp: unix_defs)
  have fresh: "os_wf u" "w_next u \<notin> set (w_heap u)" using assms(1) os_wf_fresh [of u] by (auto simp: unix_same_def)
  show ?thesis
    unfolding unix_connected_def Let_def wp_bind b_def [symmetric] len
    apply (rule wp_malloc_with)
    subgoal using assms by (simp add: no_addr)
    subgoal for l e
      apply (simp only: wp_if wp_bind wp_return cptr.distinct if_False simp_thms)
      apply (rule wp_malloc_with; simp only: wp_if wp_return cptr.distinct if_False if_True simp_thms)
      subgoal by (rule no_peer) (use assms fresh in \<open>auto simp: unix_same_def os_wf_def\<close>)
      subgoal by (rule complete)
        (use assms fresh in \<open>auto simp: unix_same_def os_wf_def dest: Suc_lessD\<close>)
      done
    done
qed

lemma set_sun_path_nonempty: "set_sun_path p u a = Some path \<Longrightarrow> path \<noteq> []"
  by (auto simp: set_sun_path_def snprintf_s_def Let_def split: if_splits prod.splits)

lemma unix_connect_refused:
  "unix_same w u \<Longrightarrow> g_flags u = g_flags w \<Longrightarrow> w_heap u = w_heap w \<Longrightarrow>
     unix_connect_post t c w (TRANS_CONNECT_FAILED, c) u"
  by (simp add: unix_defs)

lemma SocketUNIXConnect_spec:
  assumes "transptr c = Some t" and "os_wf w"
  shows "wp (SocketUNIXConnect cfg c host port) (unix_connect_post t c w) w"
proof -
  let ?I = "\<lambda>u. unix_same w u \<and> g_flags u = g_flags w \<and> w_heap u = w_heap w"
  have I: "?I w" using assms(2) by (simp add: unix_same_def)
  have refused: "unix_connect_post t c w (-1, c) u" if "?I u" for u
    using that unix_connect_refused by blast
  have at: "wp (do {
             r \<leftarrow> sys (ConnectC (c_fd c) sockname);
             if r_ret r < 0 then do { ret \<leftarrow> unix_connect_failed t (has (g_flags w t) TRANS_ABSTRACT); return (ret, c) }
             else unix_connected c path (has (g_flags w t) TRANS_ABSTRACT)
           }) (unix_connect_post t c w) u" if "?I u" "path \<noteq> []" for u path sockname
    unfolding wp_bind wp_if wp_return
    by (rule wp_sys) (use that in \<open>auto intro!: unix_connect_failed_spec unix_connected_spec\<close>)
  have remote: "wp (case host of
         None \<Rightarrow> return False
       | Some h \<Rightarrow> if h \<noteq> [] \<and> hd h \<noteq> CHR ''/'' \<and> h \<noteq> ''unix''
           then do { r \<leftarrow> UnixHostReallyLocal cfg h; return (\<not> r) } else return False) (\<lambda>_. ?I) w"
    using I assms(2) by (auto intro!: wp_UnixHostReallyLocal simp: kept_unix split: option.split)
  show ?thesis
    unfolding SocketUNIXConnect_def Let_def
    apply (rule wp_bindI [where P = "\<lambda>t' u. t' = t \<and> u = w"])
     apply (use assms(1) in simp)
    apply (rule wp_bindI [where P = "\<lambda>f u. f = g_flags w t \<and> u = w"])
     apply simp
    apply (clarify, rule wp_bindI [OF remote])
    subgoal for _ _ _ _ r u
      using refused set_sun_path_nonempty at
      by (cases r; cases port; cases "port = Some []";
          cases "set_sun_path (the port) (UNIX_PATH cfg) (has (g_flags w t) TRANS_ABSTRACT)")
        (simp_all del: wp_bind)
    done
qed




definition refusing_env :: "(os_call \<times> resp) list \<Rightarrow> os_call \<Rightarrow> resp" where
  "refusing_env l c = (if c = ConnectC 2 (le16 1 @ NUL # ''/tmp/.X11-unix/X0'') then resp_of (-1) ECONNREFUSED []
     else resp_of 0 0 [])"


section \<open>Choosing an Internet address\<close>

text \<open>
  On a socket of a fixed family (\<open>inet\<close> or \<open>inet6\<close>) the search for an address ends and does not
  touch the process: it finds an address of the family, at the current position of the list or
  behind it or else from the beginning on, or fails when there is none in the whole list.
\<close>

theorem pick_addr_fixed_family:
  assumes "transname (Sockettrans2devtab cfg ! c_index c) \<noteq> ''tcp''"
    and "fam_of cfg (c_index c) = F" and "F \<in> {AF_INET, AF_INET6}" and "firstaddr \<noteq> []"
  shows "wp (pick_addr cfg firstaddr False c addr) (\<lambda>(pos, c') w'. c' = c \<and> w' = w \<and>
    (case pos of
       None \<Rightarrow> \<forall>a \<in> set (addr @ firstaddr). ai_family a \<noteq> F
     | Some s \<Rightarrow> s \<noteq> [] \<and> ai_family (hd s) = F \<and>
         (suffix s addr \<or> (\<forall>a \<in> set addr. ai_family a \<noteq> F) \<and> suffix s firstaddr))) w"
proof -
  have use: "use_addr cfg c a = return (ai_family a = F, c)" for a
    using assms(1-3) by (auto simp: use_addr_def replace_socket_def)
  have again: "wp (pick_addr cfg firstaddr True c addr) (\<lambda>(pos, c') w'. c' = c \<and> w' = w \<and>
    (case pos of None \<Rightarrow> \<forall>a \<in> set addr. ai_family a \<noteq> F
     | Some s \<Rightarrow> s \<noteq> [] \<and> ai_family (hd s) = F \<and> suffix s addr)) w" for addr
  proof (induction addr)
    case Nil
    then show ?case by (subst pick_addr.simps) simp
  next
    case (Cons a addr)
    then show ?case
      by (subst pick_addr.simps) (auto simp: use suffix_Cons elim!: wp_mono split: option.splits)
  qed
  show ?thesis
  proof (induction addr)
    case Nil
    obtain a rest where first: "firstaddr = a # rest" using assms(4) by (cases firstaddr) auto
    show ?case
      using again [of rest]
      by (subst pick_addr.simps) (auto simp: use first suffix_Cons elim!: wp_mono split: option.splits)
  next
    case (Cons a addr)
    then show ?case
      by (subst pick_addr.simps) (auto simp: use suffix_Cons elim!: wp_mono split: option.splits)
  qed
qed

theorem pick_addr_fixed_family_witness:
  "wp (pick_addr sample_config [\<lparr>ai_family = 10, ai_addr = ''a''\<rparr>, \<lparr>ai_family = 2, ai_addr = ''b''\<rparr>] False
      (zero_conn 0) []) (\<lambda>(pos, c') w'. pos \<noteq> None \<and> w' = sample_world []) (sample_world [])"
proof -
  have "Sockettrans2devtab sample_config ! 0 = dev ''inet'' 2" by (simp add: Sockettrans2devtab_def)
  then show ?thesis
    by (intro pick_addr_fixed_family [where F = 2, THEN wp_mono]) (auto simp: zero_conn_def split: option.splits)
qed

end
