(* ===== verification/ConnLife.thy ===== *)
theory ConnLife
  imports Xtrans ConnProps "HOL-Library.Multiset"
begin

unbundle bit_operations_syntax

text \<open>
  The resources of a connection over its life. The blocks and descriptors that move between the
  process and the queues of a connection are counted as multisets; every operation keeps the
  account, so that opening, using and closing a connection leaves the heap as it was.
\<close>

section \<open>Accounts of the descriptor queues\<close>

definition calm :: "xworld \<Rightarrow> xworld \<Rightarrow> bool" where
  "calm w w' \<longleftrightarrow> w_umask w' = w_umask w \<and> w_fault w' = w_fault w \<and> g_flags w' = g_flags w \<and>
     g_addrlist w' = g_addrlist w \<and> w_env w' = w_env w \<and> os_wf w'"

text \<open>The blocks of the queue \<open>q\<close> became those of \<open>q'\<close>.\<close>

definition qstep :: "connfd list \<Rightarrow> xworld \<Rightarrow> connfd list \<Rightarrow> xworld \<Rightarrow> bool" where
  "qstep q w q' w' \<longleftrightarrow> calm w w' \<and>
     mset (w_heap w') + mset (map cf_id q) = mset (w_heap w) + mset (map cf_id q')"

lemma calm_refl: "os_wf w \<Longrightarrow> calm w w"
  by (simp add: calm_def)

lemma calm_log [simp]: "calm w (w'\<lparr>w_log := l\<rparr>) = calm w w'" "calm w (w'\<lparr>w_errno := e\<rparr>) = calm w w'"
  "calm w (w'\<lparr>w_badfd := b\<rparr>) = calm w w'"
  by (simp_all add: calm_def os_wf_def)

lemma qstep_log [simp]: "qstep q w q' (w'\<lparr>w_log := l\<rparr>) = qstep q w q' w'"
  "qstep q w q' (w'\<lparr>w_errno := e\<rparr>) = qstep q w q' w'" "qstep q w q' (w'\<lparr>w_badfd := b\<rparr>) = qstep q w q' w'"
  by (simp_all add: qstep_def)

lemma calm_trans: "calm u v \<Longrightarrow> calm v w \<Longrightarrow> calm u w"
  by (simp add: calm_def)

lemma mset_chain:
  fixes a b d :: "'a multiset"
  assumes "b + q = a + q'" and "d + q' = b + q''"
  shows "d + q = a + q''"
proof -
  have "d + q + q' = (d + q') + q" by (simp add: ac_simps)
  also have "\<dots> = (b + q) + q''" unfolding assms(2) by (simp add: ac_simps)
  also have "\<dots> = a + q'' + q'" unfolding assms(1) by (simp add: ac_simps)
  finally show ?thesis by simp
qed

lemma qstep_trans: "qstep q u q' v \<Longrightarrow> qstep q' v q'' w \<Longrightarrow> qstep q u q'' w"
  unfolding qstep_def using calm_trans mset_chain by blast

lemma qstep_refl: "os_wf w \<Longrightarrow> qstep q w q w"
  by (simp add: qstep_def calm_refl)

definition in_heap :: "connfd list \<Rightarrow> xworld \<Rightarrow> bool" where
  "in_heap q w \<longleftrightarrow> os_wf w \<and> mset (map cf_id q) \<subseteq># mset (w_heap w)"

lemma qstep_in_heap: "in_heap q w \<Longrightarrow> qstep q w q' w' \<Longrightarrow> in_heap q' w'"
proof -
  assume "in_heap q w" and step: "qstep q w q' w'"
  then obtain r where "mset (w_heap w) = mset (map cf_id q) + r"
    unfolding in_heap_def by (auto simp: subset_mset.le_iff_add)
  then have "mset (w_heap w') + mset (map cf_id q) = (mset (map cf_id q') + r) + mset (map cf_id q)"
    using step by (simp add: qstep_def ac_simps)
  then have "mset (w_heap w') = mset (map cf_id q') + r" by simp
  then show "in_heap q' w'" using step by (simp add: in_heap_def qstep_def calm_def)
qed

lemma os_wf_remove [simp]: "os_wf w \<Longrightarrow> os_wf (w\<lparr>w_fds := remove1 fd (w_fds w)\<rparr>)"
  "os_wf w \<Longrightarrow> os_wf (w\<lparr>w_heap := remove1 i (w_heap w)\<rparr>)"
  by (auto simp: os_wf_def dest: notin_set_remove1)

lemma os_wf_log [simp]: "os_wf (w\<lparr>w_log := l\<rparr>) = os_wf w" "os_wf (w\<lparr>w_errno := e\<rparr>) = os_wf w"
  "os_wf (w\<lparr>w_badfd := b\<rparr>) = os_wf w" "os_wf (w\<lparr>w_fault := b\<rparr>) = os_wf w"
  by (simp_all add: os_wf_def)

text \<open>Closing a descriptor leaves the blocks alone.\<close>

lemma wp_close_calm:
  assumes "os_wf w" and "\<And>r w'. calm w w' \<Longrightarrow> w_heap w' = w_heap w \<Longrightarrow>
      w_fds w' = remove1 fd (w_fds w) \<Longrightarrow> w_next w' = w_next w \<Longrightarrow> Q r w'"
  shows "wp (c_close fd) Q w"
  by (rule wp_c_close) (use assms in \<open>auto intro!: assms(2) simp: calm_def remove1_idem os_wf_def\<close>)

lemma appendFd_account:
  assumes "os_wf w"
  shows "wp (appendFd q fd dc) (\<lambda>q' w'. qstep q w q' w' \<and>
    (q' = q \<and> \<not> mem_ok w \<and> w_fds w' = remove1 fd (w_fds w) \<or>
     (\<exists>n. q' = q @ [n] \<and> cf_fd n = fd \<and> w_fds w' = w_fds w))) w"
  unfolding appendFd_def wp_bind
  by (rule wp_malloc_mem)
    (use assms os_wf_fresh [OF assms] in \<open>auto intro!: wp_close_calm simp: qstep_def calm_def os_wf_def\<close>)

lemma removeFd_account:
  assumes "in_heap q w"
  shows "wp (removeFd q) (\<lambda>(fd, q') w'. qstep q w q' w' \<and> w_fds w' = w_fds w \<and>
    (case q of [] \<Rightarrow> fd = -1 \<and> q' = [] | n # ns \<Rightarrow> fd = cf_fd n \<and> q' = ns)) w"
proof (cases q)
  case Nil
  then show ?thesis using assms by (simp add: removeFd_def qstep_def in_heap_def calm_refl)
next
  case (Cons n ns)
  then have "cf_id n \<in> set (w_heap w)"
    using assms by (auto simp: in_heap_def dest: mset_subset_eqD)
  then show ?thesis
    using assms Cons by (simp add: removeFd_def qstep_def calm_def in_heap_def os_wf_def notin_set_remove1)
qed

lemma discardFd_account:
  "in_heap q w \<Longrightarrow> wp (discardFd q None dc) (\<lambda>q' w'. q' = [] \<and> qstep q w [] w') w"
proof (induction q arbitrary: w)
  case Nil
  then show ?case by (simp add: in_heap_def qstep_refl)
next
  case (Cons n ns)
  have step: "wp (free_block (cf_id n)) (\<lambda>_. wp (discardFd ns None dc) (\<lambda>q' w'. q' = [] \<and> qstep (n # ns) w [] w')) u"
    if u: "calm w u" "w_heap u = w_heap w" for u
  proof -
    have mem: "cf_id n \<in> set (w_heap u)"
      using Cons.prems u by (auto simp: in_heap_def dest: mset_subset_eqD)
    let ?v = "u\<lparr>w_heap := remove1 (cf_id n) (w_heap u)\<rparr>"
    have "os_wf ?v" using u(1) by (simp add: calm_def)
    then have "qstep (n # ns) w ns ?v"
      using u mem by (simp add: qstep_def calm_def)
    moreover from this have "in_heap ns ?v" using Cons.prems qstep_in_heap by blast
    ultimately show ?thesis
      using mem Cons.IH [of ?v] by (auto elim!: wp_mono intro: qstep_trans)
  qed
  show ?case
    using Cons.prems step
    by (auto simp: in_heap_def calm_refl intro!: wp_close_calm)
qed

section \<open>Received descriptors\<close>

text \<open>Opening descriptors leaves the blocks alone.\<close>

lemma new_fds_account:
  "os_wf w \<Longrightarrow> wp (new_fds n) (\<lambda>fds w'. calm w w' \<and> w_heap w' = w_heap w \<and> w_fds w' = rev fds @ w_fds w \<and>
     length fds = n) w"
proof (induction n arbitrary: w)
  case 0
  then show ?case by (simp add: calm_refl)
next
  case (Suc n)
  let ?u = "w\<lparr>w_fds := lowest_fd (w_fds w) # w_fds w\<rparr>"
  have "os_wf ?u" and "calm w ?u" using Suc.prems by (simp_all add: os_wf_def calm_def)
  then show ?case
    using Suc.IH [of ?u] by (auto elim!: wp_mono intro: calm_trans)
qed

definition rights :: "(int \<times> int \<times> int list) list \<Rightarrow> int list" where
  "rights hdrs = concat (map (\<lambda>(level, type, fds). if level = SOL_SOCKET \<and> type = SCM_RIGHTS then fds else []) hdrs)"

definition announced :: "(int \<times> int \<times> nat) list \<Rightarrow> nat" where
  "announced ms = sum_list (map (\<lambda>(level, type, n). if level = SOL_SOCKET \<and> type = SCM_RIGHTS then n else 0) ms)"

lemma install_rights_account:
  "os_wf w \<Longrightarrow> wp (install_rights ms) (\<lambda>hdrs w'. calm w w' \<and> w_heap w' = w_heap w \<and>
     w_fds w' = rev (rights hdrs) @ w_fds w \<and> length (rights hdrs) = announced ms) w"
proof (induction ms arbitrary: w)
  case Nil
  then show ?case by (simp add: calm_refl rights_def announced_def)
next
  case (Cons m ms)
  obtain level type n where m: "m = (level, type, n)" by (cases m) auto
  have rest: "wp (install_rights ms) (\<lambda>hdrs w'. calm w w' \<and> w_heap w' = w_heap w \<and>
      w_fds w' = rev (rights ((level, type, fds) # hdrs)) @ w_fds w \<and>
      length (rights ((level, type, fds) # hdrs)) = announced (m # ms)) u"
    if "calm w u" "w_heap u = w_heap w" "w_fds u = rev fds @ w_fds w"
      "if level = 1 \<and> type = 1 then length fds = n else fds = []" for fds u
    using that Cons.IH [of u]
    by (auto simp: calm_def rights_def announced_def m split: if_splits elim!: wp_mono)
  show ?case
    unfolding m install_rights.simps wp_bind wp_return wp_if
    using rest Cons.prems m by (auto intro!: new_fds_account [THEN wp_mono] simp: calm_refl)
qed

lemma appendFds_account:
  "os_wf w \<Longrightarrow> mset fds \<subseteq># mset (w_fds w) \<Longrightarrow> wp (appendFds q fds) (\<lambda>q' w'. qstep q w q' w' \<and>
     (\<exists>new. q' = q @ new \<and> mset (w_fds w') + mset fds = mset (w_fds w) + mset (map cf_fd new) \<and>
       (mem_ok w \<longrightarrow> map cf_fd new = fds))) w"
proof (induction fds arbitrary: q w)
  case Nil
  then show ?case by (simp add: qstep_refl)
next
  case (Cons fd fds)
  from Cons.prems(2) have sub: "mset fds \<subseteq># mset (w_fds w) - {#fd#}" "fd \<in># mset (w_fds w)"
    by (auto simp: insert_subset_eq_iff)
  show ?case
    unfolding appendFds.simps wp_bind
  proof (rule appendFd_account [OF Cons.prems(1), THEN wp_mono], elim conjE disjE exE, goal_cases)
    case (1 q' u)
    have fds: "mset fds \<subseteq># mset (w_fds u)" "mset (w_fds w) = add_mset fd (mset (w_fds u))"
      using 1 sub by simp_all
    have "os_wf u" using 1 by (simp add: qstep_def calm_def)
    show ?case
    proof (rule wp_mono [OF Cons.IH [OF \<open>os_wf u\<close> fds(1), of q']], elim conjE exE)
      fix q'' v new
      assume v: "qstep q' u q'' v" "q'' = q' @ new"
        "mset (w_fds v) + mset fds = mset (w_fds u) + mset (map cf_fd new)"
      have "qstep q w q'' v" using 1(1) v(1) by (rule qstep_trans)
      then show "qstep q w q'' v \<and> (\<exists>new. q'' = q @ new \<and>
          mset (w_fds v) + mset (fd # fds) = mset (w_fds w) + mset (map cf_fd new) \<and>
          (mem_ok w \<longrightarrow> map cf_fd new = fd # fds))"
        using 1(2,3) v(2,3) fds(2) by simp
    qed
  next
    case (2 q' u n)
    have fds: "mset fds \<subseteq># mset (w_fds u)"
      using 2 sub(1) diff_subset_eq_self subset_mset.trans by fastforce
    have u: "os_wf u" "mem_ok u = mem_ok w" using 2 by (simp_all add: qstep_def calm_def mem_ok_def)
    show ?case
    proof (rule wp_mono [OF Cons.IH [OF u(1) fds, of q']], elim conjE exE)
      fix q'' v new
      assume v: "qstep q' u q'' v" "q'' = q' @ new"
        "mset (w_fds v) + mset fds = mset (w_fds u) + mset (map cf_fd new)"
        "mem_ok u \<longrightarrow> map cf_fd new = fds"
      have "qstep q w q'' v" using 2(1) v(1) by (rule qstep_trans)
      then show "qstep q w q'' v \<and> (\<exists>new. q'' = q @ new \<and>
          mset (w_fds v) + mset (fd # fds) = mset (w_fds w) + mset (map cf_fd new) \<and>
          (mem_ok w \<longrightarrow> map cf_fd new = fd # fds))"
        using 2 v(2-4) u(2) by (auto intro!: exI [of _ "n # new"])
    qed
  qed
qed

lemma appendFds_append: "appendFds q (a @ b) = State_Monad.bind (appendFds q a) (\<lambda>q. appendFds q b)"
  by (induction a arbitrary: q) simp_all

lemma collect_fds_rights: "collect_fds q hdrs = appendFds q (rights hdrs)"
proof (induction hdrs arbitrary: q)
  case (Cons h hdrs)
  then show ?case by (cases h) (auto simp: rights_def appendFds_append)
qed (simp add: rights_def)

lemma recvmsg_fds_account:
  assumes "os_wf w"
  shows "wp (recvmsg_fds c n) (\<lambda>(r, d, c') w'. calm w w' \<and> length d \<le> n \<and> (\<exists>new.
    c' = c\<lparr>recv_fds := recv_fds c @ new\<rparr> \<and> qstep (recv_fds c) w (recv_fds c') w' \<and>
    mset (w_fds w') = mset (w_fds w) + mset (map cf_fd new) \<and>
    (mem_ok w \<longrightarrow> length new = (let a = w_env w (w_log w) (Recvmsg (c_fd c) n)
       in if 0 \<le> r_ret a then announced (r_cmsgs a) else 0)))) w"
proof -
  define a where "a = w_env w (w_log w) (Recvmsg (c_fd c) n)"
  let ?Q = "\<lambda>(r, d, c') w'. calm w w' \<and> length d \<le> n \<and> (\<exists>new.
    c' = c\<lparr>recv_fds := recv_fds c @ new\<rparr> \<and> qstep (recv_fds c) w (recv_fds c') w' \<and>
    mset (w_fds w') = mset (w_fds w) + mset (map cf_fd new) \<and>
    (mem_ok w \<longrightarrow> length new = (if 0 \<le> r_ret a then announced (r_cmsgs a) else 0)))"
  have fail: "?Q (r_ret a, [], c) (w\<lparr>w_log := l, w_errno := e\<rparr>)" if "\<not> 0 \<le> r_ret a" for l e
    using that assms by (auto simp: calm_refl qstep_refl intro!: exI [of _ "[]"])
  have got: "wp (do { hdrs \<leftarrow> install_rights (r_cmsgs a); q \<leftarrow> collect_fds (recv_fds c) hdrs;
       return (r_ret a, take n (r_data a), c\<lparr>recv_fds := q\<rparr>) }) ?Q v"
    if "0 \<le> r_ret a" and v: "v = w\<lparr>w_log := l, w_errno := e\<rparr>" for v l e
    unfolding collect_fds_rights wp_bind wp_return
  proof (rule wp_mono [OF install_rights_account], use v assms in simp, elim conjE, goal_cases)
    case (1 hdrs u)
    have u: "os_wf u" "mset (rights hdrs) \<subseteq># mset (w_fds u)" and w_u: "calm w u" "w_heap u = w_heap w"
        "mset (w_fds u) = mset (w_fds w) + mset (rights hdrs)" "mem_ok u = mem_ok w"
      using 1 v by (simp_all add: calm_def mem_ok_def)
    show ?case
    proof (rule wp_mono [OF appendFds_account [OF u, of "recv_fds c"]], elim conjE exE)
      fix q x new
      assume x: "qstep (recv_fds c) u q x" "q = recv_fds c @ new"
        "mset (w_fds x) + mset (rights hdrs) = mset (w_fds u) + mset (map cf_fd new)"
        "mem_ok u \<longrightarrow> map cf_fd new = rights hdrs"
      have fds: "mset (w_fds x) = mset (w_fds w) + mset (map cf_fd new)"
        using x(3) unfolding w_u(3) by (simp add: ac_simps)
      have step: "qstep (recv_fds c) w q x" using x(1) w_u(1,2) calm_trans unfolding qstep_def by auto
      have len: "mem_ok w \<longrightarrow> length new = announced (r_cmsgs a)"
        using x(4) w_u(4) 1(4) length_map by metis
      show "?Q (r_ret a, take n (r_data a), c\<lparr>recv_fds := q\<rparr>) x"
        using fds step len x(2) that(1) by (auto simp: qstep_def)
    qed
  qed
  show ?thesis
    unfolding recvmsg_fds_def Let_def wp_bind [of "sys _"] a_def [symmetric]
    by (rule wp_sys_env) (use fail got in \<open>simp add: a_def [symmetric] del: wp_bind\<close>)
qed

text \<open>
  (C10) Reading never loses a descriptor: each one that came with the data is in the queue of the
  connection, in a node of its own, or was closed again because there was no memory for a node;
  with enough memory all of them are queued. No more bytes are stored than the buffer holds.
\<close>

theorem read_keeps_descriptors:
  assumes "os_wf w" and "cfg_send_fds cfg"
  shows "wp (SocketRead cfg c n) (\<lambda>(r, d, c') w'. length d \<le> n \<and> w_fault w' = w_fault w \<and> (\<exists>new.
    c' = c\<lparr>recv_fds := recv_fds c @ new\<rparr> \<and>
    mset (w_fds w') = mset (w_fds w) + mset (map cf_fd new) \<and>
    mset (w_heap w') = mset (w_heap w) + mset (map cf_id new) \<and>
    (mem_ok w \<longrightarrow> length new = (let a = w_env w (w_log w) (Recvmsg (c_fd c) n)
       in if 0 \<le> r_ret a then announced (r_cmsgs a) else 0)))) w"
proof -
  have "SocketRead cfg c n = recvmsg_fds c n" using assms(2) by (simp add: SocketRead_def)
  then show ?thesis
  proof (simp only:, intro recvmsg_fds_account [OF assms(1), THEN wp_mono], clarify, goal_cases)
    case (1 r d c' w' new)
    have "mset (w_heap w') + mset (map cf_id (recv_fds c)) =
        mset (w_heap w) + mset (map cf_id new) + mset (map cf_id (recv_fds c))"
      using 1 by (simp add: qstep_def ac_simps)
    then have "mset (w_heap w') = mset (w_heap w) + mset (map cf_id new)" by simp
    then show ?case using 1 unfolding calm_def by blast
  qed
qed

theorem read_keeps_descriptors_witness:
  "wp (SocketRead sample_config (zero_conn 0) 8) (\<lambda>(r, d, c') w'. length (recv_fds c') = 2)
     ((sample_world [])\<lparr>w_env := \<lambda>_ _. (resp_of 1 0 ''x'')\<lparr>r_cmsgs := [(1, 1, 2)]\<rparr>\<rparr>)"
proof -
  let ?w = "(sample_world [])\<lparr>w_env := \<lambda>_ _. (resp_of 1 0 ''x'')\<lparr>r_cmsgs := [(1, 1, 2)]\<rparr>\<rparr>"
  have "os_wf ?w" "mem_ok ?w" by (simp_all add: os_wf_def mem_ok_def resp_of_def)
  then show ?thesis
    by (intro read_keeps_descriptors [of ?w sample_config "zero_conn 0" 8, THEN wp_mono])
      (clarsimp simp: resp_of_def announced_def)+
qed

section \<open>The account of a connection\<close>

text \<open>A connection whose pointers all point to blocks of their own.\<close>

definition own_ptrs :: "conn \<Rightarrow> bool" where
  "own_ptrs c \<longleftrightarrow> (\<forall>a. c_addr c \<noteq> Inner a \<and> c_peeraddr c \<noteq> Inner a \<and> c_port c \<noteq> Inner a)"

lemma own_ptrs_queue [simp]: "own_ptrs (c\<lparr>recv_fds := q\<rparr>) = own_ptrs c" "own_ptrs (c\<lparr>send_fds := q\<rparr>) = own_ptrs c"
  by (simp_all add: own_ptrs_def)

text \<open>The blocks of a connection with its queues; \<open>H\<close> are the other blocks of the process.\<close>

definition owned :: "conn \<Rightarrow> nat list" where
  "owned c = conn_blocks c @ map cf_id (recv_fds c) @ map cf_id (send_fds c)"

definition conn_inv :: "nat multiset \<Rightarrow> transp \<Rightarrow> conn \<Rightarrow> xworld \<Rightarrow> bool" where
  "conn_inv H t c w \<longleftrightarrow> os_wf w \<and> \<not> w_fault w \<and> mset (w_heap w) = mset (owned c) + H \<and>
     transptr c = Some t \<and> c_flags c = 0 \<and> own_ptrs c"

lemma conn_inv_calm: "conn_inv H t c w \<Longrightarrow> calm w w' \<Longrightarrow> w_heap w' = w_heap w \<Longrightarrow> conn_inv H t c w'"
  by (simp add: conn_inv_def calm_def)

lemma conn_inv_recv:
  assumes "conn_inv H t c w" and "qstep (recv_fds c) w q' w'"
  shows "conn_inv H t (c\<lparr>recv_fds := q'\<rparr>) w'"
proof -
  have "mset (w_heap w') + mset (map cf_id (recv_fds c)) =
      mset (owned (c\<lparr>recv_fds := q'\<rparr>)) + H + mset (map cf_id (recv_fds c))"
    using assms by (simp add: qstep_def conn_inv_def owned_def conn_blocks_def ac_simps)
  then show ?thesis using assms by (simp add: qstep_def conn_inv_def calm_def)
qed

lemma conn_inv_send:
  assumes "conn_inv H t c w" and "qstep (send_fds c) w q' w'"
  shows "conn_inv H t (c\<lparr>send_fds := q'\<rparr>) w'"
proof -
  have "mset (w_heap w') + mset (map cf_id (send_fds c)) =
      mset (owned (c\<lparr>send_fds := q'\<rparr>)) + H + mset (map cf_id (send_fds c))"
    using assms by (simp add: qstep_def conn_inv_def owned_def conn_blocks_def ac_simps)
  then show ?thesis using assms by (simp add: qstep_def conn_inv_def calm_def)
qed

lemma conn_inv_in_heap: "conn_inv H t c w \<Longrightarrow> in_heap (recv_fds c) w \<and> in_heap (send_fds c) w"
  by (simp add: conn_inv_def in_heap_def owned_def subset_mset.add_increasing subset_mset.add_increasing2)

lemma conn_inv_log [simp]: "conn_inv H t c (w\<lparr>w_log := l\<rparr>) = conn_inv H t c w"
  "conn_inv H t c (w\<lparr>w_errno := e\<rparr>) = conn_inv H t c w"
  by (simp_all add: conn_inv_def)

lemma conn_inv_trans [simp]: "conn_inv H t c w \<Longrightarrow> wp (trans_of c) Q u = Q t u"
  by (simp add: conn_inv_def)

lemma recvmsg_inv: "conn_inv H t c w \<Longrightarrow> wp (recvmsg_fds c n) (\<lambda>(r, d, c') w'. conn_inv H t c' w') w"
proof (rule recvmsg_fds_account [THEN wp_mono], simp add: conn_inv_def, clarify)
  fix r d w' new
  assume "conn_inv H t c w" and "qstep (recv_fds c) w (recv_fds (c\<lparr>recv_fds := recv_fds c @ new\<rparr>)) w'"
  then show "conn_inv H t (c\<lparr>recv_fds := recv_fds c @ new\<rparr>) w'" by (intro conn_inv_recv) simp_all
qed

lemma Read_inv: "conn_inv H t c w \<Longrightarrow> wp (TransRead cfg c n) (\<lambda>(r, d, c') w'. conn_inv H t c' w') w"
  unfolding TransRead_def SocketRead_def by (auto intro!: recvmsg_inv wp_sys)

lemma Readv_inv: "conn_inv H t c w \<Longrightarrow> wp (TransReadv cfg c ns) (\<lambda>(r, d, c') w'. conn_inv H t c' w') w"
  unfolding TransReadv_def SocketReadv_def by (auto intro!: recvmsg_inv wp_sys)

lemma SocketWritev_inv:
  assumes "conn_inv H t c w" and "length (send_fds c) \<le> 128"
  shows "wp (SocketWritev cfg c bufs) (\<lambda>(r, c') w'. conn_inv H t c' w') w"
proof -
  have "wp (discardFd (send_fds c) None False) (\<lambda>q w'. conn_inv H t (c\<lparr>send_fds := q\<rparr>) w')
      (w\<lparr>w_log := l, w_errno := e\<rparr>)" for l e
    by (rule discardFd_account [THEN wp_mono])
      (use assms(1) conn_inv_in_heap conn_inv_log conn_inv_send in \<open>blast+\<close>)
  then show ?thesis
    unfolding SocketWritev_def Let_def nFd_def wp_bind wp_if wp_return using assms by (auto intro!: wp_sys)
qed

lemma Write_inv:
  assumes "conn_inv H t c w" and "length (send_fds c) \<le> 128"
  shows "wp (TransWrite cfg c buf) (\<lambda>(r, c') w'. conn_inv H t c' w') w"
    and "wp (TransWritev cfg c bufs) (\<lambda>(r, c') w'. conn_inv H t c' w') w"
  unfolding TransWrite_def TransWritev_def SocketWrite_def
  using assms SocketWritev_inv by (auto intro!: wp_sys)

lemma SendFd_inv:
  assumes "conn_inv H t c w"
  shows "wp (TransSendFd c fd dc) (\<lambda>(r, c') w'. conn_inv H t c' w') w"
proof -
  have "wp (appendFd (send_fds c) fd dc) (\<lambda>q w'. conn_inv H t (c\<lparr>send_fds := q\<rparr>) w') w"
    by (rule appendFd_account [THEN wp_mono], use assms in \<open>simp add: conn_inv_def\<close>)
      (use assms conn_inv_send in blast)
  then show ?thesis
    unfolding TransSendFd_def SocketSendFd_def SocketSendFdInvalid_def wp_bind wp_if wp_return
    using assms by simp
qed

lemma RecvFd_inv:
  assumes "conn_inv H t c w"
  shows "wp (TransRecvFd c) (\<lambda>(r, c') w'. conn_inv H t c' w') w"
proof -
  have "wp (removeFd (recv_fds c)) (\<lambda>(fd, q) w'. conn_inv H t (c\<lparr>recv_fds := q\<rparr>) w') w"
    by (rule removeFd_account [THEN wp_mono]) (use assms conn_inv_in_heap conn_inv_recv in blast)+
  then show ?thesis
    unfolding TransRecvFd_def SocketRecvFd_def SocketRecvFdInvalid_def using assms
    by (auto elim!: wp_mono)
qed

lemma free_ptr_owned:
  assumes "os_wf w" and "mset (w_heap w) = mset (blocks p) + M" and "\<And>a. p \<noteq> Inner a"
    and "\<And>w'. os_wf w' \<Longrightarrow> w_fault w' = w_fault w \<Longrightarrow> w_fds w' = w_fds w \<Longrightarrow> g_flags w' = g_flags w \<Longrightarrow>
      w_umask w' = w_umask w \<Longrightarrow> mset (w_heap w') = M \<Longrightarrow> Q () w'"
  shows "wp (free_ptr p) Q w"
proof (cases p)
  case (Ptr i a)
  then have "i \<in># mset (w_heap w)" using assms(2) by simp
  then have mem: "i \<in> set (w_heap w)" by simp
  have "mset (remove1 i (w_heap w)) = M" using assms(2) Ptr by simp
  then have "Q () (w\<lparr>w_heap := remove1 i (w_heap w)\<rparr>)" using assms(1) by (intro assms(4)) simp_all
  then show ?thesis using mem Ptr by simp
qed (use assms in \<open>auto\<close>)

lemma FreeConnInfo_account:
  assumes "os_wf w" and "mset (w_heap w) = mset (conn_blocks c) + M" and "own_ptrs c"
    and "\<And>w'. os_wf w' \<Longrightarrow> w_fault w' = w_fault w \<Longrightarrow> w_fds w' = w_fds w \<Longrightarrow> g_flags w' = g_flags w \<Longrightarrow>
      w_umask w' = w_umask w \<Longrightarrow> mset (w_heap w') = M \<Longrightarrow> Q () w'"
  shows "wp (FreeConnInfo c) Q w"
proof -
  have last: "wp (free_block (c_id c)) Q u" if "os_wf u" "w_fault u = w_fault w" "w_fds u = w_fds w"
      "g_flags u = g_flags w" "w_umask u = w_umask w" "mset (w_heap u) = {#c_id c#} + M" for u
    using free_ptr_owned [of u "Ptr (c_id c) ()" M Q] that assms(4) by simp
  have own: "c_addr c \<noteq> Inner a" "c_peeraddr c \<noteq> Inner a" "c_port c \<noteq> Inner a" for a
    using assms(3) by (simp_all add: own_ptrs_def)
  show ?thesis
    unfolding FreeConnInfo_def wp_bind
  proof (rule free_ptr_owned [OF assms(1) _ own(1)])
    show "mset (w_heap w) = mset (blocks (c_addr c)) +
        (mset (blocks (c_peeraddr c)) + (mset (blocks (c_port c)) + ({#c_id c#} + M)))"
      unfolding assms(2) conn_blocks_def by (simp add: ac_simps)
    fix u :: xworld
    assume u: "os_wf u" "w_fault u = w_fault w" "w_fds u = w_fds w" "g_flags u = g_flags w"
      "w_umask u = w_umask w"
      "mset (w_heap u) = mset (blocks (c_peeraddr c)) + (mset (blocks (c_port c)) + ({#c_id c#} + M))"
    show "wp (free_ptr (c_peeraddr c)) (\<lambda>a. wp (free_ptr (c_port c)) (\<lambda>a. wp (free_block (c_id c)) Q)) u"
      by (rule free_ptr_owned [OF u(1,6) own(2)], rule free_ptr_owned [OF _ _ own(3)], assumption+,
          rule last) (use u(2-5) in simp_all)
  qed
qed

lemma cleanupFds_account:
  assumes "conn_inv H t c w"
  shows "wp (cleanupFds c) (\<lambda>c' w'. c' = c\<lparr>send_fds := [], recv_fds := []\<rparr> \<and> conn_inv H t c' w') w"
  unfolding cleanupFds_def wp_bind wp_return
proof (rule discardFd_account [THEN wp_mono], use assms conn_inv_in_heap in blast, elim conjE)
  fix s :: "connfd list" and u
  assume s: "s = []" and "qstep (send_fds c) w [] u"
  then have inv: "conn_inv H t (c\<lparr>send_fds := []\<rparr>) u" using assms conn_inv_send by blast
  then have "in_heap (recv_fds c) u" using conn_inv_in_heap [OF inv] by simp
  then show "wp (discardFd (recv_fds c) None True) (\<lambda>r w'. c\<lparr>send_fds := s, recv_fds := r\<rparr> =
      c\<lparr>send_fds := [], recv_fds := []\<rparr> \<and> conn_inv H t (c\<lparr>send_fds := s, recv_fds := r\<rparr>) w') u"
  proof (rule discardFd_account [THEN wp_mono], elim conjE)
    fix r :: "connfd list" and v
    assume "r = []" and "qstep (recv_fds c) u [] v"
    then have "conn_inv H t (c\<lparr>send_fds := [], recv_fds := []\<rparr>) v"
      using conn_inv_recv [OF inv, of "[]" v] by simp
    then show "c\<lparr>send_fds := s, recv_fds := r\<rparr> = c\<lparr>send_fds := [], recv_fds := []\<rparr> \<and>
        conn_inv H t (c\<lparr>send_fds := s, recv_fds := r\<rparr>) v"
      using s \<open>r = []\<close> by simp
  qed
qed

text \<open>Closing a client connection over a Unix socket gives back all its blocks.\<close>

lemma Close_account:
  assumes "conn_inv H t c w" and "is_unix t" and "cfg_send_fds cfg"
  shows "wp (TransClose cfg c) (\<lambda>_ w'. os_wf w' \<and> \<not> w_fault w' \<and> mset (w_heap w') = H) w"
proof -
  let ?c = "c\<lparr>send_fds := [], recv_fds := []\<rparr>"
  have free: "wp (FreeConnInfo ?c) (\<lambda>_ w'. os_wf w' \<and> \<not> w_fault w' \<and> mset (w_heap w') = H) u"
    if "conn_inv H t ?c u" for u
    using that by (intro FreeConnInfo_account [where M = H]) (simp_all add: conn_inv_def owned_def)
  have close: "wp (c_close (c_fd c)) (\<lambda>_. wp (FreeConnInfo ?c) (\<lambda>_ w'. os_wf w' \<and> \<not> w_fault w' \<and>
      mset (w_heap w') = H)) u" if "conn_inv H t ?c u" for u
    using that by (intro wp_close_calm free) (auto simp: conn_inv_def calm_def)
  have flags: "c_flags c = 0" using assms(1) by (simp add: conn_inv_def)
  show ?thesis
    unfolding TransClose_def SocketUNIXClose_def wp_bind
    using assms flags
    by (simp, intro cleanupFds_account [THEN wp_mono]) (auto simp: close wp_fun)
qed

end
