(* ===== verification/Session.thy ===== *)
theory Session
  imports ConnLife
begin

text \<open>
  A whole session of a client: opening a connection to a Unix socket, connecting, any sequence of
  reads, writes and descriptor passing, and closing. The heap ends as it began.
\<close>

section \<open>Opening\<close>

lemma free_parsed:
  assumes "os_wf w" and "mset (w_heap w) = {#i#} + M"
    and "\<And>w'. os_wf w' \<Longrightarrow> w_fault w' = w_fault w \<Longrightarrow> w_fds w' = w_fds w \<Longrightarrow> g_flags w' = g_flags w \<Longrightarrow>
      w_umask w' = w_umask w \<Longrightarrow> mset (w_heap w') = M \<Longrightarrow> Q () w'"
  shows "wp (free_ptr (Ptr i a)) Q w"
  by (rule free_ptr_owned [OF assms(1), where M = M]) (use assms(2,3) in simp_all)

lemma free_two:
  assumes "os_wf w" and "mset (w_heap w) = {#i#} + ({#j#} + M)"
    and "\<And>w'. os_wf w' \<Longrightarrow> w_fault w' = w_fault w \<Longrightarrow> w_fds w' = w_fds w \<Longrightarrow> g_flags w' = g_flags w \<Longrightarrow>
      w_umask w' = w_umask w \<Longrightarrow> mset (w_heap w') = M \<Longrightarrow> wp m Q w'"
  shows "wp (State_Monad.bind (free_ptr (Ptr i p)) (\<lambda>_. State_Monad.bind (free_ptr (Ptr j h)) (\<lambda>_. m))) Q w"
  unfolding wp_bind
  by (rule free_parsed [OF assms(1,2)], rule free_parsed, assumption+) (rule assms(3); simp)

lemma free_three:
  assumes "os_wf w" and "mset (w_heap w) = {#i#} + ({#j#} + ({#k#} + M))"
    and "\<And>w'. os_wf w' \<Longrightarrow> w_fault w' = w_fault w \<Longrightarrow> w_fds w' = w_fds w \<Longrightarrow> g_flags w' = g_flags w \<Longrightarrow>
      w_umask w' = w_umask w \<Longrightarrow> mset (w_heap w') = M \<Longrightarrow> wp m Q w'"
  shows "wp (State_Monad.bind (free_ptr (Ptr i p)) (\<lambda>_. State_Monad.bind (free_ptr (Ptr j h))
    (\<lambda>_. State_Monad.bind (free_ptr (Ptr k q)) (\<lambda>_. m)))) Q w"
  by (rule free_two [OF assms(1,2)], unfold wp_bind, rule free_parsed, assumption+) (rule assms(3); simp)

lemma TransOpenClient_inv:
  assumes "os_wf w" and "\<not> w_fault w" and "\<not> checks_open_max cfg"
    and "0 \<le> r_ret (w_env w (w_log w) (Malloc (length address + 1)))"
  shows "wp (TransOpenCOTSClient cfg address) (\<lambda>r w'. case r of
      None \<Rightarrow> os_wf w' \<and> \<not> w_fault w' \<and> mset (w_heap w') = mset (w_heap w)
    | Some c \<Rightarrow> (\<exists>t. conn_inv (mset (w_heap w)) t c w') \<and> c_addr c = Null \<and> c_peeraddr c = Null) w"
proof -
  let ?Q = "\<lambda>r w'. case r of
      None \<Rightarrow> os_wf w' \<and> \<not> w_fault w' \<and> mset (w_heap w') = mset (w_heap w)
    | Some c \<Rightarrow> (\<exists>t. conn_inv (mset (w_heap w)) t c w') \<and> c_addr c = Null \<and> c_peeraddr c = Null"
  show ?thesis
    unfolding TransOpenCOTSClient_def TransOpen_def wp_bind [of "ParseAddress _ _"]
  proof (rule ParseAddress_spec [OF assms(1,4), THEN wp_mono], goal_cases)
    case (1 r u)
    show ?case
    proof (cases r)
      case None
      then show ?thesis using 1 assms(2) by (simp add: parse_post_def kept_def)
    next
      case (Some x)
      then obtain i p' j h' k q' where x: "x = (Ptr i p', Ptr j h', Ptr k q')"
        using 1 by (auto simp: parse_post_def)
      have u: "os_wf u" "\<not> w_fault u" "w_heap u = [k, j, i] @ w_heap w"
        using 1 assms(2) Some x by (auto simp: parse_post_def kept_def)
      then have heap: "mset (w_heap u) = {#i#} + ({#j#} + ({#k#} + mset (w_heap w)))" by simp
      show ?thesis
      proof (cases "SelectTransport cfg p'")
        case none: None
        then show ?thesis
          unfolding Some x option.case prod.case deref.simps none using u(2)
          by (intro free_three [OF u(1) heap]) simp
      next
        case t: (Some t)
        have base: "wp (SocketOpenCOTSClientBase cfg (TransName t) (-1)) (\<lambda>c. wp (case c of
             None \<Rightarrow> do { free_ptr (Ptr i p'); free_ptr (Ptr j h'); free_ptr (Ptr k q'); return None }
           | Some ciptr \<Rightarrow> do { free_ptr (Ptr i p'); free_ptr (Ptr j h');
               return (Some (ciptr\<lparr>transptr := Some t, c_port := Ptr k q'\<rparr>)) }) ?Q) u"
        proof (rule SocketOpenCOTSClientBase_spec [OF assms(3) u(1), THEN wp_mono_option], goal_cases)
          case (1 v)
          then have "os_wf v" "\<not> w_fault v" "mset (w_heap v) = {#i#} + ({#j#} + ({#k#} + mset (w_heap w)))"
            using u(2) heap by (simp_all add: not_opened_def)
          then show ?case unfolding option.case by (intro free_three) simp_all
        next
          case (2 c v)
          then have "opened u v c" "os_wf v" "\<not> w_fault v"
              "mset (w_heap v) = {#i#} + ({#j#} + ({#k#} + ({#c_id c#} + mset (w_heap w))))"
            using u(2) heap by (simp_all add: opened_def)
          then show ?case
            unfolding option.case
            by (intro free_two) (auto simp: opened_def conn_inv_def owned_def conn_blocks_def own_ptrs_def)
        qed
        then show ?thesis
          by (simp add: Some x t SocketOpenCOTSClient_def Let_def
              wp_bind [of "SocketOpenCOTSClientBase _ _ _"] del: free_ptr.simps wp_free_ptr wp_bind wp_option)
      qed
    qed
  qed
qed

section \<open>Connecting\<close>

lemma SocketUNIXConnect_inv:
  assumes "conn_inv H t c w" and "c_addr c = Null" and "c_peeraddr c = Null"
  shows "wp (SocketUNIXConnect cfg c host port) (\<lambda>(r, c') w'. conn_inv H t c' w') w"
proof (rule SocketUNIXConnect_spec [where t = t, THEN wp_mono], goal_cases)
  case (3 x w')
  obtain r c' where x: "x = (r, c')" by (cases x)
  have "unix_same w w'" and alloc: "unix_alloc c w r c' w'" using 3 by (simp_all add: x unix_connect_post_def)
  then have world: "os_wf w'" "\<not> w_fault w'" using assms(1) by (simp_all add: unix_same_def conn_inv_def)
  have inv: "mset (w_heap w) = mset (owned c) + H" "transptr c = Some t" "c_flags c = 0" "own_ptrs c"
    using assms(1) by (simp_all add: conn_inv_def)
  have "mset (w_heap w') = mset (owned c') + H" "transptr c' = Some t" "c_flags c' = 0" "own_ptrs c'"
    using alloc inv assms(2,3)
    by (auto simp: unix_alloc_def owned_def conn_blocks_def own_ptrs_def split: if_splits)
  then show ?case using world by (simp add: x conn_inv_def)
qed (use assms(1) in \<open>simp_all add: conn_inv_def\<close>)

lemma Connect_inv:
  assumes inv: "conn_inv H t c w" and "c_addr c = Null" and "c_peeraddr c = Null" and "is_unix t"
    and alloc: "0 \<le> r_ret (w_env w (w_log w) (Malloc (length address + 1)))"
    and port: "\<And>prot host port. address_parts address prot host port \<Longrightarrow> parse_port cfg port \<noteq> []"
  shows "wp (TransConnect cfg c address) (\<lambda>(r, c') w'. conn_inv H t c' w') w"
  unfolding TransConnect_def wp_bind [of "ParseAddress _ _"]
proof (rule ParseAddress_spec [THEN wp_mono], goal_cases)
  case (3 r u)
  show ?case
  proof (cases r)
    case None
    then show ?thesis
      using 3 inv by (auto simp: parse_post_def conn_inv_def kept_def)
  next
    case (Some x)
    then obtain i p' j h' k q' where x: "x = (Ptr i p', Ptr j h', Ptr k q')" and q': "q' \<noteq> []"
      using 3 port by (auto simp: parse_post_def)
    have u: "conn_inv ({#i#} + ({#j#} + ({#k#} + H))) t c u"
      using 3 Some x inv by (auto simp: parse_post_def conn_inv_def kept_def ac_simps)
    have "wp (SocketUNIXConnect cfg c (Some h') (Some q')) (\<lambda>y. wp (case y of (ret, ciptr) \<Rightarrow> do {
        free_ptr (Ptr i p'); free_ptr (Ptr j h'); free_ptr (Ptr k q'); return (ret, ciptr) })
        (\<lambda>(r, c') w'. conn_inv H t c' w')) u"
    proof (rule SocketUNIXConnect_inv [OF u assms(2,3), THEN wp_mono], clarify)
      fix r c' v
      assume "conn_inv ({#i#} + ({#j#} + ({#k#} + H))) t c' v"
      then show "wp (do { free_ptr (Ptr i p'); free_ptr (Ptr j h'); free_ptr (Ptr k q'); return (r, c') })
          (\<lambda>(r, c') w'. conn_inv H t c' w') v"
        by (intro free_three [where M = "mset (owned c') + H"]) (auto simp: conn_inv_def ac_simps)
    qed
    then show ?thesis
      using u q' assms(4) unfolding Some x
      by (simp add: wp_bind [of "SocketUNIXConnect _ _ _ _"] wp_bind [of "trans_of _"]
          del: free_ptr.simps wp_free_ptr wp_bind wp_prod)
  qed
qed (use inv alloc in \<open>simp_all add: conn_inv_def\<close>)

section \<open>Sessions\<close>

text \<open>
  What a program may do with a connection. It connects only while the connection has no address
  yet, to an address with a port, and writes with at most 128 descriptors queued.
\<close>

inductive session_step :: "config \<Rightarrow> conn \<times> xworld \<Rightarrow> conn \<times> xworld \<Rightarrow> bool" for cfg where
  read: "run_state (TransRead cfg c n) w = ((r, d, c'), w') \<Longrightarrow> session_step cfg (c, w) (c', w')"
| readv: "run_state (TransReadv cfg c ns) w = ((r, d, c'), w') \<Longrightarrow> session_step cfg (c, w) (c', w')"
| writes: "length (send_fds c) \<le> MAX_FDS \<Longrightarrow> run_state (TransWrite cfg c buf) w = ((r, c'), w') \<Longrightarrow>
    session_step cfg (c, w) (c', w')"
| writev: "length (send_fds c) \<le> MAX_FDS \<Longrightarrow> run_state (TransWritev cfg c bufs) w = ((r, c'), w') \<Longrightarrow>
    session_step cfg (c, w) (c', w')"
| sendfd: "run_state (TransSendFd c fd dc) w = ((r, c'), w') \<Longrightarrow> session_step cfg (c, w) (c', w')"
| recvfd: "run_state (TransRecvFd c) w = ((r, c'), w') \<Longrightarrow> session_step cfg (c, w) (c', w')"
| readable: "run_state (TransBytesReadable c) w = (r, w') \<Longrightarrow> session_step cfg (c, w) (c, w')"
| disconnect: "run_state (TransDisconnect c) w = (r, w') \<Longrightarrow> session_step cfg (c, w) (c, w')"
| option: "run_state (TransSetOption c opt arg) w = (r, w') \<Longrightarrow> session_step cfg (c, w) (c, w')"
| connect: "c_addr c = Null \<Longrightarrow> c_peeraddr c = Null \<Longrightarrow>
    0 \<le> r_ret (w_env w (w_log w) (Malloc (length address + 1))) \<Longrightarrow>
    (\<And>prot host port. address_parts address prot host port \<Longrightarrow> parse_port cfg port \<noteq> []) \<Longrightarrow>
    run_state (TransConnect cfg c address) w = ((r, c'), w') \<Longrightarrow> session_step cfg (c, w) (c', w')"

lemma quiet_ops_inv:
  assumes "conn_inv H t c w"
  shows "wp (TransBytesReadable c) (\<lambda>_ w'. conn_inv H t c w') w"
    and "wp (TransDisconnect c) (\<lambda>_ w'. conn_inv H t c w') w"
    and "wp (TransSetOption c opt arg) (\<lambda>_ w'. conn_inv H t c w') w"
  using assms
  unfolding TransBytesReadable_def TransDisconnect_def TransSetOption_def SocketBytesReadable_def
    SocketDisconnect_def Let_def wp_bind
  by (auto intro!: wp_sys simp: wp_fun)

lemma session_step_inv:
  assumes "session_step cfg s s'" and "conn_inv H t (fst s) (snd s)" and "is_unix t"
  shows "conn_inv H t (fst s') (snd s')"
  using assms
proof (induction rule: session_step.induct)
  case (connect c w address r c' w')
  then show ?case using wpD [OF Connect_inv [OF _ connect(1,2) _ connect(3,4)] connect(5)] by simp
qed (auto dest: wpD [OF Read_inv] wpD [OF Readv_inv] wpD [OF Write_inv(1)] wpD [OF Write_inv(2)]
    wpD [OF SendFd_inv] wpD [OF RecvFd_inv] wpD [OF quiet_ops_inv(1)] wpD [OF quiet_ops_inv(2)]
    wpD [OF quiet_ops_inv(3)])

lemma session_inv:
  assumes "(session_step cfg)\<^sup>*\<^sup>* s s'" and "is_unix t" and "conn_inv H t (fst s) (snd s)"
  shows "conn_inv H t (fst s') (snd s')"
  using assms(1,3) by (induction rule: rtranclp_induct) (use assms(2) session_step_inv in \<open>auto\<close>)



end
