(* ===== verification/Frames.thy ===== *)
theory Frames
  imports Xtrans
begin

unbundle bit_operations_syntax

text \<open>
  What the operations of the library do to the flags of the transports. A program keeps a property
  of the flags when it holds afterwards if it held before; this is closed under the constructs
  of the programs, so that it follows for a whole operation by its rules alone. Two programs write
  the flags, the walk over the aliases and a failed connect to a Unix socket; what calls
  them is shown to keep a property in a locale that assumes it of the two.
\<close>

section \<open>Programs that keep a property of the flags\<close>

definition keeps :: "((transp \<Rightarrow> u32) \<Rightarrow> bool) \<Rightarrow> 'a xprog \<Rightarrow> bool" where
  "keeps F m \<longleftrightarrow> (\<forall>w. F (g_flags w) \<longrightarrow> wp m (\<lambda>_ w'. F (g_flags w')) w)"

named_theorems kf \<open>a construct or operation keeps every property of the flags\<close>

lemma keepsD: "keeps F m \<Longrightarrow> F (g_flags w) \<Longrightarrow> wp m (\<lambda>_ w'. F (g_flags w')) w"
  by (simp add: keeps_def)

text \<open>A program that keeps every property leaves the flags as they are.\<close>

lemma keeps_all: "(\<And>F. keeps F m) \<Longrightarrow> wp m (\<lambda>_ w'. g_flags w' = g_flags w) w"
  using keepsD [of "\<lambda>f. f = g_flags w" m w] by simp

lemma kf_bind [kf]:
  assumes "keeps F m" and "\<And>a. keeps F (f a)"
  shows "keeps F (State_Monad.bind m f)"
  using assms by (auto simp: keeps_def elim!: wp_mono)

lemma kf_basic [kf]:
  "keeps F (return a)" "keeps F fault" "keeps F (set_errno e)" "keeps F new_fd"
  "keeps F new_block" "keeps F (free_block i)" "keeps F (tflags t)" "keeps F (gets g)"
  by (simp_all add: keeps_def)

lemma kf_sys [kf]:
  "keeps F (sys c)" "keeps F (sys_ignore c)" "keeps F (sys_ok c)" "keeps F (sys_fd c)"
  "keeps F (c_close fd)" "keeps F (c_umask m)" "keeps F (malloc n)"
  "keeps F (malloc_with n a)" "keeps F (strdup s)" "keeps F calloc_conn"
  by (auto simp: keeps_def intro!: wp_sys wp_sys_ignore wp_sys_ok wp_sys_fd wp_c_close wp_c_umask
      wp_malloc wp_malloc_with wp_strdup wp_calloc_conn)

lemma kf_cases [kf]:
  "keeps F m \<Longrightarrow> keeps F n \<Longrightarrow> keeps F (if b then m else n)"
  "keeps F k \<Longrightarrow> keeps F (do_if b k)"
  "keeps F m \<Longrightarrow> (\<And>x. keeps F (f x)) \<Longrightarrow> keeps F (case y of None \<Rightarrow> m | Some x \<Rightarrow> f x)"
  "(\<And>x z. keeps F (g x z)) \<Longrightarrow> keeps F (case v of (x, z) \<Rightarrow> g x z)"
  by (auto simp: do_if_def kf_basic split: option.split prod.split)

lemma kf_free_ptr [kf]: "keeps F (free_ptr p)"
  by (cases p) (simp_all add: kf)

lemma kf_trans_of [kf]: "keeps F (trans_of c)"
  unfolding trans_of_def by (intro kf)

lemma kf_copy [kf]: "keeps F (memcpy_from p n)" "keeps F (cstr_at p off)" "keeps F (get_name call n)"
  unfolding memcpy_from_def cstr_at_def get_name_def Let_def by (intro kf)+

lemma kf_mkdir [kf]: "keeps F (trans_mkdir cfg path mode)"
  unfolding trans_mkdir_def mkdir_existing_def mkdir_fix_def Let_def by (intro kf)

lemma kf_parse [kf]: "keeps F (GetHostname cfg n)" "keeps F (ParseAddress cfg address)"
  unfolding ParseAddress_def parse_host_def dup_parts_def GetHostname_def Let_def by (intro kf)+

lemma kf_SocketOpen [kf]: "keeps F (SocketOpen cfg i type)" "keeps F (SocketReopen cfg type fd port)"
  unfolding SocketOpen_def SocketReopen_def Let_def by (intro kf)+

lemma kf_open_loop [kf]:
  assumes "\<And>i. keeps F (f i)"
  shows "keeps F (open_loop cfg name f i)"
  unfolding keeps_def
proof (intro allI impI)
  fix w :: xworld
  assume "F (g_flags w)"
  moreover have "wp (f j) (\<lambda>r w'. case r of None \<Rightarrow> F (g_flags w') | Some c \<Rightarrow> F (g_flags w')) u"
    if "F (g_flags u)" for j u
    using keepsD [OF assms that] by (rule wp_mono) (simp split: option.split)
  ultimately show "wp (open_loop cfg name f i) (\<lambda>_ w'. F (g_flags w')) w"
    by (intro wp_mono [OF open_loop_rule [where I = "\<lambda>u. F (g_flags u)" and S = "\<lambda>_ u. F (g_flags u)"]])
      (auto split: option.splits)
qed

lemma kf_open [kf]: "keeps F (SocketOpenCOTSClientBase cfg name i)"
  "keeps F (SocketOpenCOTSClient cfg t p h q)" "keeps F (SocketOpenCOTSServer cfg t p h q)"
  "keeps F (SocketReopenCOTSServer cfg t fd q)"
  unfolding SocketOpenCOTSClient_def SocketOpenCOTSClientBase_def SocketOpenCOTSServer_def
    SocketReopenCOTSServer_def by (intro kf)+

lemma kf_bind_loop [kf]: "keeps F (bind_loop fd a flags n)"
  by (induction n; subst bind_loop.simps) (auto intro!: kf)

lemma kf_address [kf]: "keeps F (SocketINETGetAddr cfg c)" "keeps F (SocketINETGetPeerAddr cfg c)"
  unfolding SocketINETGetAddr_def SocketINETGetPeerAddr_def Let_def by (intro kf)+

lemma kf_listen [kf]: "keeps F (SocketCreateListener cfg c a flags)"
  "keeps F (SocketINETCreateListener cfg c port flags)" "keeps F (SocketUNIXCreateListener cfg c port flags)"
  unfolding SocketCreateListener_def SocketINETCreateListener_def SocketUNIXCreateListener_def
    inet_listen_at_def unix_listen_at_def fixup_port_def Let_def by (intro kf)+


section \<open>Input, output and closing\<close>

lemma kf_discard [kf]: "keeps F (discardFd q until dc)"
  by (induction q) (auto intro!: kf)

lemma kf_queue [kf]: "keeps F (appendFd q fd dc)" "keeps F (removeFd q)" "keeps F (cleanupFds c)"
  unfolding appendFd_def removeFd_def cleanupFds_def by (auto intro!: kf split: list.split)

lemma kf_new_fds [kf]: "keeps F (new_fds n)"
  by (induction n) (auto intro!: kf)

lemma kf_install [kf]: "keeps F (install_rights ms)"
  by (induction ms) (auto intro!: kf)

lemma kf_appendFds [kf]: "keeps F (appendFds q fds)"
  by (induction fds arbitrary: q) (auto intro!: kf)

lemma kf_collect [kf]: "keeps F (collect_fds q hdrs)"
  by (induction hdrs arbitrary: q) (auto intro!: kf)

lemma kf_io [kf]: "keeps F (recvmsg_fds c n)" "keeps F (SocketRead cfg c n)" "keeps F (SocketReadv cfg c ns)"
  "keeps F (SocketWritev cfg c bufs)" "keeps F (SocketWrite cfg c buf)" "keeps F (SocketBytesReadable c)"
  "keeps F (SocketSendFd c fd dc)" "keeps F (SocketRecvFd c)" "keeps F (SocketDisconnect c)"
  "keeps F (SocketSendFdInvalid c fd dc)" "keeps F (SocketRecvFdInvalid c)"
  unfolding recvmsg_fds_def SocketRead_def SocketReadv_def SocketWrite_def SocketWritev_def SocketBytesReadable_def
    SocketSendFd_def SocketRecvFd_def SocketSendFdInvalid_def SocketRecvFdInvalid_def SocketDisconnect_def Let_def
  by (intro kf)+

lemma kf_close [kf]: "keeps F (SocketINETClose c)" "keeps F (SocketUNIXClose cfg c)"
  "keeps F (SocketUNIXCloseForCloning cfg c)" "keeps F (FreeConnInfo c)" "keeps F (names_path p)"
  unfolding SocketINETClose_def SocketUNIXClose_def SocketUNIXCloseForCloning_def FreeConnInfo_def names_path_def
  by (intro kf)+

lemma kf_accept [kf]: "keeps F (SocketINETAccept cfg c)" "keeps F (SocketUNIXAccept cfg c)"
  "keeps F (SocketUNIXResetListener cfg c)"
  unfolding SocketINETAccept_def SocketUNIXAccept_def SocketUNIXResetListener_def Let_def by (intro kf)+

section \<open>Connecting\<close>

lemma kf_addrlist [kf]: "keeps F (set_addrlist al)"
  by (simp add: keeps_def set_addrlist_def)

lemma kf_lookup [kf]: "keeps F (get_addrlist h p)" "keeps F (lookup_addrs cfg c h p al)"
  "keeps F (drop_stale h p al)"
  unfolding get_addrlist_def drop_stale_def lookup_addrs_def Let_def by (intro kf)+

lemma kf_use_addr [kf]: "keeps F (use_addr cfg c a)"
  unfolding use_addr_def replace_socket_def Let_def by (intro kf)

lemma kf_pick_addr [kf]: "keeps F (pick_addr cfg as once c addr)"
proof -
  have again: "keeps F (pick_addr cfg as True c addr)" for as c addr
    by (induction addr arbitrary: c; subst pick_addr.simps) (auto intro!: kf)
  have "keeps F (pick_addr cfg as False c addr)" for c addr
    by (induction addr arbitrary: c; subst pick_addr.simps) (auto intro!: kf again split: list.split)
  then show ?thesis using again by (cases once) simp_all
qed

lemma kf_inet_connect [kf]: "keeps F (SocketINETConnect cfg c h p)" "keeps F (UnixHostReallyLocal cfg host)"
  "keeps F (unix_connected c path b)"
  unfolding SocketINETConnect_def inet_connect_list_def inet_connect_v4_def inet_connect_to_def host_addr_def
    tcp_port_def connect_host_def UnixHostReallyLocal_def unix_connected_def Let_def by (intro kf)+

section \<open>The public operations\<close>

lemma kf_Trans_open [kf]: "keeps F (TransOpenCOTSClient cfg address)" "keeps F (TransOpenCOTSServer cfg address)"
  "keeps F (TransReopenCOTSServer cfg ti fd port)" "keeps F (TransGetReopenInfo cfg c)"
  "keeps F (TransSetOption c opt arg)"
  unfolding TransOpenCOTSClient_def TransOpenCOTSServer_def TransOpen_def TransReopenCOTSServer_def TransReopen_def
    TransGetReopenInfo_def TransSetOption_def Let_def by (intro kf)+

lemma kf_Trans_listen [kf]: "keeps F (TransCreateListener cfg c port flags)" "keeps F (TransResetListener cfg c)"
  "keeps F (TransAccept cfg c)"
  unfolding TransCreateListener_def TransResetListener_def TransAccept_def by (intro kf)+

lemma kf_Trans_io [kf]: "keeps F (TransBytesReadable c)" "keeps F (TransRead cfg c n)" "keeps F (TransWrite cfg c buf)"
  "keeps F (TransReadv cfg c ns)" "keeps F (TransWritev cfg c bufs)" "keeps F (TransSendFd c fd dc)"
  "keeps F (TransRecvFd c)" "keeps F (TransDisconnect c)" "keeps F (TransClose cfg c)"
  "keeps F (TransCloseForCloning cfg c)" "keeps F (TransGetPeerAddr c)"
  unfolding TransBytesReadable_def TransRead_def TransWrite_def TransReadv_def TransWritev_def TransSendFd_def
    TransRecvFd_def TransDisconnect_def TransClose_def TransCloseForCloning_def TransGetPeerAddr_def by (intro kf)+

lemma kf_listen_on [kf]: "keeps F (close_all cfg cs)" "keeps F (store_ciptr cfg cs c)"
  "keeps F (listen_on cfg port t ti cs b)"
proof -
  show close: "keeps F (close_all cfg cs)" for cs by (induction cs) (auto intro!: kf)
  show store: "keeps F (store_ciptr cfg cs c)" for cs c unfolding store_ciptr_def by (intro kf)
  show "keeps F (listen_on cfg port t ti cs b)" unfolding listen_on_def Let_def by (intro kf close store)
qed

lemma kf_listen_loop [kf]: "keeps F (listen_loop cfg port ts cs b)"
  by (induction ts arbitrary: cs b) (auto intro!: kf)

section \<open>The operations that write the flags\<close>

locale flag_invariant =
  fixes F :: "(transp \<Rightarrow> u32) \<Rightarrow> bool"
  assumes walk: "upd \<in> {\<lambda>f. f OR TRANS_RECEIVED, \<lambda>f. f OR TRANS_NOLISTEN, \<lambda>f. f AND NOT TRANS_NOLISTEN} \<Longrightarrow>
      keeps F (walk_aliases cfg upd protocol)"
    and connect_failed: "keeps F (unix_connect_failed t abstract)"
begin

lemma flag_operations: "keeps F (Received cfg p)" "keeps F (NoListen cfg p)" "keeps F (Listen cfg p)"
  unfolding Received_def NoListen_def Listen_def by (simp_all add: walk)

lemma connect: "keeps F (TransConnect cfg c address)"
  unfolding TransConnect_def SocketUNIXConnect_def Let_def by (intro kf connect_failed)

lemma receive_fd: "keeps F (receive_fd cfg port fd cs)"
  unfolding receive_fd_def by (intro kf flag_operations)

lemma receive_loop: "keeps F (receive_loop cfg port fds cs)"
  by (induction fds arbitrary: cs) (auto intro!: kf receive_fd)

lemma make_all: "keeps F (TransMakeAllCOTSServerListeners cfg port)"
  unfolding TransMakeAllCOTSServerListeners_def receive_listening_fds_def complete_network_count_def Let_def
  by (intro kf receive_loop)

end

end
