(* ===== verification/FlagProps.thy ===== *)
theory FlagProps
  imports Frames
begin

unbundle bit_operations_syntax

text \<open>
  Properties of the transport flags: switching listening off and on, the flags in every state the
  library can reach, and what they make of \<open>complete_network_count\<close>.
\<close>

section \<open>Listening off and on\<close>

lemma wp_walk [OF walk_aliases_spec]:
  assumes "wp (walk_aliases cfg upd protocol) (\<lambda>r w'. r = 0 \<and> w' = u) w"
  shows "wp (walk_aliases cfg upd protocol) Q w = Q 0 u"
  using assms by (auto simp: wp_def split: prod.splits)

lemma covers_flags:
  "(\<And>u. has (g u) TRANS_ALIAS = has (f u) TRANS_ALIAS) \<Longrightarrow> covers cfg g t = covers cfg f t"
  by (simp add: covers_def)

lemma or_and_not: "(f OR m) AND NOT m = f AND NOT m" for f m :: u32
  by (rule bit_word_eqI) (auto simp: bit_simps)

lemma has_clear_listen: "\<not> has (f AND - 9) TRANS_NOLISTEN"
  using has_set_clear(2) [of f] by simp

text \<open>
  Switching a protocol off and on again: both calls succeed, the protocol does not listen in
  between and listens afterwards, and with it every transport it stands for; apart from this
  flag nothing has changed, and nothing of the transports that the name does not cover.
\<close>

theorem nolisten_then_listen:
  assumes "SelectTransport cfg protocol = Some t"
  shows "wp (do { a \<leftarrow> NoListen cfg protocol; x \<leftarrow> IsListening cfg protocol;
       b \<leftarrow> Listen cfg protocol; y \<leftarrow> IsListening cfg protocol; return (a, x, b, y) })
     (\<lambda>(a, x, b, y) w'. a = 0 \<and> \<not> x \<and> b = 0 \<and> y \<and>
       w' = w\<lparr>g_flags := \<lambda>u. if u \<in> covers cfg (g_flags w) t
         then g_flags w u AND NOT TRANS_NOLISTEN else g_flags w u\<rparr>) w"
proof -
  let ?off = "\<lambda>u. if u \<in> covers cfg (g_flags w) t then g_flags w u OR TRANS_NOLISTEN else g_flags w u"
  have "covers cfg ?off t = covers cfg (g_flags w) t" by (rule covers_flags) simp
  moreover have "t \<in> covers cfg (g_flags w) t" by (simp add: covers_def)
  ultimately show ?thesis
    unfolding NoListen_def Listen_def IsListening_def
    by (simp add: assms wp_walk or_and_not [of _ 8, simplified] has_clear_listen cong: if_cong)
qed

theorem nolisten_then_listen_witness:
  "wp (do { a \<leftarrow> NoListen sample_config ''TCP''; x \<leftarrow> IsListening sample_config ''TCP'';
       b \<leftarrow> Listen sample_config ''TCP''; y \<leftarrow> IsListening sample_config ''TCP''; return (a, x, b, y) })
     (\<lambda>r w'. r = (0, False, 0, True)) (sample_world [])"
proof -
  have "SelectTransport sample_config ''TCP'' = Some SocketTCPFuncs"
    by (simp add: SelectTransport_Some configured_def) code_simp
  from nolisten_then_listen [OF this] show ?thesis by (rule wp_mono) auto
qed

section \<open>Reachable flags\<close>

text \<open>
  One call of the library, with any arguments and any answers of the system, or a step of the
  program that uses it, which has no access to the flags.
\<close>

inductive library_step :: "config \<Rightarrow> xworld \<Rightarrow> xworld \<Rightarrow> bool" for cfg where
  program: "g_flags w' = g_flags w \<Longrightarrow> library_step cfg w w'"
| received: "run_state (Received cfg p) w = (r, w') \<Longrightarrow> library_step cfg w w'"
| no_listen: "run_state (NoListen cfg p) w = (r, w') \<Longrightarrow> library_step cfg w w'"
| listen: "run_state (Listen cfg p) w = (r, w') \<Longrightarrow> library_step cfg w w'"
| is_listening: "run_state (IsListening cfg p) w = (r, w') \<Longrightarrow> library_step cfg w w'"
| open_client: "run_state (TransOpenCOTSClient cfg address) w = (r, w') \<Longrightarrow> library_step cfg w w'"
| open_server: "run_state (TransOpenCOTSServer cfg address) w = (r, w') \<Longrightarrow> library_step cfg w w'"
| reopen: "run_state (TransReopenCOTSServer cfg ti fd port) w = (r, w') \<Longrightarrow> library_step cfg w w'"
| reopen_info: "run_state (TransGetReopenInfo cfg c) w = (r, w') \<Longrightarrow> library_step cfg w w'"
| set_option: "run_state (TransSetOption c opt arg) w = (r, w') \<Longrightarrow> library_step cfg w w'"
| create_listener: "run_state (TransCreateListener cfg c lport lflags) w = (r, w') \<Longrightarrow> library_step cfg w w'"
| reset_listener: "run_state (TransResetListener cfg c) w = (r, w') \<Longrightarrow> library_step cfg w w'"
| accept: "run_state (TransAccept cfg c) w = (r, w') \<Longrightarrow> library_step cfg w w'"
| connect: "run_state (TransConnect cfg c address) w = (r, w') \<Longrightarrow> library_step cfg w w'"
| bytes_readable: "run_state (TransBytesReadable c) w = (r, w') \<Longrightarrow> library_step cfg w w'"
| read: "run_state (TransRead cfg c n) w = (r, w') \<Longrightarrow> library_step cfg w w'"
| writes: "run_state (TransWrite cfg c buf) w = (r, w') \<Longrightarrow> library_step cfg w w'"
| readv: "run_state (TransReadv cfg c ns) w = (r, w') \<Longrightarrow> library_step cfg w w'"
| writev: "run_state (TransWritev cfg c bufs) w = (r, w') \<Longrightarrow> library_step cfg w w'"
| send_fd: "run_state (TransSendFd c fd dc) w = (r, w') \<Longrightarrow> library_step cfg w w'"
| recv_fd: "run_state (TransRecvFd c) w = (r, w') \<Longrightarrow> library_step cfg w w'"
| disconnect: "run_state (TransDisconnect c) w = (r, w') \<Longrightarrow> library_step cfg w w'"
| close: "run_state (TransClose cfg c) w = (r, w') \<Longrightarrow> library_step cfg w w'"
| close_cloning: "run_state (TransCloseForCloning cfg c) w = (r, w') \<Longrightarrow> library_step cfg w w'"
| peer_addr: "run_state (TransGetPeerAddr c) w = (r, w') \<Longrightarrow> library_step cfg w w'"
| make_all: "run_state (TransMakeAllCOTSServerListeners cfg lport) w = (r, w') \<Longrightarrow> library_step cfg w w'"

inductive trans_reach :: "config \<Rightarrow> xworld \<Rightarrow> bool" for cfg where
  start: "g_flags w = initial_flags \<Longrightarrow> trans_reach cfg w"
| step: "trans_reach cfg w \<Longrightarrow> library_step cfg w w' \<Longrightarrow> trans_reach cfg w'"

definition flags_ok :: "(transp \<Rightarrow> u32) \<Rightarrow> bool" where
  "flags_ok f \<longleftrightarrow> (\<forall>t. (has (f t) TRANS_ALIAS \<longleftrightarrow> t = SocketTCPFuncs) \<and> \<not> has (f t) TRANS_LOCAL \<and>
     \<not> has (f t) TRANS_DISABLED)"

lemma walk_keeps_ok:
  assumes "flags_ok (g_flags w)"
    and "\<And>f. has (upd f) 1 = has f 1 \<and> has (upd f) 2 = has f 2 \<and> has (upd f) 4 = has f 4"
  shows "wp (walk_aliases cfg upd p) (\<lambda>_ w'. flags_ok (g_flags w')) w"
proof (cases "SelectTransport cfg p")
  case None
  then show ?thesis using assms(1) by (simp add: walk_unknown)
next
  case (Some t)
  then show ?thesis using assms by (simp add: wp_walk flags_ok_def)
qed

lemma connect_failed_keeps_ok:
  "flags_ok (g_flags w) \<Longrightarrow> wp (unix_connect_failed t abstract) (\<lambda>_ w'. flags_ok (g_flags w')) w"
  by (simp add: unix_connect_failed_def flags_ok_def has_bits bit_simps)

lemma keeps_other_flags:
  "has (f OR TRANS_RECEIVED) 1 = has f 1 \<and> has (f OR TRANS_RECEIVED) 2 = has f 2 \<and>
     has (f OR TRANS_RECEIVED) 4 = has f 4"
  "has (f OR TRANS_NOLISTEN) 1 = has f 1 \<and> has (f OR TRANS_NOLISTEN) 2 = has f 2 \<and>
     has (f OR TRANS_NOLISTEN) 4 = has f 4"
  "has (f AND NOT TRANS_NOLISTEN) 1 = has f 1 \<and> has (f AND NOT TRANS_NOLISTEN) 2 = has f 2 \<and>
     has (f AND NOT TRANS_NOLISTEN) 4 = has f 4"
  by (simp_all add: has_bits bit_simps)

interpretation ok: flag_invariant flags_ok
proof unfold_locales
  fix upd and cfg :: config and protocol
  assume "upd \<in> {\<lambda>f. f OR TRANS_RECEIVED, \<lambda>f. f OR TRANS_NOLISTEN, \<lambda>f. f AND NOT TRANS_NOLISTEN}"
  then show "keeps flags_ok (walk_aliases cfg upd protocol)"
    using walk_keeps_ok [OF _ keeps_other_flags(1)] walk_keeps_ok [OF _ keeps_other_flags(2)]
      walk_keeps_ok [OF _ keeps_other_flags(3)]
    by (elim insertE emptyE) (simp_all add: keeps_def)
next
  show "keeps flags_ok (unix_connect_failed t abstract)" for t abstract
    by (simp add: keeps_def connect_failed_keeps_ok)
qed

lemma kf_IsListening: "keeps F (IsListening cfg p)"
  unfolding IsListening_def by (intro kf)

lemma keeps_run: "run_state m w = (r, w') \<Longrightarrow> keeps F m \<Longrightarrow> F (g_flags w) \<Longrightarrow> F (g_flags w')"
  by (drule (1) keepsD) (simp add: wp_def)

lemma library_step_ok: "library_step cfg w w' \<Longrightarrow> flags_ok (g_flags w) \<Longrightarrow> flags_ok (g_flags w')"
  by (induction rule: library_step.induct)
    (simp, (erule keeps_run, rule kf_Trans_open kf_Trans_listen kf_Trans_io kf_IsListening ok.flag_operations
        ok.connect ok.make_all, assumption)+)

lemma trans_reach_ok: "trans_reach cfg w \<Longrightarrow> flags_ok (g_flags w)"
proof (induction rule: trans_reach.induct)
  case (start w)
  have "has (initial_flags t) 1 = (t = SocketTCPFuncs) \<and> \<not> has (initial_flags t) 2 \<and>
      \<not> has (initial_flags t) 4" for t
    by (cases t) (simp_all add: has_def)
  then show ?case using start by (simp add: flags_ok_def)
qed (rule library_step_ok)

lemma network_count_ok:
  assumes "flags_ok f"
  shows "network_count f ts n False =
    n + length (filter (\<lambda>(t, _). t \<noteq> SocketTCPFuncs \<and> \<not> has (f t) TRANS_NOLISTEN) ts)"
  using assms by (induction ts arbitrary: n) (auto simp: flags_ok_def)

text \<open>
  (C5) In every state that any sequence of calls of the library reaches, \<open>tcp\<close> is the only alias, and no transport is marked local or disabled.
  A complete network therefore has one listener for every transport but \<open>tcp\<close> that is not
  switched off; in particular the two local transports count separately.
\<close>

theorem reachable_network_count:
  assumes "trans_reach cfg w"
  shows "(\<forall>t. (has (g_flags w t) TRANS_ALIAS \<longleftrightarrow> t = SocketTCPFuncs) \<and>
      \<not> has (g_flags w t) TRANS_LOCAL \<and> \<not> has (g_flags w t) TRANS_DISABLED) \<and>
    wp (complete_network_count cfg) (\<lambda>n w'. w' = w \<and> n = length (filter
      (\<lambda>(t, _). t \<noteq> SocketTCPFuncs \<and> \<not> has (g_flags w t) TRANS_NOLISTEN) (Xtransports cfg))) w"
proof
  show "\<forall>t. (has (g_flags w t) TRANS_ALIAS \<longleftrightarrow> t = SocketTCPFuncs) \<and>
      \<not> has (g_flags w t) TRANS_LOCAL \<and> \<not> has (g_flags w t) TRANS_DISABLED"
    using trans_reach_ok [OF assms] unfolding flags_ok_def .
qed (simp add: complete_network_count_def network_count_ok [OF trans_reach_ok [OF assms]])

theorem reachable_network_count_witness:
  "wp (complete_network_count sample_config) (\<lambda>n w'. n = 4) (sample_world [])"
proof -
  have "trans_reach sample_config (sample_world [])" by (rule trans_reach.start) simp
  from reachable_network_count [OF this] show ?thesis
    by (elim conjE wp_mono) (simp add: Xtransports_def has_def)
qed

end
