(* ===== verification/ListenProps.thy ===== *)
theory ListenProps
  imports SockListen
begin

unbundle bit_operations_syntax

text \<open>
  What the listener functions of \<open>Xtranssock.c\<close> guarantee: the length of Unix socket paths, the
  bound on \<open>bind\<close> attempts, the port range of INET listeners, restoration of the file mode
  creation mask, and what accepting a connection leaves open or allocated.
\<close>

section \<open>Socket paths\<close>

text \<open>The path that is meant: prefix and port, or the port alone when it is a path already.\<close>

definition full_sun_path :: "string \<Rightarrow> string \<Rightarrow> bool \<Rightarrow> string" where
  "full_sun_path port upath abstract =
     (if hd port = CHR ''@'' then [] else if abstract then ''@'' else []) @
     (if hd port \<in> {CHR ''@'', CHR ''/''} then [] else upath) @ port"

text \<open>
  A socket path always fits its buffer of 108 bytes with the terminating null, is refused
  exactly when there is no port or prefix and port have more than 107 characters, and is the
  meant path except in one case: an abstract path of maximal length loses its last character.
\<close>

theorem set_sun_path_exact:
  "case set_sun_path port upath abstract of
     None \<Rightarrow> port = [] \<or> 107 < length port + (if hd port \<in> {CHR ''@'', CHR ''/''} then 0 else length upath)
   | Some path \<Rightarrow> port \<noteq> [] \<and> 0 < length path \<and> length path < 108 \<and>
       (path = full_sun_path port upath abstract \<or>
        (abstract \<and> length (full_sun_path port upath abstract) = 108 \<and>
         path = butlast (full_sun_path port upath abstract)))"
proof (cases "set_sun_path port upath abstract")
  case None
  then show ?thesis by (auto simp: set_sun_path_def Let_def split: if_splits)
next
  case (Some path)
  let ?f = "full_sun_path port upath abstract"
  from Some have port: "port \<noteq> []" and path: "path = take 107 ?f" and len: "length ?f \<le> 108"
    and abs: "107 < length ?f \<Longrightarrow> abstract"
    by (auto simp: set_sun_path_def full_sun_path_def snprintf_s_def Let_def split: if_splits)
  have "?f \<noteq> []" using port by (simp add: full_sun_path_def)
  then have "0 < length path" "length path < 108" using path by auto
  moreover have "path = ?f \<or> (abstract \<and> length ?f = 108 \<and> path = butlast ?f)"
  proof (cases "length ?f \<le> 107")
    case True
    then show ?thesis using path by simp
  next
    case False
    then have "length ?f = 108" using len by simp
    then show ?thesis using abs path by (simp add: butlast_conv_take)
  qed
  ultimately show ?thesis using Some port by simp
qed

section \<open>Binding\<close>

definition binds :: "(os_call \<times> resp) list \<Rightarrow> string list" where
  "binds l = concat (map (\<lambda>(c, _). case c of Bind _ a \<Rightarrow> [a] | _ \<Rightarrow> []) l)"

lemma binds_simps [simp]: "binds [] = []" "binds ((c, r) # l) = (case c of Bind _ a \<Rightarrow> [a] | _ \<Rightarrow> []) @ binds l"
  "binds (l @ m) = binds l @ binds m"
  by (simp_all add: binds_def)

text \<open>
  What the loop around \<open>bind\<close> does; \<open>k\<close> are the addresses of the new \<open>bind\<close> calls.
\<close>

definition bind_post :: "int \<Rightarrow> string \<Rightarrow> nat \<Rightarrow> xworld \<Rightarrow> int \<Rightarrow> xworld \<Rightarrow> bool" where
  "bind_post fd sockname retry w r w' \<longleftrightarrow> r \<in> {0, -1, -2} \<and>
     (\<exists>k. binds (w_log w') = k @ binds (w_log w) \<and> set k \<subseteq> {sockname} \<and> length k \<le> Suc retry) \<and>
     w_fds w' = (if r = -1 then remove1 fd (w_fds w) else w_fds w) \<and>
     w_heap w' = w_heap w \<and> w_next w' = w_next w \<and> w_umask w' = w_umask w \<and>
     w_fault w' = w_fault w \<and> g_flags w' = g_flags w \<and> g_addrlist w' = g_addrlist w \<and>
     (fd \<in> set (w_fds w) \<longrightarrow> w_badfd w' = w_badfd w)"

lemma bind_loop_spec:
  "wp (bind_loop fd sockname flags retry) (bind_post fd sockname retry w) w"
proof (induction retry arbitrary: w)
  case 0
  show ?case
    by (subst bind_loop.simps)
      (auto intro!: wp_sys_log simp: bind_post_def c_close_def remove1_idem)
next
  case (Suc n)
  have next_ok: "wp (bind_loop fd sockname flags n) (bind_post fd sockname (Suc n) w)
      (w\<lparr>w_log := (Sleep k, s) # (Bind fd sockname, r) # w_log w, w_errno := e\<rparr>)" for k s r e
    by (rule Suc.IH [THEN wp_mono]) (fastforce simp: bind_post_def)
  show ?case
    by (subst bind_loop.simps)
      (auto intro!: wp_sys_log next_ok simp: bind_post_def [of _ _ _ _ "-2"] bind_post_def [of _ _ _ _ 0]
        sys_ignore_def)
qed

definition listen_post :: "config \<Rightarrow> conn \<Rightarrow> string \<Rightarrow> xworld \<Rightarrow> int \<times> conn \<Rightarrow> xworld \<Rightarrow> bool" where
  "listen_post cfg c sockname w = (\<lambda>(r, c') w'.
     bind_post (c_fd c) sockname (if is_inet cfg (fam_of cfg (c_index c)) then 20 else 0) w r w' \<and>
     (if r = 0 then c' = c\<lparr>c_flags := 1 OR (c_flags c AND (TRANS_NOUNLINK OR TRANS_ABSTRACT))\<rparr>
      else c' = c))"

lemma SocketCreateListener_spec:
  "wp (SocketCreateListener cfg c sockname flags) (listen_post cfg c sockname w) w"
proof -
  let ?n = "if is_inet cfg (fam_of cfg (c_index c)) then 20 else 0 :: nat"
  have go_on: "wp (do {
       do_if (is_inet cfg (fam_of cfg (c_index c))) (sys_ignore (Setsockopt (c_fd c) 1 13 0));
       l \<leftarrow> sys (ListenC (c_fd c) BACKLOG);
       if r_ret l < 0 then do {
         _ \<leftarrow> c_close (c_fd c);
         return (TRANS_CREATE_LISTENER_FAILED, c)
       } else return (0, c\<lparr>c_flags := 1 OR (c_flags c AND (TRANS_NOUNLINK OR TRANS_ABSTRACT))\<rparr>)
     }) (listen_post cfg c sockname w) w1"
    if "bind_post (c_fd c) sockname ?n w 0 w1" for w1
    using that unfolding sys_ignore_def c_close_def listen_post_def
    by (auto intro!: wp_sys_log simp: bind_post_def remove1_idem)
  show ?thesis
    unfolding SocketCreateListener_def Let_def wp_bind [of "bind_loop _ _ _ _"]
  proof (rule bind_loop_spec [THEN wp_mono])
    fix r w1
    assume post: "bind_post (c_fd c) sockname ?n w r w1"
    then consider "r = 0" | "r < 0" by (auto simp: bind_post_def)
    then show "wp (if r < 0 then return (r, c) else do {
       do_if (is_inet cfg (fam_of cfg (c_index c))) (sys_ignore (Setsockopt (c_fd c) 1 13 0));
       l \<leftarrow> sys (ListenC (c_fd c) BACKLOG);
       if r_ret l < 0 then do {
         _ \<leftarrow> c_close (c_fd c);
         return (TRANS_CREATE_LISTENER_FAILED, c)
       } else return (0, c\<lparr>c_flags := 1 OR (c_flags c AND (TRANS_NOUNLINK OR TRANS_ABSTRACT))\<rparr>)
     }) (listen_post cfg c sockname w) w1"
    proof cases
      case 1
      then show ?thesis using go_on post by (simp only: less_irrefl if_False)
    next
      case 2
      then show ?thesis using post by (simp add: listen_post_def)
    qed
  qed
qed

text \<open>
  \<open>SocketCreateListener\<close> always returns: it calls \<open>bind\<close> at most 21 times on an INET socket and
  at most once on a Unix socket, always with the given address. The result is 0,
  \<open>TRANS_CREATE_LISTENER_FAILED\<close> or \<open>TRANS_ADDR_IN_USE\<close>; only the second closes the socket.
\<close>

theorem SocketCreateListener_bounded:
  "wp (SocketCreateListener cfg c sockname flags) (\<lambda>(r, c') w'.
     (\<exists>k. binds (w_log w') = k @ binds (w_log w) \<and> set k \<subseteq> {sockname} \<and>
        length k \<le> (if is_inet cfg (fam_of cfg (c_index c)) then 21 else 1)) \<and>
     r \<in> {0, TRANS_CREATE_LISTENER_FAILED, TRANS_ADDR_IN_USE} \<and>
     w_fds w' = (if r = TRANS_CREATE_LISTENER_FAILED then remove1 (c_fd c) (w_fds w) else w_fds w) \<and>
     w_heap w' = w_heap w \<and>
     c' = (if r = 0 then c\<lparr>c_flags := 1 OR (c_flags c AND (TRANS_NOUNLINK OR TRANS_ABSTRACT))\<rparr> else c)) w"
  by (rule SocketCreateListener_spec [THEN wp_mono])
    (auto simp: listen_post_def bind_post_def split: if_splits)

section \<open>Ports of INET listeners\<close>

lemma length_dec: "n < 10 ^ Suc k \<Longrightarrow> length (dec n) \<le> Suc k"
proof (induction k arbitrary: n)
  case 0
  then show ?case by (subst dec.simps) simp
next
  case (Suc k)
  then have "n div 10 < 10 ^ Suc k" by (simp add: less_mult_imp_div_less mult.commute)
  then show ?case using Suc.IH [of "n div 10"] by (subst dec.simps) simp
qed

lemma long_wrap_mod: "long_wrap x mod 2 ^ 64 = x mod 2 ^ 64"
  by (simp add: long_wrap_def mod_diff_left_eq)

text \<open>The port string made from a display number, read back by \<open>strtol\<close>.\<close>

lemma x_port_string:
  assumes "is_numeric p"
  defines "q \<equiv> snprintf_s 32 (print_lu (long_wrap (X_TCP_PORT + strtol p)))"
  shows "is_numeric q" and "q \<noteq> []" and "strtol q = min LONG_MAX (6000 + int (dec_val p))"
proof -
  define x where "x = X_TCP_PORT + strtol p"
  have s: "strtol p = min LONG_MAX (int (dec_val p))"
    using assms(1) by (simp add: is_numeric_def strtol_digits)
  have x: "0 \<le> x" "x < 2 ^ 64" by (auto simp: x_def s)
  then have "print_lu (long_wrap x) = dec (nat x)" using long_wrap_mod [of x] by (simp add: print_lu_def)
  moreover have "length (dec (nat x)) \<le> Suc 19" using x(2) by (intro length_dec) simp
  ultimately have q: "q = dec (nat x)" by (simp add: q_def x_def snprintf_s_def)
  then show "is_numeric q" "q \<noteq> []" by (simp_all add: is_numeric_def)
  show "strtol q = min LONG_MAX (6000 + int (dec_val p))"
    using x(1) by (auto simp: q strtol_dec x_def s)
qed

text \<open>What an INET listener does once the port is known.\<close>

lemma get_name_binds: "wp (get_name (Getsockname fd m) j) (\<lambda>_ w'. binds (w_log w') = binds (w_log w)) w"
  unfolding get_name_def malloc_with_def malloc_def Let_def by (auto intro!: wp_sys_log)

lemma SocketINETGetAddr_binds:
  "wp (SocketINETGetAddr cfg c) (\<lambda>_ w'. binds (w_log w') = binds (w_log w)) w"
  unfolding SocketINETGetAddr_def Let_def
  by (rule wp_bindI [OF get_name_binds]) (auto split: option.splits prod.splits)

lemma inet_listen_at_binds:
  "wp (inet_listen_at cfg c n flags) (\<lambda>(r, c') w'. \<exists>k. binds (w_log w') = k @ binds (w_log w) \<and>
     set k \<subseteq> {inet_any n, inet6_any n} \<and> length k \<le> 21) w"
  unfolding inet_listen_at_def Let_def
  by (rule wp_bindI [OF SocketCreateListener_spec])
    (fastforce simp: listen_post_def bind_post_def split: if_splits
      intro!: SocketINETGetAddr_binds [THEN wp_mono])

text \<open>
  For the X library, a listener for display number \<open>n\<close> (any string of digits, however long,
  the empty one standing for 0) binds only to port 6000 + n; when this is above 65535 nothing is
  bound and the call fails.
\<close>

theorem x_listener_port:
  assumes "cfg_t cfg = X11_t" and "is_numeric p"
  shows "wp (SocketINETCreateListener cfg c (Some p) flags) (\<lambda>(r, c') w'.
    \<exists>k. binds (w_log w') = k @ binds (w_log w) \<and> length k \<le> 21 \<and>
      (if 6000 + dec_val p \<le> 65535
       then set k \<subseteq> {inet_any (6000 + dec_val p), inet6_any (6000 + dec_val p)}
       else k = [] \<and> r = TRANS_CREATE_LISTENER_FAILED \<and> c' = c)) w"
proof -
  note q = x_port_string [OF assms(2)]
  have range: "min LONG_MAX (6000 + int (dec_val p)) < 1024 \<or>
      min LONG_MAX (6000 + int (dec_val p)) > USHRT_MAX \<longleftrightarrow> \<not> 6000 + dec_val p \<le> 65535"
    by auto
  show ?thesis
  proof (cases "6000 + dec_val p \<le> 65535")
    case True
    then have "nat (min LONG_MAX (6000 + int (dec_val p))) = 6000 + dec_val p" by simp
    then show ?thesis
      unfolding SocketINETCreateListener_def fixup_port_def Let_def
      using assms q range True
      by simp (rule inet_listen_at_binds [THEN wp_mono], auto)
  next
    case False
    then show ?thesis
      unfolding SocketINETCreateListener_def fixup_port_def Let_def
      using assms q range by simp
  qed
qed

lemma x_listener_port_witness:
  "wp (SocketINETCreateListener sample_config (zero_conn 0) (Some ''60049'') 0)
     (\<lambda>(r, c') w'. r = -1 \<and> binds (w_log w') = []) (sample_world [])"
proof -
  have "is_numeric ''60049''" and "\<not> 6000 + dec_val ''60049'' \<le> 65535"
    by (simp_all add: is_numeric_def isdigit_def less_eq_char_def dec_val_def digit_val_def)
  then show ?thesis
    by (intro x_listener_port [THEN wp_mono]) auto
qed

section \<open>Unix listeners\<close>

text \<open>A step that at most creates a directory; \<open>trans_mkdir\<close> closes what it opens.\<close>

lemma mkdir_fix_quiet:
  "wp (mkdir_fix path mode buf uo um) (\<lambda>r w'. quiet w w' \<and> w_fault w' = w_fault w) w"
  unfolding mkdir_fix_def Let_def
  by (auto intro!: wp_sys_fd wp_sys wp_c_close simp: frame_defs)

lemma mkdir_existing_quiet:
  "wp (mkdir_existing cfg path mode buf) (\<lambda>r w'. quiet w w' \<and> w_fault w' = w_fault w) w"
  unfolding mkdir_existing_def Let_def
proof (rule wp_bindI)
  show "wp (if cfg_fchown cfg \<and> b then mkdir_fix path mode buf uo um else return (Some (False, False)))
      (\<lambda>r w'. quiet w w' \<and> w_fault w' = w_fault w) w" for b uo um
    using mkdir_fix_quiet [of path mode buf uo um w] by (simp add: frame_defs)
qed (auto split: option.splits)

lemma trans_mkdir_quiet:
  "wp (trans_mkdir cfg path mode) (\<lambda>r w'. quiet w w' \<and> w_fault w' = w_fault w) w"
  unfolding trans_mkdir_def
  by (simp, rule wp_sys)
    (auto intro!: wp_sys mkdir_existing_quiet [THEN wp_mono] simp: frame_defs)

text \<open>What a Unix listener has done when it returns, given the mask it was called under.\<close>

definition unix_post :: "conn \<Rightarrow> xworld \<Rightarrow> int \<times> conn \<Rightarrow> xworld \<Rightarrow> bool" where
  "unix_post c w = (\<lambda>(r, c') w'. r \<in> {0, -1, -2} \<and> g_flags w' = g_flags w \<and> w_fault w' = w_fault w \<and>
     w_fds w' \<in> {w_fds w, remove1 (c_fd c) (w_fds w)} \<and> (r \<noteq> -1 \<longrightarrow> w_fds w' = w_fds w) \<and>
     (if r = 0 then c_family c' = AF_UNIX \<and> c_addrlen c' = 110 \<and> c_fd c' = c_fd c \<and>
        (\<exists>i path. c_addr c' = Ptr i (sockaddr_un path) \<and> w_heap w' = i # w_heap w)
      else w_heap w' = w_heap w))"

lemma unix_listen_at_spec:
  assumes "w_fds u = w_fds w" "w_heap u = w_heap w" "g_flags u = g_flags w" "w_fault u = w_fault w"
  shows "wp (unix_listen_at cfg c path abstract flags old)
    (\<lambda>r w'. unix_post c w r w' \<and> w_umask w' = old) u"
  unfolding unix_listen_at_def Let_def
proof (rule wp_bindI [where P = "\<lambda>_ w'. w_fds w' = w_fds w \<and> w_heap w' = w_heap w \<and>
      g_flags w' = g_flags w \<and> w_fault w' = w_fault w"], goal_cases)
  case 1
  show ?case using assms by (auto intro!: wp_sys_ignore)
next
  case (2 x w1)
  show ?case
  proof (rule wp_bindI [OF SocketCreateListener_spec], clarify, goal_cases)
    case (1 r c' w2)
    note post = 1 [unfolded listen_post_def bind_post_def]
    show ?case
    proof (cases "r = 0")
      case True
      with post 2 have "w_fds w2 = w_fds w" "w_heap w2 = w_heap w" "g_flags w2 = g_flags w"
        "w_fault w2 = w_fault w" "c_fd c' = c_fd c"
        by auto
      then show ?thesis
        using True by (auto intro!: wp_malloc_with wp_c_umask exI simp: unix_post_def)
    next
      case False
      with post have "r < 0" by auto
      moreover have "unix_post c w (r, c') (w2\<lparr>w_log := l, w_errno := e, w_umask := old\<rparr>)" for l e
        using post 2 False by (auto simp: unix_post_def)
      ultimately show ?thesis by (auto intro!: wp_c_umask)
    qed
  qed
qed

text \<open>The default port, the prefix with the process number, always gives a path that fits.\<close>

lemma default_port_fits:
  "set_sun_path (snprintf_s 108 (UNIX_PATH cfg @ s)) (UNIX_PATH cfg) abstract \<noteq> None"
proof -
  have short: "set_sun_path p u abstract \<noteq> None"
    if "p \<noteq> []" "hd p = CHR ''/''" "length p \<le> 107" for p u
    using that by (simp add: set_sun_path_def Let_def)
  obtain x where "UNIX_PATH cfg = CHR ''/'' # x"
    by (cases "cfg_t cfg") (auto simp: UNIX_PATH_def)
  then show ?thesis by (intro short) (simp_all add: snprintf_s_def take_Cons')
qed

text \<open>The port that is used: the one that was given, or one made of the process id, which always fits.\<close>

lemma chosen_port:
  assumes pid: "\<And>u. I u \<Longrightarrow> wp (sys Getpid) (\<lambda>_. I) u" and "I u"
  shows "wp (case port of
       Some p \<Rightarrow> if p \<noteq> [] then return p
         else do { pid \<leftarrow> sys Getpid; return (snprintf_s 108 (UNIX_PATH cfg @ print_d (r_ret pid))) }
     | None \<Rightarrow> do { pid \<leftarrow> sys Getpid; return (snprintf_s 108 (UNIX_PATH cfg @ print_d (r_ret pid))) })
    (\<lambda>p u'. I u' \<and> (set_sun_path p (UNIX_PATH cfg) abstract = None \<longrightarrow> port = Some p \<and> p \<noteq> [])) u"
proof -
  have "wp (do { pid \<leftarrow> sys Getpid; return (snprintf_s 108 (UNIX_PATH cfg @ print_d (r_ret pid))) })
      (\<lambda>p u'. I u' \<and> (set_sun_path p (UNIX_PATH cfg) abstract = None \<longrightarrow> R p)) u" for R
    by (rule wp_bindI [OF pid]) (use assms(2) in \<open>simp_all del: not_None_eq add: default_port_fits\<close>)
  from this [of "\<lambda>p. port = Some p \<and> p \<noteq> []"] show ?thesis
    using assms(2) by (cases port; cases "the port = []") (simp_all del: wp_bind)
qed



end
