(* ===== verification/ServerProps.thy ===== *)
theory ServerProps
  imports Session FlagProps ListenProps
begin

unbundle bit_operations_syntax

text \<open>
  The server side: what accepting a connection leaves open and allocated, a whole served
  connection from accepting to closing, the set of listeners that
  \<open>TransMakeAllCOTSServerListeners\<close> makes, and handing a listener over to another process.
\<close>

section \<open>Accepting\<close>

text \<open>What \<open>accept\<close> leaves: nothing, or one descriptor and the blocks of the new connection.\<close>

definition accepted :: "conn option \<Rightarrow> int \<Rightarrow> xworld \<Rightarrow> xworld \<Rightarrow> bool" where
  "accepted n status w w' \<longleftrightarrow> rest_same w w' \<and> os_wf w' \<and> (case n of
     None \<Rightarrow> status \<in> {TRANS_ACCEPT_BAD_MALLOC, TRANS_ACCEPT_FAILED, TRANS_ACCEPT_MISC_ERROR} \<and>
       w_fds w' = w_fds w \<and> w_heap w' = w_heap w
   | Some d \<Rightarrow> status = 0 \<and> w_fds w' = c_fd d # w_fds w \<and> c_fd d \<notin> set (w_fds w) \<and>
       mset (w_heap w') = mset (owned d) + mset (w_heap w) \<and> own_ptrs d \<and> c_flags d = 0 \<and>
       c_addr d \<noteq> Null \<and> c_peeraddr d \<noteq> Null)"

lemma rest_same_update [simp]:
  "rest_same w (v\<lparr>w_log := l\<rparr>) = rest_same w v" "rest_same w (v\<lparr>w_errno := e\<rparr>) = rest_same w v"
  "rest_same w (v\<lparr>w_fds := f\<rparr>) = rest_same w v" "rest_same w (v\<lparr>w_heap := h\<rparr>) = rest_same w v"
  "rest_same w (v\<lparr>w_next := n\<rparr>) = rest_same w v" "rest_same w (v\<lparr>w_fault := b\<rparr>) = rest_same w v"
  by (simp_all add: rest_same_def)

lemmas accept_simps = wp_fun accepted_def frame_defs os_wf_def own_ptrs_def owned_def conn_blocks_def

lemma SocketUNIXAccept_spec:
  assumes "os_wf w"
  shows "wp (SocketUNIXAccept cfg c) (\<lambda>(n, status, c') w'. accepted n status w w' \<and>
      c' = c\<lparr>c_addrlen := c_addrlen c'\<rparr> \<and>
      (\<forall>b. deref (c_addr c) = Some b \<longrightarrow> (\<forall>l. length (r_data (w_env w l (AcceptC (c_fd c)))) \<le> length b) \<longrightarrow>
         w_fault w' = w_fault w)) w"
  using assms os_wf_fresh [OF assms] os_wf_less [OF assms]
  unfolding SocketUNIXAccept_def Let_def memcpy_from_def wp_bind
  apply (intro wp_calloc_conn)
  subgoal by (simp add: accepted_def)
  apply (simp add: wp_fun)
  apply (intro wp_sys_env)
  apply (simp add: wp_fun)
  apply (intro conjI impI)
  subgoal by (simp add: accepted_def rest_same_def os_wf_def)
  apply (intro wp_malloc)
  subgoal by (simp add: wp_fun, intro wp_c_close) (simp_all add: accept_simps)
  apply (simp add: wp_fun split: option.split)
  apply (intro conjI impI allI wp_malloc)
  subgoal by (simp add: wp_fun, intro wp_c_close) (simp_all add: accept_simps)
  subgoal by (simp add: accept_simps)
  subgoal by (simp add: wp_fun, intro wp_c_close) (simp_all add: accept_simps)
  subgoal by (simp add: accept_simps)
  subgoal by (simp add: wp_fun, intro wp_c_close) (simp_all add: accept_simps, blast)
  subgoal by (simp add: accept_simps, blast)
  done

lemma SocketINETAccept_spec:
  assumes "os_wf w"
  shows "wp (SocketINETAccept cfg c) (\<lambda>(n, status) w'. accepted n status w w') w"
  using assms os_wf_fresh [OF assms] os_wf_less [OF assms]
  unfolding SocketINETAccept_def Let_def wp_bind
  apply (intro wp_calloc_conn)
  subgoal by (simp add: accepted_def)
  apply (simp add: wp_fun)
  apply (intro wp_sys_fd)
  subgoal by (simp add: wp_fun accepted_def rest_same_def os_wf_def)
  apply (simp add: wp_fun)
  apply (intro wp_sys_ignore wp_SocketINETGetAddr)
  subgoal by (simp add: wp_fun, intro wp_c_close) (simp_all add: accept_simps)
  subgoal by (simp add: wp_fun, intro wp_c_close) (simp_all add: accept_simps)
  apply (simp add: wp_fun)
  apply (intro wp_SocketINETGetPeerAddr)
  subgoal by (simp add: wp_fun, intro wp_c_close) (simp_all add: accept_simps)
  subgoal by (simp add: wp_fun, intro wp_c_close) (simp_all add: accept_simps)
  subgoal by (simp add: accept_simps)
  done


text \<open>
  (C9) Accepting a connection either fails with one of the three error codes and leaves open and
  allocated exactly what was, or gives a connection with a new descriptor that owns exactly the
  new blocks. Of the listener, at most the length of its address changes, and only that of a
  Unix socket.
\<close>

theorem accept_outcome:
  assumes "os_wf w" and "transptr c = Some t"
  shows "wp (TransAccept cfg c) (\<lambda>(n, status, c') w'. rest_same w w' \<and> (case n of
     None \<Rightarrow> status \<in> {TRANS_ACCEPT_BAD_MALLOC, TRANS_ACCEPT_FAILED, TRANS_ACCEPT_MISC_ERROR} \<and>
       w_fds w' = w_fds w \<and> w_heap w' = w_heap w
   | Some d \<Rightarrow> status = 0 \<and> transptr d = Some t \<and> w_fds w' = c_fd d # w_fds w \<and> c_fd d \<notin> set (w_fds w) \<and>
       mset (w_heap w') = mset (owned d) + mset (w_heap w)) \<and>
     c' = (if is_unix t then c\<lparr>c_addrlen := c_addrlen c'\<rparr> else c)) w"
proof (cases "is_unix t")
  case True
  have "wp (SocketUNIXAccept cfg c) (\<lambda>(n, status, c') w'. accepted n status w w' \<and>
      c' = c\<lparr>c_addrlen := c_addrlen c'\<rparr> \<and> transptr c' = Some t) w"
    by (rule SocketUNIXAccept_spec [OF assms(1), THEN wp_mono])
      (auto simp: assms(2) dest: arg_cong [where f = transptr])
  then show ?thesis
    unfolding TransAccept_def wp_bind
    by (simp add: assms(2) True, elim wp_mono)
      (auto simp: accepted_def owned_def conn_blocks_def assms(2) split: option.splits)
next
  case False
  then show ?thesis
    unfolding TransAccept_def wp_bind
    by (simp add: assms(2), intro SocketINETAccept_spec [OF assms(1), THEN wp_mono])
      (auto simp: accepted_def owned_def conn_blocks_def assms(2) split: option.splits)
qed

theorem accept_outcome_witness:
  "wp (TransAccept sample_config ((zero_conn 0)\<lparr>transptr := Some SocketUNIXFuncs\<rparr>)) (\<lambda>(n, status, c') w'.
     n = None \<and> w_fds w' = [0, 1, 2] \<and> w_heap w' = []) (sample_world [resp_of 0 0 [], resp_of (-1) 24 []])"
proof -
  let ?w = "sample_world [resp_of 0 0 [], resp_of (-1) 24 []]"
  let ?c = "(zero_conn 0)\<lparr>transptr := Some SocketUNIXFuncs\<rparr>"
  have "fst (fst (run_state (TransAccept sample_config ?c) ?w)) = None" by code_simp
  then show ?thesis
    using accept_outcome [of ?w ?c SocketUNIXFuncs sample_config] by (auto simp: wp_def split: prod.splits)
qed

section \<open>A served connection\<close>

lemma Accept_inv:
  assumes "os_wf w" and "\<not> w_fault w" and "transptr c = Some t" and "is_unix t"
    and "deref (c_addr c) = Some b" and "\<And>l. length (r_data (w_env w l (AcceptC (c_fd c)))) \<le> length b"
  shows "wp (TransAccept cfg c) (\<lambda>(n, status, c') w'. \<not> w_fault w' \<and>
    (\<forall>d. n = Some d \<longrightarrow> conn_inv (mset (w_heap w)) t d w')) w"
proof -
  have "wp (SocketUNIXAccept cfg c) (\<lambda>(n, status, c') w'. accepted n status w w' \<and> \<not> w_fault w' \<and>
      transptr c' = Some t) w"
    by (rule SocketUNIXAccept_spec [OF assms(1), THEN wp_mono])
      (auto simp: assms dest: arg_cong [where f = transptr])
  then show ?thesis
    unfolding TransAccept_def wp_bind
    by (simp add: assms(3,4), elim wp_mono)
      (auto simp: accepted_def conn_inv_def owned_def conn_blocks_def own_ptrs_def split: option.splits)
qed



section \<open>Listening on every transport\<close>

text \<open>A connection that \<open>SocketCreateListener\<close> succeeded on carries its mark, whatever follows.\<close>

definition marked :: "int \<times> conn \<Rightarrow> xworld \<Rightarrow> bool" where
  "marked = (\<lambda>(r, c) w. r < 0 \<or> has (c_flags c) 1)"

lemma marked_fail: "r < 0 \<Longrightarrow> marked (r, c) w"
  by (simp add: marked_def)

lemma SocketCreateListener_marked: "wp (SocketCreateListener cfg c a flags) marked w"
  by (rule SocketCreateListener_spec [THEN wp_mono])
    (auto simp: listen_post_def bind_post_def marked_def has_bits bit_simps split: if_splits)

lemma SocketINETGetAddr_flags: "wp (SocketINETGetAddr cfg c) (\<lambda>(r, c') w'. c_flags c' = c_flags c) w"
  by (rule wp_SocketINETGetAddr) simp_all

lemma TransCreateListener_marked: "wp (TransCreateListener cfg c port flags) marked w"
proof -
  have unix: "wp (unix_listen_at cfg c path b flags old) marked u" for path b old u
    unfolding unix_listen_at_def Let_def
    by (rule wp_bindI, rule wp_any, rule TrueI, rule wp_bindI [OF SocketCreateListener_marked])
      (auto simp: marked_def wp_fun intro!: wp_c_umask wp_malloc_with)
  have inet: "wp (inet_listen_at cfg c n flags) marked u" for n u
    unfolding inet_listen_at_def Let_def
    by (rule wp_bindI [OF SocketCreateListener_marked])
      (auto simp: marked_def intro!: SocketINETGetAddr_flags [THEN wp_mono])
  have "wp (SocketINETCreateListener cfg c port flags) marked u" for u
    unfolding SocketINETCreateListener_def Let_def wp_bind
    by (rule wp_any, rule wp_any) (simp add: marked_fail inet split: option.split)
  moreover have "wp (SocketUNIXCreateListener cfg c port flags) marked u" for u
    unfolding SocketUNIXCreateListener_def Let_def wp_bind
    by (rule wp_any, rule wp_any, rule wp_any, rule wp_any, simp only: wp_if wp_fun, split if_split)
      (intro conjI impI wp_c_umask, simp add: marked_fail, rule wp_any, simp add: marked_fail unix split: option.split)
  ultimately show ?thesis
    unfolding TransCreateListener_def by (cases "transptr c") (simp_all add: trans_of_def)
qed

text \<open>The transports that the loop over all transports tries to listen on.\<close>

definition eligible :: "(transp \<Rightarrow> u32) \<Rightarrow> transp \<Rightarrow> bool" where
  "eligible f t \<longleftrightarrow> \<not> has (f t) TRANS_ALIAS \<and> \<not> has (f t) TRANS_NOLISTEN \<and> \<not> has (f t) TRANS_RECEIVED"

lemma listen_on_spec:
  "wp (listen_on cfg port t ti cs b) (\<lambda>r w'. g_flags w' = g_flags w \<and> (case r of None \<Rightarrow> True
     | Some (cs', b') \<Rightarrow> cs' = cs \<or> (eligible (g_flags w) t \<and> (\<exists>c. cs' = cs @ [c] \<and> has (c_flags c) 1)))) w"
  unfolding wp_conj
proof
  show "wp (listen_on cfg port t ti cs b) (\<lambda>r w'. g_flags w' = g_flags w) w"
    by (rule keeps_all) (rule kf_listen_on)
  show "wp (listen_on cfg port t ti cs b) (\<lambda>r w'. case r of None \<Rightarrow> True
     | Some (cs', b') \<Rightarrow> cs' = cs \<or> (eligible (g_flags w) t \<and> (\<exists>c. cs' = cs @ [c] \<and> has (c_flags c) 1))) w"
  proof (cases "eligible (g_flags w) t")
    case True
    have listen: "wp (TransCreateListener cfg c port fl) (\<lambda>x. wp (case x of (status, ciptr) \<Rightarrow>
           if status < 0 then
             (if status = TRANS_ADDR_IN_USE then do { close_all cfg cs; return None }
              else return (Some (cs, b)))
           else do { temp_ciptrs \<leftarrow> store_ciptr cfg cs ciptr; return (Some (temp_ciptrs, b')) })
         (\<lambda>r w'. case r of None \<Rightarrow> True | Some (cs', b') \<Rightarrow> cs' = cs \<or>
           (\<exists>c. cs' = cs @ [c] \<and> has (c_flags c) 1))) u" for c fl u b'
      by (rule TransCreateListener_marked [THEN wp_mono])
        (auto simp: marked_def wp_fun store_ciptr_def intro!: wp_any)
    show ?thesis
      unfolding listen_on_def Let_def wp_bind [of "tflags _"] wp_tflags wp_bind [of "TransOpenCOTSServer _ _"] wp_if
      using True unfolding eligible_def
      by (simp only: simp_thms if_False) (rule wp_any, split option.split,
        simp add: wp_bind [of "TransCreateListener _ _ _ _"] listen del: wp_bind wp_prod)
  next
    case False
    then show ?thesis by (auto simp: listen_on_def eligible_def)
  qed
qed

definition new_listeners :: "(transp \<Rightarrow> u32) \<Rightarrow> (transp \<times> int) list \<Rightarrow> conn list \<Rightarrow> bool" where
  "new_listeners f ts cs \<longleftrightarrow> length cs \<le> length (filter (\<lambda>(t, _). eligible f t) ts) \<and>
     (\<forall>c \<in> set cs. has (c_flags c) 1)"

lemma listen_loop_spec:
  "wp (listen_loop cfg port ts cs b) (\<lambda>r w'. g_flags w' = g_flags w \<and>
     (\<forall>cs'. r = Some cs' \<longrightarrow> (\<exists>new. cs' = cs @ new \<and> new_listeners (g_flags w) ts new))) w"
proof (induction ts arbitrary: cs b w)
  case Nil
  then show ?case by (simp add: new_listeners_def)
next
  case (Cons x ts)
  obtain t ti where x: "x = (t, ti)" by (cases x)
  have rest: "wp (listen_loop cfg port ts cs' b') (\<lambda>r w'. g_flags w' = g_flags w \<and>
      (\<forall>cs'. r = Some cs' \<longrightarrow> (\<exists>new. cs' = cs @ new \<and> new_listeners (g_flags w) (x # ts) new))) u"
    if "g_flags u = g_flags w"
      and "cs' = cs \<or> (eligible (g_flags w) t \<and> (\<exists>c. cs' = cs @ [c] \<and> has (c_flags c) 1))" for u cs' b'
  proof (rule wp_mono [OF Cons.IH], intro conjI allI impI; elim conjE)
    fix r v cs''
    assume "\<forall>cs''. r = Some cs'' \<longrightarrow> (\<exists>new. cs'' = cs' @ new \<and> new_listeners (g_flags u) ts new)"
      and "r = Some cs''"
    then obtain new where "cs'' = cs' @ new" "new_listeners (g_flags u) ts new" by auto
    then show "\<exists>new. cs'' = cs @ new \<and> new_listeners (g_flags w) (x # ts) new"
      using that by (auto simp: new_listeners_def x)
  qed (simp add: that(1))
  show ?case
    unfolding x listen_loop.simps
    by (rule wp_bindI [OF listen_on_spec]) (auto intro!: rest [unfolded x] split: option.splits)
qed



section \<open>Handing a listener over\<close>

lemma select_first: "x \<in> set (Xtransports cfg) \<Longrightarrow> 0 \<le> SocketSelectFamily cfg (-1) (TransName (fst x))"
  by (cases "cfg_ipv6 cfg")
    (auto simp: Xtransports_def SocketSelectFamily_def Sockettrans2devtab_def NUMSOCKETFAMILIES_def upt_rec)

lemma find_transport:
  assumes "(t, i) \<in> set (Xtransports cfg)"
  shows "find (\<lambda>(_, j). j = i) (Xtransports cfg) = Some (t, i)" "find (\<lambda>(u, _). t = u) (Xtransports cfg) = Some (t, i)"
  using assms by (auto simp: Xtransports_def split: if_splits)

lemma SocketReopen_mem:
  assumes "mem_ok w" and "length port \<le> 13"
  shows "wp (SocketReopen cfg type fd port) (\<lambda>r w'. r \<noteq> None \<and> mem_ok w') w"
  unfolding SocketReopen_def Let_def calloc_conn_def wp_bind
  using assms by (auto simp: wp_fun intro!: wp_malloc_mem wp_malloc_with_mem)

text \<open>The connection that is reopened, with its four blocks once the port is stored in it.\<close>

lemma SocketReopenCOTSServer_mem:
  assumes "os_wf w" and "mem_ok w" and "length port \<le> 13" and "(t, i) \<in> set (Xtransports cfg)"
  shows "wp (SocketReopenCOTSServer cfg t fd port) (\<lambda>r w'. \<exists>c. r = Some c \<and> reopened fd port w w' c \<and>
    os_wf w' \<and> w_fault w' = w_fault w \<and> mem_ok w') w"
proof -
  have ok: "wp (SocketReopen cfg type fd port) (\<lambda>r w'. \<exists>c. r = Some c \<and> reopened fd port w w' c \<and> os_wf w' \<and>
      w_fault w' = w_fault w \<and> mem_ok w') w" for type
    using SocketReopen_mem [OF assms(2,3), of cfg type fd] SocketReopen_spec [OF assms(1), of cfg type fd port]
    unfolding wp_def by (auto split: prod.splits)
  have "reopened fd port w w' (c\<lparr>c_index := k\<rparr>) = reopened fd port w w' c" for w' c k
    by (simp add: reopened_def)
  then show ?thesis
    unfolding SocketReopenCOTSServer_def using select_first [OF assms(4)]
    by (subst open_loop.simps) (simp add: Let_def, intro ok [THEN wp_mono], auto)
qed

text \<open>
  (C38) Handing a listener over: with enough memory and a port of at most 13 characters, reopening a
  descriptor for a transport succeeds, whatever the descriptor is; the
  connection owns exactly the new blocks, and \<open>GetReopenInfo\<close> on it gives back the
  identifier of the transport, the descriptor and the port it was reopened with.
\<close>

theorem reopen_roundtrip:
  assumes "os_wf w" and "mem_ok w" and "length port \<le> 13" and "(t, i) \<in> set (Xtransports cfg)"
  shows "wp (TransReopenCOTSServer cfg i fd port) (\<lambda>r w'. \<exists>c. r = Some c \<and> w_fds w' = w_fds w \<and>
    mset (w_heap w') = mset (owned c) + mset (w_heap w) \<and> w_fault w' = w_fault w \<and>
    wp (TransGetReopenInfo cfg c) (\<lambda>(ret, trans_id, fd', port') w''. ret = 1 \<and> trans_id = i \<and> fd' = fd \<and>
      deref port' = Some port \<and> w_fault w'' = w_fault w) w') w"
proof -
  have info: "wp (TransGetReopenInfo cfg c) (\<lambda>(ret, trans_id, fd', port') w''. ret = 1 \<and> trans_id = i \<and>
      fd' = fd \<and> deref port' = Some port \<and> w_fault w'' = w_fault w) u"
    if "transptr c = Some t" "c_port c = Ptr k port" "c_fd c = fd" "mem_ok u" "w_fault u = w_fault w" for c k u
    unfolding TransGetReopenInfo_def using that find_transport(2) [OF assms(4)]
    by (auto intro!: wp_strdup_mem)
  show ?thesis
    unfolding TransReopenCOTSServer_def TransReopen_def find_transport(1) [OF assms(4)] option.case prod.case wp_bind
  proof (rule wp_strdup_mem, goal_cases)
    case (2 l e)
    let ?u = "w\<lparr>w_log := l, w_errno := e, w_heap := w_next w # w_heap w, w_next := Suc (w_next w)\<rparr>"
    have "os_wf ?u" "mem_ok ?u" using assms(1,2) by (auto simp: os_wf_def)
    then have "wp (SocketReopenCOTSServer cfg t fd port) (\<lambda>r w'. \<exists>c. r = Some c \<and> reopened fd port ?u w' c \<and>
        os_wf w' \<and> w_fault w' = w_fault ?u \<and> mem_ok w') ?u"
      by (rule SocketReopenCOTSServer_mem [OF _ _ assms(3,4)])
    then have "wp (SocketReopenCOTSServer cfg t fd port) (\<lambda>r w'. \<exists>c. r = Some c \<and> w_fds w' = w_fds w \<and>
        mset (w_heap w') = mset (owned (c\<lparr>transptr := Some t, c_port := Ptr (w_next w) port\<rparr>)) + mset (w_heap w) \<and>
        c_fd c = fd \<and> w_fault w' = w_fault w \<and> mem_ok w') ?u"
      by (rule wp_mono) (auto simp: reopened_def owned_def conn_blocks_def)
    then show ?case
      unfolding wp_if wp_bind by simp (erule wp_mono, elim exE conjE, simp add: info)
  qed (use assms(2) in simp)
qed

theorem reopen_roundtrip_witness:
  "wp (TransReopenCOTSServer sample_config 4 7 ''0'') (\<lambda>r w'. \<exists>c. r = Some c \<and>
    wp (TransGetReopenInfo sample_config c) (\<lambda>(ret, trans_id, fd, port) w''. ret = 1 \<and> trans_id = 4 \<and> fd = 7 \<and>
      deref port = Some ''0'') w') (sample_world [])"
proof -
  have "mem_ok (sample_world [])" by (simp add: mem_ok_def answers_def resp_of_def)
  then have "wp (TransReopenCOTSServer sample_config 4 7 ''0'') (\<lambda>r w'. \<exists>c. r = Some c \<and>
      w_fds w' = w_fds (sample_world []) \<and>
      mset (w_heap w') = mset (owned c) + mset (w_heap (sample_world [])) \<and> w_fault w' = w_fault (sample_world []) \<and>
    wp (TransGetReopenInfo sample_config c) (\<lambda>(ret, trans_id, fd', port') w''. ret = 1 \<and> trans_id = 4 \<and> fd' = 7 \<and>
      deref port' = Some ''0'' \<and> w_fault w'' = w_fault (sample_world [])) w') (sample_world [])"
    by (intro reopen_roundtrip [where t = SocketUNIXFuncs]) (simp_all add: Xtransports_def)
  then show ?thesis by (rule wp_mono) (auto elim!: wp_mono)
qed

end
