(* ===== verification/VectorProps.thy ===== *)
theory VectorProps
  imports Xtrans
begin

text \<open>
  The emulated \<open>writev\<close>: what reaches the socket is a prefix of the buffers, in order, and the result
  is its length.
\<close>

section \<open>Bytes on the socket\<close>

text \<open>The bytes that one call hands over, and all of them in order, from the log.\<close>

fun delivered :: "os_call \<Rightarrow> resp \<Rightarrow> string" where
  "delivered (WriteC fd b) r = take (nat (r_ret r)) b"
| "delivered (Sendmsg fd bufs fds) r = take (nat (r_ret r)) (concat bufs)"
| "delivered _ r = []"

definition sent :: "(os_call \<times> resp) list \<Rightarrow> string" where
  "sent l = concat (map (\<lambda>(c, r). delivered c r) (rev l))"

lemma sent_simps [simp]: "sent [] = []" "sent ((c, r) # l) = sent l @ delivered c r"
  by (simp_all add: sent_def)

text \<open>A call never claims to have sent more than it was given.\<close>

definition honest :: "xworld \<Rightarrow> bool" where
  "honest w \<longleftrightarrow> (\<forall>l fd b bufs fds. r_ret (w_env w l (WriteC fd b)) \<le> int (length b) \<and>
     r_ret (w_env w l (Sendmsg fd bufs fds)) \<le> int (length (concat bufs)))"

text \<open>Every call sends something.\<close>

definition progress :: "xworld \<Rightarrow> bool" where
  "progress w \<longleftrightarrow> (\<forall>l fd b bufs fds. (b \<noteq> [] \<longrightarrow> 0 < r_ret (w_env w l (WriteC fd b))) \<and>
     (concat bufs \<noteq> [] \<longrightarrow> 0 < r_ret (w_env w l (Sendmsg fd bufs fds))))"

definition same_env :: "xworld \<Rightarrow> xworld \<Rightarrow> bool" where
  "same_env w w' \<longleftrightarrow> w_env w' = w_env w"

lemma honest_cong: "same_env w w' \<Longrightarrow> honest w' = honest w" "same_env w w' \<Longrightarrow> progress w' = progress w"
  by (simp_all add: honest_def progress_def same_env_def)

lemma wp_close_sent:
  "(\<And>r w'. sent (w_log w') = sent (w_log w) \<Longrightarrow> same_env w w' \<Longrightarrow> Q r w') \<Longrightarrow> wp (c_close fd) Q w" for w :: xworld
  unfolding c_close_def wp_bind by (rule wp_sys_log) (simp add: same_env_def)

definition no_bytes :: "xworld \<Rightarrow> xworld \<Rightarrow> bool" where
  "no_bytes w w' \<longleftrightarrow> sent (w_log w') = sent (w_log w) \<and> same_env w w'"

lemma no_bytes_heap [simp]: "no_bytes w (w'\<lparr>w_heap := h\<rparr>) = no_bytes w w'"
  "no_bytes w (w'\<lparr>w_fault := f\<rparr>) = no_bytes w w'" "no_bytes w w"
  by (simp_all add: no_bytes_def same_env_def)

lemma no_bytes_trans: "no_bytes u v \<Longrightarrow> no_bytes v w \<Longrightarrow> no_bytes u w"
  by (simp add: no_bytes_def same_env_def)

lemma discardFd_sent: "wp (discardFd q None dc) (\<lambda>_ w'. no_bytes w w') w"
proof (induction q arbitrary: dc w)
  case (Cons n q)
  have rest: "wp (discardFd q None dc) (\<lambda>_ w'. no_bytes w w') u" if "no_bytes w u" for dc u
    using no_bytes_trans [OF that] by (rule Cons.IH [THEN wp_mono])
  have close: "wp (c_close (cf_fd n)) (\<lambda>_ w'. no_bytes w w') w"
    by (rule wp_close_sent) (simp add: no_bytes_def)
  show ?case by (auto intro!: rest wp_mono [OF close])
qed simp

section \<open>One write\<close>

definition wrote :: "string \<Rightarrow> xworld \<Rightarrow> int \<Rightarrow> xworld \<Rightarrow> bool" where
  "wrote b w r w' \<longleftrightarrow> sent (w_log w') = sent (w_log w) @ take (nat r) b \<and> r \<le> int (length b) \<and> same_env w w' \<and>
     (progress w \<longrightarrow> b \<noteq> [] \<longrightarrow> 0 < r)"

lemma SocketWrite_wrote:
  assumes "honest w"
  shows "wp (SocketWrite cfg c b) (\<lambda>(r, c') w'. wrote b w r w') w"
proof (cases "cfg_send_fds cfg \<and> send_fds c \<noteq> []")
  case True
  define a where "a = w_env w (w_log w) (Sendmsg (c_fd c) [b] (map cf_fd (send_fds c)))"
  have "r_ret a \<le> int (length (concat [b]))" "progress w \<Longrightarrow> concat [b] \<noteq> [] \<Longrightarrow> 0 < r_ret a"
    using assms unfolding honest_def progress_def a_def by blast+
  then have a: "r_ret a \<le> int (length b)" "progress w \<Longrightarrow> b \<noteq> [] \<Longrightarrow> 0 < r_ret a" by simp_all
  have discard: "wp (discardFd (send_fds c) None False) (\<lambda>q w'. wrote b w (r_ret a) w')
      (u\<lparr>w_log := (Sendmsg (c_fd c) [b] (map cf_fd (send_fds c)), a) # w_log w, w_errno := e\<rparr>)"
    if "same_env w u" for u e
    by (rule discardFd_sent [THEN wp_mono]) (use a that in \<open>simp add: no_bytes_def wrote_def same_env_def\<close>)
  have send: "wp (sys (Sendmsg (c_fd c) [b] (map cf_fd (send_fds c)))) (\<lambda>r. wp (if 0 < r_ret r
      then do { q \<leftarrow> discardFd (send_fds c) None False; return (r_ret r, c\<lparr>send_fds := q\<rparr>) }
      else return (r_ret r, c)) (\<lambda>(r, c') w'. wrote b w r w')) u"
    if "w_log u = w_log w" "same_env w u" for u
    by (rule wp_sys_run)
      (use that a discard [OF that(2)] in \<open>auto simp: a_def [symmetric] same_env_def wrote_def wp_fun\<close>)
  have "wp (SocketWritev cfg c [b]) (\<lambda>(r, c') w'. wrote b w r w') w"
    unfolding SocketWritev_def Let_def using True send
    by (simp only: wp_bind wp_if simp_thms if_True wp_do_if wp_fault) (simp add: same_env_def)
  then show ?thesis using True by (simp add: SocketWrite_def)
next
  case False
  then show ?thesis
    unfolding SocketWrite_def using assms
    by (auto intro!: wp_sys_run simp: wrote_def honest_def progress_def same_env_def)
qed

lemma TransWrite_wrote: "honest w \<Longrightarrow> wp (TransWrite cfg c b) (\<lambda>(r, c') w'. wrote b w r w') w"
proof (cases "transptr c")
  case None
  assume "honest w"
  then have "honest (w\<lparr>w_fault := True\<rparr>)" by (simp add: honest_def)
  moreover have "wrote b (w\<lparr>w_fault := True\<rparr>) = wrote b w"
    by (intro ext) (simp add: wrote_def same_env_def progress_def)
  ultimately show ?thesis
    using SocketWrite_wrote [of "w\<lparr>w_fault := True\<rparr>" cfg c b] by (simp add: TransWrite_def trans_of_def None)
qed (simp add: TransWrite_def SocketWrite_wrote)

section \<open>The loops\<close>

text \<open>What a loop over the bytes \<open>b\<close> has done when it stops after \<open>n\<close> of them.\<close>

definition pushed :: "string \<Rightarrow> int \<Rightarrow> xworld \<Rightarrow> nat \<Rightarrow> int \<Rightarrow> xworld \<Rightarrow> bool" where
  "pushed b tot w n tot' w' \<longleftrightarrow> n \<le> length b \<and> tot' = tot + int n \<and> sent (w_log w') = sent (w_log w) @ take n b \<and>
     same_env w w'"

lemma pushed_step:
  assumes "wrote b w r u" and "0 < r" and "pushed (drop (nat r) b) (tot + r) u' n tot' w'"
    and "w_log u' = w_log u" and "same_env u u'"
  shows "pushed b tot w (nat r + n) tot' w'"
  using assms by (auto simp: wrote_def pushed_def same_env_def take_add)

lemma write_buf_pushed:
  "honest w \<Longrightarrow> 0 \<le> tot \<Longrightarrow> wp (write_buf cfg c b tot) (\<lambda>(r, tot', c') w'. \<exists>n. pushed b tot w n tot' w' \<and>
     (progress w \<longrightarrow> r = None) \<and> (case r of None \<Rightarrow> n = length b | Some ret \<Rightarrow> ret = tot' \<or> ret = -1 \<and> tot' = 0)) w"
proof (induction b arbitrary: c tot w rule: length_induct)
  case (1 b)
  let ?Q = "\<lambda>(r, tot', c') w'. \<exists>n. pushed b tot w n tot' w' \<and> (progress w \<longrightarrow> r = None) \<and>
     (case r of None \<Rightarrow> n = length b | Some ret \<Rightarrow> ret = tot' \<or> ret = -1 \<and> tot' = 0)"
  show ?case
  proof (cases "b = []")
    case True
    then show ?thesis by (subst write_buf.simps) (simp add: pushed_def same_env_def)
  next
    case False
    have go_on: "wp (write_buf cfg c' (drop (nat r) b) (tot + r)) ?Q (u\<lparr>w_errno := 0\<rparr>)"
      if wr: "wrote b w r u" "0 < r" for r c' u
    proof -
      let ?u = "u\<lparr>w_errno := 0\<rparr>"
      have u: "honest ?u" "progress ?u = progress w" "same_env u ?u"
        using wr(1) "1.prems"(1) by (simp_all add: wrote_def honest_def progress_def same_env_def)
      have "length (drop (nat r) b) < length b" using False wr(2) by simp
      then have "wp (write_buf cfg c' (drop (nat r) b) (tot + r)) (\<lambda>(x, tot', c') w'. \<exists>n.
          pushed (drop (nat r) b) (tot + r) ?u n tot' w' \<and> (progress ?u \<longrightarrow> x = None) \<and>
          (case x of None \<Rightarrow> n = length (drop (nat r) b) | Some ret \<Rightarrow> ret = tot' \<or> ret = -1 \<and> tot' = 0)) ?u"
        using "1.IH" u(1) "1.prems"(2) wr(2) by simp
      then show ?thesis
      proof (rule wp_mono, clarify)
        fix x tot' c'' v n
        assume n: "pushed (drop (nat r) b) (tot + r) ?u n tot' v" "progress ?u \<longrightarrow> x = None"
          "case x of None \<Rightarrow> n = length (drop (nat r) b) | Some ret \<Rightarrow> ret = tot' \<or> ret = -1 \<and> tot' = 0"
        have "pushed b tot w (nat r + n) tot' v"
          using pushed_step [OF wr n(1)] u(3) by simp
        moreover have "nat r \<le> length b" using wr by (auto simp: wrote_def)
        ultimately show "\<exists>n. pushed b tot w n tot' v \<and> (progress w \<longrightarrow> x = None) \<and>
            (case x of None \<Rightarrow> n = length b | Some ret \<Rightarrow> ret = tot' \<or> ret = -1 \<and> tot' = 0)"
          using n(2,3) u(2) by (intro exI [of _ "nat r + n"]) (auto split: option.splits)
      qed
    qed
    have stop: "pushed b tot w 0 tot u \<and> \<not> progress w" if "wrote b w r u" "r \<le> 0" for r u
      using that False by (auto simp: wrote_def pushed_def)
    show ?thesis
      using False unfolding write_buf.simps [of cfg c b]
      by (simp only: if_False) (rule wp_bindI [OF TransWrite_wrote [OF "1.prems"(1)]],
        auto simp: set_errno_def dest: stop intro: go_on)
  qed
qed

lemma write_bufs_pushed:
  "honest w \<Longrightarrow> 0 \<le> tot \<Longrightarrow> wp (write_bufs cfg c iov tot) (\<lambda>(r, c') w'. \<exists>n tot'.
     pushed (concat iov) tot w n tot' w' \<and> (r = tot' \<or> r = -1 \<and> tot' = 0) \<and>
     (progress w \<longrightarrow> r = tot + int (length (concat iov)))) w"
proof (induction iov arbitrary: c tot w)
  case Nil
  then show ?case by (simp add: pushed_def same_env_def)
next
  case (Cons b iov)
  show ?case
    unfolding write_bufs.simps
  proof (rule wp_bindI [OF write_buf_pushed [OF Cons.prems]], clarify, goal_cases)
    case (1 r tot1 c1 u n)
    show ?case
    proof (cases r)
      case (Some ret)
      then show ?thesis using 1 by (auto simp: pushed_def intro!: exI [of _ n])
    next
      case None
      have u: "honest u" "0 \<le> tot1" "progress u = progress w"
        using 1(1) Cons.prems by (auto simp: pushed_def honest_cong)
      show ?thesis
        unfolding None option.case
      proof (rule wp_mono [OF Cons.IH [OF u(1,2)]], clarify, goal_cases)
        case (1 r' c' v m tot')
        have "pushed (concat (b # iov)) tot w (n + m) tot' v"
          using 1(1) \<open>pushed b tot w n tot1 u\<close> \<open>case r of None \<Rightarrow> _ | Some _ \<Rightarrow> _\<close> None
          by (auto simp: pushed_def same_env_def)
        moreover have "progress w \<longrightarrow> r' = tot + int (length (concat (b # iov)))"
          using 1 u(3) \<open>pushed b tot w n tot1 u\<close> \<open>case r of None \<Rightarrow> _ | Some _ \<Rightarrow> _\<close> None
          by (auto simp: pushed_def)
        ultimately show ?case using 1(2) by blast
      qed
    qed
  qed
qed


text \<open>A system that takes one byte at a time.\<close>

definition slow_world :: xworld where
  "slow_world = (sample_world [])\<lparr>w_env := \<lambda>_ c. case c of
     WriteC _ b \<Rightarrow> resp_of (int (min 1 (length b))) 0 []
   | Sendmsg _ bufs _ \<Rightarrow> resp_of (int (min 1 (length (concat bufs)))) 0 []
   | _ \<Rightarrow> resp_of 0 0 []\<rparr>"


end
