(* ===== verification/Tipc.thy ===== *)
theory Tipc
  imports Prelude "HOL-Library.Monad_Syntax"
begin

unbundle bit_operations_syntax

text \<open>
  The TLV and message helpers of \<open>include/linux/tipc_config.h\<close>. Memory is the list of the bytes of
  one object and a pointer is an offset into it; an access outside of the object, which C leaves
  undefined, gives \<open>None\<close>. Descriptor fields are in network byte order.
\<close>

section \<open>Memory\<close>

type_synonym mem = "u8 list"

definition rd_mem :: "mem \<Rightarrow> nat \<Rightarrow> nat \<Rightarrow> u8 list option" where
  "rd_mem m p n = (if p + n \<le> length m then Some (take n (drop p m)) else None)"

definition wr_mem :: "mem \<Rightarrow> nat \<Rightarrow> u8 list \<Rightarrow> mem option" where
  "wr_mem m p bs = (if p + length bs \<le> length m then Some (take p m @ bs @ drop (p + length bs) m) else None)"

text \<open>\<open>htons\<close> and a store, and a load and \<open>ntohs\<close>; likewise \<open>htonl\<close>.\<close>

definition be16_bytes :: "u16 \<Rightarrow> u8 list" where
  "be16_bytes v = [ucast (drop_bit 8 v), ucast v]"

definition be32_bytes :: "u32 \<Rightarrow> u8 list" where
  "be32_bytes v = [ucast (drop_bit 24 v), ucast (drop_bit 16 v), ucast (drop_bit 8 v), ucast v]"

definition load_be16 :: "mem \<Rightarrow> nat \<Rightarrow> u16 option" where
  "load_be16 m p = do { bs \<leftarrow> rd_mem m p 2; Some (push_bit 8 (ucast (bs ! 0)) OR ucast (bs ! 1)) }"

section \<open>TLVs\<close>

text \<open>
  \<open>struct tlv_desc\<close> is \<open>tlv_len\<close> at offset 0 and \<open>tlv_type\<close> at offset 2. Lengths are computed in
  \<open>size_t\<close> or \<open>int\<close>, which none of them leaves.
\<close>

abbreviation (input) TLV_ALIGNTO :: nat where "TLV_ALIGNTO \<equiv> 4"

definition TLV_ALIGN :: "nat \<Rightarrow> nat" where
  "TLV_ALIGN datalen = nat ((int datalen + (int TLV_ALIGNTO - 1)) AND NOT (int TLV_ALIGNTO - 1))"

definition TLV_LENGTH :: "nat \<Rightarrow> nat" where
  "TLV_LENGTH datalen = 4 + datalen"

definition TLV_SPACE :: "nat \<Rightarrow> nat" where
  "TLV_SPACE datalen = TLV_ALIGN (TLV_LENGTH datalen)"

definition TLV_DATA :: "nat \<Rightarrow> nat" where
  "TLV_DATA tlv = tlv + TLV_LENGTH 0"

definition TLV_OK :: "mem \<Rightarrow> nat \<Rightarrow> u16 \<Rightarrow> bool option" where
  "TLV_OK m tlv space =
     (if unat space \<ge> TLV_SPACE 0 then do { l \<leftarrow> load_be16 m tlv; Some (l \<le> space) } else Some False)"

definition TLV_CHECK :: "mem \<Rightarrow> nat \<Rightarrow> u16 \<Rightarrow> u16 \<Rightarrow> bool option" where
  "TLV_CHECK m tlv space exp_type = do {
     ok \<leftarrow> TLV_OK m tlv space;
     if ok then do { t \<leftarrow> load_be16 m (tlv + 2); Some (t = exp_type) } else Some False
   }"

definition TLV_GET_LEN :: "mem \<Rightarrow> nat \<Rightarrow> nat option" where
  "TLV_GET_LEN m tlv = do { l \<leftarrow> load_be16 m tlv; Some (unat l) }"

definition TLV_SET_LEN :: "mem \<Rightarrow> nat \<Rightarrow> u16 \<Rightarrow> mem option" where
  "TLV_SET_LEN m tlv len = wr_mem m tlv (be16_bytes len)"

definition TLV_CHECK_TYPE :: "mem \<Rightarrow> nat \<Rightarrow> u16 \<Rightarrow> bool option" where
  "TLV_CHECK_TYPE m tlv type = do { t \<leftarrow> load_be16 m (tlv + 2); Some (t = type) }"

definition TLV_SET_TYPE :: "mem \<Rightarrow> nat \<Rightarrow> u16 \<Rightarrow> mem option" where
  "TLV_SET_TYPE m tlv type = wr_mem m (tlv + 2) (be16_bytes type)"

text \<open>
  \<open>data\<close> is the bytes behind the pointer, \<open>None\<close> for a null pointer; reading more of them than
  there are is undefined. The length is cut to 16 bits by \<open>htons\<close>.
\<close>

definition TLV_SET :: "mem \<Rightarrow> nat \<Rightarrow> u16 \<Rightarrow> u8 list option \<Rightarrow> u16 \<Rightarrow> (nat \<times> mem) option" where
  "TLV_SET m tlv type data len = do {
     let tlv_len = TLV_LENGTH (unat len);
     m \<leftarrow> wr_mem m (tlv + 2) (be16_bytes type);
     m \<leftarrow> wr_mem m tlv (be16_bytes (word_of_nat tlv_len));
     m \<leftarrow> (case data of
         Some d \<Rightarrow> if len \<noteq> 0 then do {
             bs \<leftarrow> rd_mem d 0 (unat len);
             m \<leftarrow> wr_mem m (TLV_DATA tlv) bs;
             wr_mem m (TLV_DATA tlv + unat len) (replicate (TLV_SPACE (unat len) - tlv_len) 0)
           } else Some m
       | None \<Rightarrow> Some m);
     Some (TLV_SPACE (unat len), m)
   }"

section \<open>Lists of TLVs\<close>

record tlv_list_desc =
  tlv_ptr :: nat
  tlv_space :: u32

definition TLV_LIST_INIT :: "nat \<Rightarrow> u32 \<Rightarrow> tlv_list_desc" where
  "TLV_LIST_INIT data space = \<lparr>tlv_ptr = data, tlv_space = space\<rparr>"

definition TLV_LIST_EMPTY :: "tlv_list_desc \<Rightarrow> bool" where
  "TLV_LIST_EMPTY list \<longleftrightarrow> tlv_space list = 0"

text \<open>The space is passed as 16 bits.\<close>

definition TLV_LIST_CHECK :: "mem \<Rightarrow> tlv_list_desc \<Rightarrow> u16 \<Rightarrow> bool option" where
  "TLV_LIST_CHECK m list exp_type = TLV_CHECK m (tlv_ptr list) (ucast (tlv_space list)) exp_type"

definition TLV_LIST_DATA :: "tlv_list_desc \<Rightarrow> nat" where
  "TLV_LIST_DATA list = TLV_DATA (tlv_ptr list)"

text \<open>The aligned length is kept in 16 bits.\<close>

definition TLV_LIST_STEP :: "mem \<Rightarrow> tlv_list_desc \<Rightarrow> tlv_list_desc option" where
  "TLV_LIST_STEP m list = do {
     l \<leftarrow> load_be16 m (tlv_ptr list);
     let space = (word_of_nat (TLV_ALIGN (unat l)) :: u16);
     Some \<lparr>tlv_ptr = tlv_ptr list + unat space, tlv_space = tlv_space list - ucast space\<rparr>
   }"

section \<open>Messages\<close>

text \<open>
  \<open>struct tipc_cfg_msg_hdr\<close>: \<open>tcm_len\<close> at offset 0, \<open>tcm_type\<close> at 4, \<open>tcm_flags\<close> at 6 and 8
  reserved bytes that are not written.
\<close>

definition TCM_LENGTH :: "nat \<Rightarrow> nat" where
  "TCM_LENGTH datalen = 16 + datalen"

definition TCM_ALIGN :: "nat \<Rightarrow> nat" where
  "TCM_ALIGN datalen = nat ((int datalen + 3) AND NOT 3)"

definition TCM_SPACE :: "nat \<Rightarrow> nat" where
  "TCM_SPACE datalen = TCM_ALIGN (TCM_LENGTH datalen)"

definition TCM_DATA :: "nat \<Rightarrow> nat" where
  "TCM_DATA tcm_hdr = tcm_hdr + TCM_LENGTH 0"

definition TCM_SET :: "mem \<Rightarrow> nat \<Rightarrow> u16 \<Rightarrow> u16 \<Rightarrow> u8 list option \<Rightarrow> u16 \<Rightarrow> (nat \<times> mem) option" where
  "TCM_SET m msg cmd flags data data_len = do {
     let msg_len = TCM_LENGTH (unat data_len);
     m \<leftarrow> wr_mem m msg (be32_bytes (word_of_nat msg_len));
     m \<leftarrow> wr_mem m (msg + 4) (be16_bytes cmd);
     m \<leftarrow> wr_mem m (msg + 6) (be16_bytes flags);
     m \<leftarrow> (case data of
         Some d \<Rightarrow> if data_len \<noteq> 0 then do {
             bs \<leftarrow> rd_mem d 0 (unat data_len);
             m \<leftarrow> wr_mem m (TCM_DATA msg) bs;
             wr_mem m (TCM_DATA msg + unat data_len) (replicate (TCM_SPACE (unat data_len) - msg_len) 0)
           } else Some m
       | None \<Rightarrow> Some m);
     Some (TCM_SPACE (unat data_len), m)
   }"

section \<open>Reading back what was written\<close>

lemma wr_memI: "p + length bs \<le> length m \<Longrightarrow> wr_mem m p bs = Some (take p m @ bs @ drop (p + length bs) m)"
  by (simp add: wr_mem_def)

lemma wr_mem_length: "wr_mem m p bs = Some m' \<Longrightarrow> length m' = length m"
  by (auto simp: wr_mem_def split: if_splits)

lemma wr_mem_rd:
  assumes "wr_mem m p bs = Some m'"
  shows "rd_mem m' p (length bs) = Some bs"
    and "q + n \<le> p \<or> p + length bs \<le> q \<Longrightarrow> rd_mem m' q n = rd_mem m q n"
proof -
  have m': "m' = take p m @ bs @ drop (p + length bs) m" and len: "p + length bs \<le> length m"
    using assms by (auto simp: wr_mem_def split: if_splits)
  then show "rd_mem m' p (length bs) = Some bs" by (simp add: rd_mem_def)
  assume "q + n \<le> p \<or> p + length bs \<le> q"
  then show "rd_mem m' q n = rd_mem m q n"
  proof
    assume "q + n \<le> p"
    then have "n \<le> p - q" "q \<le> p" by simp_all
    then show ?thesis using len by (simp add: m' rd_mem_def drop_take min_absorb1)
  next
    assume "p + length bs \<le> q"
    then show ?thesis using len by (simp add: m' rd_mem_def)
  qed
qed

lemma and_not_3: "x AND NOT 3 = x div 4 * 4" for x :: int
proof -
  have "x AND NOT 3 = push_bit 2 (drop_bit 2 x)"
  proof (rule bit_eqI)
    fix n
    have "bit (3 :: int) n \<longleftrightarrow> n < 2"
      using bit_mask_iff [where ?'a = int, of 2 n] by (simp add: mask_eq_exp_minus_1)
    moreover have "Suc (Suc (n - 2)) = n" if "\<not> n < 2" using that by simp
    ultimately show "bit (x AND NOT 3) n = bit (push_bit 2 (drop_bit 2 x)) n"
      by (cases "n < 2") (simp_all add: bit_simps)
  qed
  then show ?thesis by (simp add: push_bit_eq_mult drop_bit_eq_div)
qed

lemma TLV_ALIGN_eq: "TLV_ALIGN n = (n + 3) div 4 * 4" and TCM_ALIGN_eq: "TCM_ALIGN n = (n + 3) div 4 * 4"
proof -
  have "nat ((int n + 3) AND NOT 3) = (n + 3) div 4 * 4"
    unfolding and_not_3 by (simp add: nat_mult_distrib nat_div_distrib nat_add_distrib)
  then show "TLV_ALIGN n = (n + 3) div 4 * 4" "TCM_ALIGN n = (n + 3) div 4 * 4"
    by (simp_all add: TLV_ALIGN_def TCM_ALIGN_def)
qed

lemma TLV_SPACE_bounds: "TLV_LENGTH n \<le> TLV_SPACE n" "TLV_SPACE n < TLV_LENGTH n + 4" "4 dvd TLV_SPACE n" "4 \<le> TLV_SPACE n"
  unfolding TLV_SPACE_def TLV_LENGTH_def TLV_ALIGN_eq by presburger+

lemma TLV_SPACE_0 [simp]: "TLV_SPACE 0 = 4"
  by (simp add: TLV_SPACE_def TLV_LENGTH_def TLV_ALIGN_eq)

lemma load_be16_eq: "load_be16 m p = map_option (\<lambda>bs. push_bit 8 (ucast (bs ! 0)) OR ucast (bs ! 1)) (rd_mem m p 2)"
  by (cases "rd_mem m p 2") (simp_all add: load_be16_def)

lemma be16_load: "push_bit 8 (ucast (be16_bytes v ! 0)) OR ucast (be16_bytes v ! 1) = v"
  unfolding be16_bytes_def by (rule bit_word_eqI) (auto simp: bit_simps)

lemma length_be16_bytes [simp]: "length (be16_bytes v) = 2"
  by (simp add: be16_bytes_def)

lemma wr_mem_be16:
  assumes "wr_mem m p (be16_bytes v) = Some m'"
  shows "load_be16 m' p = Some v"
  using wr_mem_rd(1) [OF assms] be16_load [of v] by (simp add: load_be16_eq)

lemma wr_mem_load:
  assumes "wr_mem m p bs = Some m'" and "q + 2 \<le> p \<or> p + length bs \<le> q"
  shows "load_be16 m' q = load_be16 m q"
  using wr_mem_rd(2) [OF assms(1), of q 2] assms(2) by (simp add: load_be16_eq)

section \<open>One TLV\<close>

text \<open>A TLV with the type \<open>ty\<close> and the value \<open>d\<close> is at \<open>p\<close>.\<close>

definition tlv_is :: "mem \<Rightarrow> nat \<Rightarrow> u16 \<Rightarrow> u8 list \<Rightarrow> bool" where
  "tlv_is m p ty d \<longleftrightarrow> load_be16 m p = Some (word_of_nat (TLV_LENGTH (length d))) \<and> load_be16 m (p + 2) = Some ty \<and>
     rd_mem m (TLV_DATA p) (length d) = Some d"

definition same_outside :: "mem \<Rightarrow> mem \<Rightarrow> nat \<Rightarrow> nat \<Rightarrow> bool" where
  "same_outside m m' p n \<longleftrightarrow> length m' = length m \<and>
     (\<forall>q k. q + k \<le> p \<or> p + n \<le> q \<longrightarrow> rd_mem m' q k = rd_mem m q k)"

lemma wr_mem_outside:
  "wr_mem m p bs = Some m' \<Longrightarrow> q \<le> p \<Longrightarrow> p + length bs \<le> q + n \<Longrightarrow> same_outside m m' q n"
  unfolding same_outside_def by (auto simp: wr_mem_length intro!: wr_mem_rd(2))

lemma same_outside_trans: "same_outside a b p n \<Longrightarrow> same_outside b c p n \<Longrightarrow> same_outside a c p n"
  by (simp add: same_outside_def)

lemma same_outside_mono:
  "same_outside a b p n \<Longrightarrow> q \<le> p \<Longrightarrow> p + n \<le> q + k \<Longrightarrow> same_outside a b q k"
  by (auto simp: same_outside_def)

lemma tlv_is_outside: "tlv_is m p ty d \<Longrightarrow> same_outside m m' q n \<Longrightarrow> p + TLV_LENGTH (length d) \<le> q \<Longrightarrow> tlv_is m' p ty d"
  by (simp add: tlv_is_def same_outside_def load_be16_eq TLV_LENGTH_def TLV_DATA_def)

lemma TLV_SET_spec:
  assumes "p + TLV_SPACE (length d) \<le> length m" and "length d < 65536"
  shows "\<exists>m'. TLV_SET m p ty (Some d) (word_of_nat (length d)) = Some (TLV_SPACE (length d), m') \<and>
    tlv_is m' p ty d \<and> same_outside m m' p (TLV_SPACE (length d))"
proof -
  let ?n = "length d" let ?s = "TLV_SPACE ?n"
  note b = TLV_SPACE_bounds [of ?n, unfolded TLV_LENGTH_def]
  have len: "unat (word_of_nat ?n :: u16) = ?n" using assms(2) by (simp add: unat_of_nat take_bit_nat_eq_self)
  have zero: "(word_of_nat ?n :: u16) = 0 \<longleftrightarrow> d = []"
    using len by (metis length_0_conv unat_0 unat_eq_zero)
  obtain m1 where m1: "wr_mem m (p + 2) (be16_bytes ty) = Some m1"
    using assms(1) b by (simp add: wr_mem_def)
  obtain m2 where m2: "wr_mem m1 p (be16_bytes (word_of_nat (TLV_LENGTH ?n))) = Some m2"
    using assms(1) b wr_mem_length [OF m1] by (simp add: wr_mem_def)
  obtain m3 where m3: "wr_mem m2 (TLV_DATA p) d = Some m3"
    using assms(1) b wr_mem_length [OF m1] wr_mem_length [OF m2] by (simp add: wr_mem_def TLV_DATA_def TLV_LENGTH_def)
  obtain m4 where m4: "wr_mem m3 (TLV_DATA p + ?n) (replicate (?s - TLV_LENGTH ?n) 0) = Some m4"
    using assms(1) b wr_mem_length [OF m1] wr_mem_length [OF m2] wr_mem_length [OF m3]
    by (simp add: wr_mem_def TLV_DATA_def TLV_LENGTH_def)
  have is3: "tlv_is m3 p ty d"
    using wr_mem_be16 [OF m1] wr_mem_be16 [OF m2] wr_mem_load [OF m2, of "p + 2"] wr_mem_rd(1) [OF m3]
      wr_mem_load [OF m3, of p] wr_mem_load [OF m3, of "p + 2"]
    by (simp add: tlv_is_def TLV_DATA_def TLV_LENGTH_def)
  have out3: "same_outside m m3 p ?s"
    using wr_mem_outside [OF m1, of p ?s] wr_mem_outside [OF m2, of p ?s] wr_mem_outside [OF m3, of p ?s] b
    by (auto simp: TLV_DATA_def TLV_LENGTH_def intro: same_outside_trans)
  have pad: "same_outside m3 m4 (p + TLV_LENGTH ?n) (?s - TLV_LENGTH ?n)"
    using wr_mem_outside [OF m4, of "p + TLV_LENGTH ?n" "?s - TLV_LENGTH ?n"] by (simp add: TLV_DATA_def TLV_LENGTH_def)
  have "tlv_is m4 p ty d" using tlv_is_outside [OF is3 pad] by simp
  moreover have "same_outside m m4 p ?s"
    using same_outside_trans [OF out3 same_outside_mono [OF pad]] b by (simp add: TLV_LENGTH_def)
  moreover have "TLV_SET m p ty (Some d) (word_of_nat ?n) = Some (?s, if d = [] then m2 else m4)"
    using m1 m2 m3 m4 len zero by (simp add: TLV_SET_def Let_def rd_mem_def)
  moreover have "d = [] \<Longrightarrow> m4 = m2" using m3 m4 b
    by (auto simp: wr_mem_def TLV_SPACE_def TLV_ALIGN_eq TLV_LENGTH_def split: if_splits)
  ultimately show ?thesis by auto
qed

section \<open>Lists\<close>

text \<open>Writing one TLV behind the other, and what a reader sees of them with the list functions.\<close>

primrec tlv_build :: "(u16 \<times> u8 list) list \<Rightarrow> mem \<Rightarrow> nat \<Rightarrow> mem option" where
  "tlv_build [] m p = Some m"
| "tlv_build (e # es) m p = do {
     (n, m) \<leftarrow> TLV_SET m p (fst e) (Some (snd e)) (word_of_nat (length (snd e)));
     tlv_build es m (p + n)
   }"

primrec tlv_walk :: "(u16 \<times> u8 list) list \<Rightarrow> mem \<Rightarrow> tlv_list_desc \<Rightarrow> bool" where
  "tlv_walk [] m l \<longleftrightarrow> TLV_LIST_EMPTY l"
| "tlv_walk (e # es) m l \<longleftrightarrow> \<not> TLV_LIST_EMPTY l \<and> TLV_LIST_CHECK m l (fst e) = Some True \<and>
     TLV_GET_LEN m (tlv_ptr l) = Some (TLV_LENGTH (length (snd e))) \<and>
     rd_mem m (TLV_LIST_DATA l) (length (snd e)) = Some (snd e) \<and>
     (case TLV_LIST_STEP m l of Some l' \<Rightarrow> tlv_walk es m l' | None \<Rightarrow> False)"

definition tlv_total :: "(u16 \<times> u8 list) list \<Rightarrow> nat" where
  "tlv_total es = (\<Sum>e \<leftarrow> es. TLV_SPACE (length (snd e)))"

primrec tlv_at :: "(u16 \<times> u8 list) list \<Rightarrow> mem \<Rightarrow> nat \<Rightarrow> bool" where
  "tlv_at [] m p \<longleftrightarrow> True"
| "tlv_at (e # es) m p \<longleftrightarrow> tlv_is m p (fst e) (snd e) \<and> tlv_at es m (p + TLV_SPACE (length (snd e)))"

lemma tlv_build_at:
  assumes "p + tlv_total es \<le> length m" and "\<forall>e \<in> set es. length (snd e) < 65536"
  shows "\<exists>m'. tlv_build es m p = Some m' \<and> tlv_at es m' p \<and> same_outside m m' p (tlv_total es)"
  using assms
proof (induction es arbitrary: m p)
  case Nil
  then show ?case by (simp add: same_outside_def)
next
  case (Cons e es)
  let ?s = "TLV_SPACE (length (snd e))"
  have "p + ?s \<le> length m" "length (snd e) < 65536" using Cons.prems by (simp_all add: tlv_total_def)
  then obtain m1 where m1: "TLV_SET m p (fst e) (Some (snd e)) (word_of_nat (length (snd e))) = Some (?s, m1)"
      "tlv_is m1 p (fst e) (snd e)" "same_outside m m1 p ?s"
    using TLV_SET_spec by blast
  have "p + ?s + tlv_total es \<le> length m1" using Cons.prems m1(3) by (simp add: tlv_total_def same_outside_def)
  then obtain m2 where m2: "tlv_build es m1 (p + ?s) = Some m2" "tlv_at es m2 (p + ?s)"
      "same_outside m1 m2 (p + ?s) (tlv_total es)"
    using Cons.IH [of "p + ?s" m1] Cons.prems by auto
  have "tlv_is m2 p (fst e) (snd e)"
    using tlv_is_outside [OF m1(2) m2(3)] TLV_SPACE_bounds(1) [of "length (snd e)"] by simp
  moreover have "same_outside m m2 p (tlv_total (e # es))"
    using same_outside_trans [OF same_outside_mono [OF m1(3)] same_outside_mono [OF m2(3)]]
    by (simp add: tlv_total_def)
  ultimately show ?case using m1(1) m2(1,2) by simp
qed

lemma tlv_walk_at:
  assumes "tlv_at es m p" and "tlv_total es < 65536"
  shows "tlv_walk es m (TLV_LIST_INIT p (word_of_nat (tlv_total es)))"
  using assms
proof (induction es arbitrary: p)
  case Nil
  then show ?case by (simp add: TLV_LIST_EMPTY_def TLV_LIST_INIT_def tlv_total_def)
next
  case (Cons e es)
  let ?n = "length (snd e)" let ?s = "TLV_SPACE ?n" let ?t = "tlv_total (e # es)"
  note b = TLV_SPACE_bounds [of ?n, unfolded TLV_LENGTH_def]
  have t: "?t = ?s + tlv_total es" by (simp add: tlv_total_def)
  have tlv: "load_be16 m p = Some (word_of_nat (4 + ?n))" "load_be16 m (Suc (Suc p)) = Some (fst e)"
      "rd_mem m (p + 4) ?n = Some (snd e)"
    using Cons.prems(1) by (simp_all add: tlv_is_def TLV_LENGTH_def TLV_DATA_def)
  have small: "unat (word_of_nat (4 + ?n) :: u16) = 4 + ?n" "unat (word_of_nat ?t :: u16) = ?t"
      "unat (word_of_nat ?s :: u16) = ?s" "unat (word_of_nat ?t :: u32) = ?t"
    using Cons.prems(2) t b by (simp_all add: unat_of_nat take_bit_nat_eq_self del: of_nat_add)
  have "unat (word_of_nat ?s :: u32) = ?s"
    using Cons.prems(2) t by (simp add: unat_of_nat take_bit_nat_eq_self)
  then have "(ucast (word_of_nat ?s :: u16) :: u32) = word_of_nat ?s"
    using small(3) Cons.prems(2) t by (simp add: word_unat_eq_iff unsigned_ucast_eq take_bit_nat_eq_self)
  then have step: "TLV_LIST_STEP m (TLV_LIST_INIT p (word_of_nat ?t)) = Some (TLV_LIST_INIT (p + ?s) (word_of_nat (tlv_total es)))"
    using small by (simp add: TLV_LIST_STEP_def TLV_LIST_INIT_def tlv TLV_SPACE_def TLV_LENGTH_def t)
  have "ucast (word_of_nat ?t :: u32) = (word_of_nat ?t :: u16)"
    using small Cons.prems(2) by (simp add: word_unat_eq_iff unsigned_ucast_eq take_bit_nat_eq_self)
  then have chk: "TLV_LIST_CHECK m (TLV_LIST_INIT p (word_of_nat ?t)) (fst e) = Some True"
    using small b t by (simp add: TLV_LIST_CHECK_def TLV_LIST_INIT_def TLV_CHECK_def TLV_OK_def tlv word_le_nat_alt)
  have "tlv_walk es m (TLV_LIST_INIT (p + ?s) (word_of_nat (tlv_total es)))"
    using Cons.prems t by (intro Cons.IH) simp_all
  moreover have "(word_of_nat ?t :: u32) \<noteq> 0" using small(4) b t by (metis add_is_0 not_numeral_le_zero unat_0)
  ultimately show ?case
    using step chk small(1) tlv
    by (simp add: TLV_LIST_EMPTY_def TLV_GET_LEN_def TLV_LIST_DATA_def TLV_LENGTH_def TLV_DATA_def TLV_LIST_INIT_def)
qed

text \<open>
  (C21) TLVs that were written one behind the other with \<open>TLV_SET\<close> are read back by the list functions:
  when together they take less than 65536 bytes and fit the buffer, all writes succeed and touch
  nothing else, and a reader that starts at the first one finds each type, length and value in
  order and the list empty at the end.
\<close>

theorem tlv_list_roundtrip:
  assumes "p + tlv_total es \<le> length m" and "tlv_total es < 65536"
  shows "\<exists>m'. tlv_build es m p = Some m' \<and> tlv_walk es m' (TLV_LIST_INIT p (word_of_nat (tlv_total es))) \<and>
    length m' = length m \<and>
    (\<forall>q k. q + k \<le> p \<or> p + tlv_total es \<le> q \<longrightarrow> rd_mem m' q k = rd_mem m q k)"
proof -
  have "length (snd e) < 65536" if "e \<in> set es" for e
    using member_le_sum_list [of "TLV_SPACE (length (snd e))" "map (\<lambda>e. TLV_SPACE (length (snd e))) es"] that
      assms(2) TLV_SPACE_bounds(1) [of "length (snd e)"]
    by (auto simp: tlv_total_def TLV_LENGTH_def)
  then show ?thesis
    using tlv_build_at [OF assms(1)] tlv_walk_at [OF _ assms(2)] unfolding same_outside_def by blast
qed

theorem tlv_list_roundtrip_witness:
  "\<exists>m'. tlv_build [(7, [1, 2, 3]), (9, [])] (replicate 20 0xff) 4 = Some m' \<and>
     tlv_walk [(7, [1, 2, 3]), (9, [])] m' (TLV_LIST_INIT 4 12) \<and> length m' = 20"
proof -
  have "tlv_total [(7, [1, 2, 3]), (9, [])] = 12"
    by (simp add: tlv_total_def TLV_SPACE_def TLV_LENGTH_def TLV_ALIGN_eq)
  then show ?thesis
    using tlv_list_roundtrip [of 4 "[(7, [1, 2, 3]), (9, [])]" "replicate 20 0xff"] by auto
qed

lemma TLV_ALIGN_wrap:
  assumes "n < 65536"
  shows "65536 dvd TLV_ALIGN n \<longleftrightarrow> n = 0 \<or> 65532 < n"
proof -
  have bounds: "n \<le> TLV_ALIGN n" "TLV_ALIGN n < n + 4" "4 dvd TLV_ALIGN n"
    unfolding TLV_ALIGN_eq by presburger+
  have "TLV_ALIGN n \<le> 65536"
  proof -
    obtain k where "TLV_ALIGN n = 4 * k" using bounds(3) by (rule dvdE)
    then show ?thesis using bounds(2) assms by simp
  qed
  then have "65536 dvd TLV_ALIGN n \<longleftrightarrow> TLV_ALIGN n = 0 \<or> TLV_ALIGN n = 65536"
    by (auto dest: dvd_imp_le)
  also have "\<dots> \<longleftrightarrow> n = 0 \<or> 65532 < n"
  proof -
    have "TLV_ALIGN n = 65536" if "65532 < n"
    proof -
      obtain k where k: "TLV_ALIGN n = 4 * k" using bounds(3) by (rule dvdE)
      then show ?thesis using bounds(1) that \<open>TLV_ALIGN n \<le> 65536\<close> by simp
    qed
    then show ?thesis using bounds by (auto simp: TLV_ALIGN_eq)
  qed
  finally show ?thesis .
qed

text \<open>
  \<open>TLV_CHECK\<close> accepts a TLV that \<open>TLV_LIST_STEP\<close> does not get past: when the length field is 0, or
  so large that its alignment does not fit 16 bits, the list stays as it is, so that a loop over
  the list never ends. For every other length the step goes forward.
\<close>

theorem tlv_step_stuck:
  assumes "load_be16 m (tlv_ptr l) = Some len"
  shows "TLV_LIST_STEP m l = Some l \<longleftrightarrow> len = 0 \<or> 65532 < len"
proof -
  define s where "s = (word_of_nat (TLV_ALIGN (unat len)) :: u16)"
  have len: "unat len < 65536" using unsigned_less [of len] by simp
  have "s = 0 \<longleftrightarrow> 65536 dvd TLV_ALIGN (unat len)"
    unfolding s_def by (simp add: word_of_nat_eq_0_iff)
  also have "\<dots> \<longleftrightarrow> unat len = 0 \<or> 65532 < unat len"
    using len by (rule TLV_ALIGN_wrap)
  also have "\<dots> \<longleftrightarrow> len = 0 \<or> 65532 < len"
    by (simp add: word_less_nat_alt unat_eq_zero)
  finally have s: "s = 0 \<longleftrightarrow> len = 0 \<or> 65532 < len" .
  have "TLV_LIST_STEP m l = Some l \<longleftrightarrow> s = 0"
    using assms by (cases l) (auto simp: TLV_LIST_STEP_def s_def [symmetric] Let_def unat_eq_zero)
  then show ?thesis using s by simp
qed

theorem tlv_step_stuck_witness:
  "TLV_LIST_CHECK [0, 0, 0, 5] (TLV_LIST_INIT 0 4) 5 = Some True \<and>
   TLV_LIST_STEP [0, 0, 0, 5] (TLV_LIST_INIT 0 4) = Some (TLV_LIST_INIT 0 4)"
proof -
  have "load_be16 [0, 0, 0, 5] 0 = Some 0" "TLV_LIST_CHECK [0, 0, 0, 5] (TLV_LIST_INIT 0 4) 5 = Some True"
    by code_simp+
  then show ?thesis
    using tlv_step_stuck [of "[0, 0, 0, 5]" "TLV_LIST_INIT 0 4" 0] by (simp add: TLV_LIST_INIT_def)
qed

end
