(* ===== verification/Virtio.thy ===== *)
theory Virtio
  imports Prelude
begin

unbundle bit_operations_syntax

text \<open>
  The inline functions of \<open>include/linux/virtio_ring.h\<close>: when a change of the ring index must be
  announced, and where the parts of a ring are in memory. Addresses and sizes are 64-bit words;
  indices are 16-bit words that wrap.
\<close>

section \<open>The functions\<close>

text \<open>\<open>unsigned int\<close> and pointers as on x86-64 Linux.\<close>

record vring =
  vr_num :: u32
  vr_desc :: u64
  vr_avail :: u64
  vr_used :: u64

abbreviation (input) sizeof_vring_desc :: u64 where "sizeof_vring_desc \<equiv> 16"
abbreviation (input) sizeof_vring_used_elem :: u64 where "sizeof_vring_used_elem \<equiv> 8"
abbreviation (input) sizeof_virtio16 :: u64 where "sizeof_virtio16 \<equiv> 2"

text \<open>The address of \<open>ring[i]\<close> of a \<open>struct vring_avail\<close>, behind \<open>flags\<close> and \<open>idx\<close>.\<close>

definition avail_ring :: "u64 \<Rightarrow> u32 \<Rightarrow> u64" where
  "avail_ring avail i = avail + 4 + sizeof_virtio16 * ucast i"

definition vring_init :: "u32 \<Rightarrow> u64 \<Rightarrow> u64 \<Rightarrow> vring" where
  "vring_init num p align =
     (let avail = p + ucast num * sizeof_vring_desc
      in \<lparr>vr_num = num, vr_desc = p, vr_avail = avail,
          vr_used = (avail_ring avail num + sizeof_virtio16 + align - 1) AND NOT (align - 1)\<rparr>)"

definition vring_size :: "u32 \<Rightarrow> u64 \<Rightarrow> u32" where
  "vring_size num align =
     ucast (((sizeof_vring_desc * ucast num + sizeof_virtio16 * ucast (3 + num) + align - 1) AND NOT (align - 1))
       + sizeof_virtio16 * 3 + sizeof_vring_used_elem * ucast num)"

definition vring_need_event :: "u16 \<Rightarrow> u16 \<Rightarrow> u16 \<Rightarrow> bool" where
  "vring_need_event event_idx new_idx old \<longleftrightarrow>
     (word_of_int (uint new_idx - uint event_idx - 1) :: u16) < word_of_int (uint new_idx - uint old)"

section \<open>Announcing an index\<close>

lemma mod_window: "a < k \<Longrightarrow> 0 \<le> a \<Longrightarrow> k < 65536 \<Longrightarrow> (k - a - 1) mod 65536 = k - a - 1"
  "k \<le> a \<Longrightarrow> a < 65536 \<Longrightarrow> 0 \<le> k \<Longrightarrow> (k - a - 1) mod 65536 = k - a + 65535" for a k :: int
proof -
  assume "a < k" "0 \<le> a" "k < 65536"
  then show "(k - a - 1) mod 65536 = k - a - 1" by simp
next
  assume "k \<le> a" "a < 65536" "0 \<le> k"
  then have "(k - a + 65535) mod 65536 = k - a + 65535" by simp
  moreover have "(k - a - 1) mod 65536 = (k - a - 1 + 65536) mod 65536" by (simp only: mod_add_self2)
  moreover have "k - a - 1 + 65536 = k - a + 65535" by simp
  ultimately show "(k - a - 1) mod 65536 = k - a + 65535" by simp
qed

text \<open>
  With wrapping indices: after the index went from \<open>old\<close> forward by \<open>k\<close>, an event is announced
  exactly when the index the other side waits for is among the \<open>k\<close> that were passed.
\<close>

theorem vring_event_window:
  assumes "k < 65536"
  shows "vring_need_event event (old + word_of_nat k) old \<longleftrightarrow> (\<exists>i < k. event = old + word_of_nat i)"
proof -
  define d where "d = event - old"
  have k: "unat (word_of_nat k :: u16) = k" using assms by (simp add: unat_of_nat take_bit_nat_eq_self)
  have need: "vring_need_event event (old + word_of_nat k) old \<longleftrightarrow> word_of_nat k - d - 1 < (word_of_nat k :: u16)"
    by (simp add: vring_need_event_def d_def algebra_simps word_of_int_uint)
  have d: "0 \<le> uint d" "uint d < 65536" using uint_lt2p [of d] by simp_all
  have "(int k - uint d - 1) mod 65536 < int k \<longleftrightarrow> uint d < int k"
  proof (cases "uint d < int k")
    case True
    then show ?thesis using mod_window(1) [OF True d(1)] assms d(1) by linarith
  next
    case False
    then show ?thesis using mod_window(2) [of "int k" "uint d"] d(2) by simp
  qed
  moreover have "uint (word_of_nat k - d - 1) = (int k - uint d - 1) mod 65536"
    using assms by (simp add: uint_word_ariths unsigned_of_nat take_bit_eq_mod mod_simps)
  moreover have "uint (word_of_nat k :: u16) = int k"
    using assms by (simp add: unsigned_of_nat take_bit_nat_eq_self)
  ultimately have "(word_of_nat k :: u16) - d - 1 < word_of_nat k \<longleftrightarrow> uint d < int k"
    by (simp add: word_less_def)
  also have "\<dots> \<longleftrightarrow> unat d < k" by (simp add: nat_less_iff flip: nat_uint_eq)
  also have "unat d < k \<longleftrightarrow> (\<exists>i < k. event = old + word_of_nat i)"
  proof
    assume "unat d < k"
    moreover have "event = old + word_of_nat (unat d)" by (simp add: d_def)
    ultimately show "\<exists>i < k. event = old + word_of_nat i" by blast
  next
    assume "\<exists>i < k. event = old + word_of_nat i"
    then obtain i where "i < k" "d = word_of_nat i" by (auto simp: d_def)
    then show "unat d < k" using assms by (simp add: unat_of_nat take_bit_nat_eq_self)
  qed
  finally show ?thesis using need by simp
qed

theorem vring_event_window_witness:
  "vring_need_event 1 3 0xfffe"
proof -
  have "\<exists>i < 5. (1 :: u16) = 0xfffe + word_of_nat i" by (rule exI [of _ 3]) simp
  then have "vring_need_event 1 (0xfffe + word_of_nat 5) 0xfffe"
    by (intro vring_event_window [THEN iffD2]) simp_all
  moreover have "0xfffe + word_of_nat 5 = (3 :: u16)" by simp
  ultimately show ?thesis by metis
qed

section \<open>The layout\<close>

lemma unat_eq_of_nat_imp: "unat x = n \<Longrightarrow> x = word_of_nat n"
  by auto

lemma and_not_split: "x AND NOT m = x - (x AND m)" for x m :: "'a::len word"
proof -
  have "(x AND m) + (x AND NOT m) = (x AND m) OR (x AND NOT m)"
    by (rule disjunctive_add) (simp add: bit_simps)
  also have "\<dots> = x" by (rule bit_word_eqI) (auto simp: bit_simps)
  finally show ?thesis by (simp add: eq_diff_eq ac_simps)
qed

lemma unat_align:
  fixes x :: u64
  assumes "k < 64" and "unat x + 2 ^ k - 1 < 2 ^ 64"
  shows "unat ((x + 2 ^ k - 1) AND NOT (2 ^ k - 1)) = (unat x + 2 ^ k - 1) div 2 ^ k * 2 ^ k"
proof -
  let ?y = "x + 2 ^ k - 1"
  have "1 \<le> unat x + 2 ^ k" by (simp add: Suc_le_eq)
  then have "?y = word_of_nat (unat x + 2 ^ k - 1)" by (simp add: of_nat_diff del: One_nat_def)
  then have y: "unat ?y = unat x + 2 ^ k - 1"
    using assms(2) by (simp add: unat_of_nat take_bit_nat_eq_self)
  have "unat (?y - take_bit k ?y) = unat ?y - unat (take_bit k ?y)"
    by (rule unat_sub) (simp add: word_le_nat_alt unsigned_take_bit_eq)
  moreover have "?y AND NOT (2 ^ k - 1) = ?y - take_bit k ?y"
    unfolding and_not_split take_bit_eq_mask mask_eq_exp_minus_1 ..
  ultimately have "unat (?y AND NOT (2 ^ k - 1)) = unat ?y - unat ?y mod 2 ^ k"
    by (simp add: unsigned_take_bit_eq take_bit_nat_def)
  then show ?thesis unfolding y by (simp add: minus_mod_eq_div_mult)
qed

text \<open>The next multiple of \<open>A\<close>.\<close>

definition round_up :: "nat \<Rightarrow> nat \<Rightarrow> nat" where
  "round_up A y = (y + A - 1) div A * A"

lemma round_up_bounds:
  assumes "0 < A"
  shows "y \<le> round_up A y" "round_up A y < y + A" "A dvd round_up A y"
proof -
  have "y + A - 1 = round_up A y + (y + A - 1) mod A" by (simp add: round_up_def)
  moreover have "(y + A - 1) mod A < A" using assms by simp
  ultimately show "y \<le> round_up A y" "round_up A y < y + A" using assms by linarith+
qed (simp add: round_up_def)

lemma round_up_shift:
  assumes "0 < A" and "A dvd x"
  shows "round_up A (x + y) = x + round_up A y"
proof -
  from assms(2) obtain q where q: "x = q * A" by (metis dvdE mult.commute)
  have "q * A + y + A - 1 = (y + A - 1) + q * A" using assms(1) by linarith
  then have "(q * A + y + A - 1) div A = q + (y + A - 1) div A" using assms(1) by (simp only: div_mult_self1)
  then show ?thesis unfolding q round_up_def by (simp only: distrib_right)
qed

text \<open>A multiple of \<open>A\<close> below a multiple of \<open>A\<close> leaves room for one more.\<close>

lemma dvd_room: "A dvd x \<Longrightarrow> A dvd z \<Longrightarrow> x < z \<Longrightarrow> x + A \<le> z" for A x z :: nat
proof -
  assume "A dvd x" "A dvd z" and less: "x < z"
  then obtain v w where v: "x = A * v" "z = A * w" by (auto elim!: dvdE)
  then have "A * (v + 1) \<le> A * w" using less by (intro mult_le_mono2) auto
  then show ?thesis using v by simp
qed

lemma vring_num:
  fixes num :: u32
  assumes "num \<le> 32768"
  shows "unat num \<le> 32768" and "(ucast num :: u64) = word_of_nat (unat num)"
    and "(ucast (3 + num) :: u64) = word_of_nat (3 + unat num)"
proof -
  show n: "unat num \<le> 32768" using assms by (simp add: word_le_nat_alt)
  then show "(ucast num :: u64) = word_of_nat (unat num)" "(ucast (3 + num) :: u64) = word_of_nat (3 + unat num)"
    using unat_add_small [of 3 num]
    by (simp_all add: word_unat_eq_iff unsigned_ucast_eq unat_of_nat take_bit_nat_eq_self del: of_nat_add)
qed

lemma exp_bounds: "k \<le> 16 \<Longrightarrow> 0 < (2 :: nat) ^ k \<and> (2 :: nat) ^ k \<le> 65536"
  using power_increasing [of k 16 "2::nat"] by simp

lemma unat_vring_size:
  assumes "num \<le> 32768" and "k \<le> 16"
  shows "unat (vring_size num (2 ^ k)) = round_up (2 ^ k) (18 * unat num + 6) + 6 + 8 * unat num"
proof -
  define n y where "n = unat num" and "y = 18 * n + 6"
  define u where "u = round_up (2 ^ k) y"
  note num = vring_num [OF assms(1), folded n_def]
  note A = exp_bounds [OF assms(2)]
  have y: "y \<le> 600000" "unat (word_of_nat y :: u64) = y"
    using num(1) by (simp_all add: y_def unat_of_nat take_bit_nat_eq_self del: of_nat_add of_nat_mult)
  have u: "u < y + 2 ^ k" unfolding u_def by (rule round_up_bounds) simp
  have "16 * ucast num + 2 * ucast (3 + num) = (word_of_nat y :: u64)"
    unfolding num y_def by simp
  then have "unat ((16 * ucast num + 2 * ucast (3 + num) + 2 ^ k - 1) AND NOT (2 ^ k - 1) :: u64) = u"
    using unat_align [of k "word_of_nat y"] assms(2) y A by (simp add: u_def round_up_def)
  then have "(16 * ucast num + 2 * ucast (3 + num) + 2 ^ k - 1) AND NOT (2 ^ k - 1) = (word_of_nat u :: u64)"
    by (metis unat_eq_of_nat_imp)
  then have "vring_size num (2 ^ k) = ucast (word_of_nat (u + 6 + 8 * n) :: u64)"
    unfolding vring_size_def num(2) by (simp add: num(2))
  then have "unat (vring_size num (2 ^ k)) = u + 6 + 8 * n"
    using u y A num(1) by (simp add: unsigned_ucast_eq unat_of_nat take_bit_nat_eq_self del: of_nat_add of_nat_mult)
  then show ?thesis by (simp add: u_def y_def n_def)
qed

text \<open>
  (C27) A ring of up to 32768 entries at an address aligned to a power of two of at most 64 KiB: the
  descriptors, the available ring with its event index and the used ring follow each other
  without overlap, the used ring is aligned, and it ends with its event index exactly
  \<open>vring_size\<close> bytes behind the start.
\<close>

theorem vring_layout:
  assumes "num \<le> 32768" and "k \<le> 16" and "2 ^ k dvd unat p" and "unat p + unat (vring_size num (2 ^ k)) < 2 ^ 64"
  shows "let r = vring_init num p (2 ^ k) in
    unat (vr_desc r) = unat p \<and>
    unat (vr_avail r) = unat p + 16 * unat num \<and>
    unat (vr_avail r) + 6 + 2 * unat num \<le> unat (vr_used r) \<and> 2 ^ k dvd unat (vr_used r) \<and>
    unat (vr_used r) + 6 + 8 * unat num = unat p + unat (vring_size num (2 ^ k))"
proof -
  define n y where "n = unat num" and "y = 18 * n + 6"
  define u where "u = round_up (2 ^ k) y"
  note num = vring_num(2) [OF assms(1), folded n_def]
  have size: "unat (vring_size num (2 ^ k)) = u + 6 + 8 * n"
    using unat_vring_size [OF assms(1,2)] by (simp add: u_def y_def n_def)
  have u: "y \<le> u" "2 ^ k dvd u" unfolding u_def by (simp_all add: round_up_bounds)
  have add: "unat (p + word_of_nat i) = unat p + i" if "i \<le> u" for i
  proof -
    have "p + word_of_nat i = word_of_nat (unat p + i)" by simp
    then show ?thesis using that assms(4) size by (simp only: unat_of_nat) (simp add: take_bit_nat_eq_self)
  qed
  have "2 ^ k dvd (2 :: nat) ^ 64" using assms(2) by (intro le_imp_power_dvd) simp
  then have "unat p + u + 2 ^ k \<le> 2 ^ 64" using assms(3,4) u(2) size by (intro dvd_room) simp_all
  then have room: "unat p + y + 2 ^ k - 1 < 2 ^ 64" using u(1) by simp
  have ring: "avail_ring (p + word_of_nat n * 16) num + 2 = p + word_of_nat y"
    by (simp add: avail_ring_def num y_def)
  have "vr_used (vring_init num p (2 ^ k)) = (p + word_of_nat y + 2 ^ k - 1) AND NOT (2 ^ k - 1)"
    unfolding vring_init_def Let_def num ring vring.select_convs ..
  then have "unat (vr_used (vring_init num p (2 ^ k))) = round_up (2 ^ k) (unat p + y)"
    using unat_align [of k "p + word_of_nat y"] add [OF u(1)] room assms(2) by (simp add: round_up_def)
  then have used: "unat (vr_used (vring_init num p (2 ^ k))) = unat p + u"
    using round_up_shift [OF _ assms(3), of y] by (simp add: u_def)
  have "vr_avail (vring_init num p (2 ^ k)) = p + word_of_nat (16 * n)"
    by (simp add: vring_init_def num Let_def)
  then show ?thesis
    using used u add [of "16 * n"] size assms(3) by (simp add: vring_init_def Let_def y_def n_def [symmetric])
qed

theorem vring_layout_witness:
  "let r = vring_init 256 0x10000 0x1000 in vr_used r = 0x12000 \<and> unat (vr_used r) + 6 + 8 * 256 = 0x10000 + unat (vring_size 256 0x1000)"
proof -
  have "vr_used (vring_init 256 0x10000 0x1000) = 0x12000"
    by (simp add: vring_init_def avail_ring_def)
  moreover have "unat (vring_size 256 0x1000) < 2 ^ 32"
    using unsigned_less [of "vring_size 256 0x1000"] by simp
  ultimately show ?thesis
    using vring_layout [of 256 12 "0x10000"] by (simp add: Let_def)
qed

end
