(* ===== verification/Queue_Macros.thy ===== *)
theory Queue_Macros
  imports Prelude "HOL-Library.Monad_Syntax"
begin

text \<open>
  The list, queue and tail queue macros of \<open>include/sys/queue.h\<close>. A head and the entry that an
  element keeps in itself are one or two words of memory: the address of an element (the first of
  the list, or the next one) and, where the list has it, the address of such a word (of the last
  one, or of the one that points here). Both kinds are at a location \<open>qloc\<close>; since they have the same
  layout the reverse macros may read an entry as if it were a head. A null pointer is \<open>None\<close>, and
  following one ends a macro with \<open>None\<close>. Of memory that no macro has written nothing is known.
\<close>

section \<open>Memory\<close>

datatype qloc = Head nat | Entry nat

record qmem =
  word_at :: "qloc \<Rightarrow> nat option"
  addr_at :: "qloc \<Rightarrow> qloc"

definition set_word :: "qloc \<Rightarrow> nat option \<Rightarrow> qmem \<Rightarrow> qmem" where
  "set_word l v m = m\<lparr>word_at := (word_at m)(l := v)\<rparr>"

definition set_addr :: "qloc \<Rightarrow> qloc \<Rightarrow> qmem \<Rightarrow> qmem" where
  "set_addr l v m = m\<lparr>addr_at := (addr_at m)(l := v)\<rparr>"

lemma qmem_simps [simp]:
  "word_at (set_word l v m) k = (if k = l then v else word_at m k)"
  "addr_at (set_word l v m) = addr_at m"
  "addr_at (set_addr l w m) k = (if k = l then w else addr_at m k)"
  "word_at (set_addr l w m) = word_at m"
  by (simp_all add: set_word_def set_addr_def)

section \<open>Lists\<close>

text \<open>\<open>lh_first\<close> and \<open>le_next\<close> are first words, \<open>le_prev\<close> is a second word; a list head has one word.\<close>

definition LIST_INIT :: "nat \<Rightarrow> qmem \<Rightarrow> qmem option" where
  "LIST_INIT head m = Some (set_word (Head head) None m)"

definition LIST_INSERT_AFTER :: "nat \<Rightarrow> nat \<Rightarrow> qmem \<Rightarrow> qmem option" where
  "LIST_INSERT_AFTER listelm elm m = do {
     let m = set_word (Entry elm) (word_at m (Entry listelm)) m;
     m \<leftarrow> (if word_at m (Entry elm) \<noteq> None then do {
             n \<leftarrow> word_at m (Entry listelm);
             Some (set_addr (Entry n) (Entry elm) m)
           } else Some m);
     let m = set_word (Entry listelm) (Some elm) m;
     Some (set_addr (Entry elm) (Entry listelm) m)
   }"

definition LIST_INSERT_BEFORE :: "nat \<Rightarrow> nat \<Rightarrow> qmem \<Rightarrow> qmem option" where
  "LIST_INSERT_BEFORE listelm elm m = do {
     let m = set_addr (Entry elm) (addr_at m (Entry listelm)) m;
     let m = set_word (Entry elm) (Some listelm) m;
     let m = set_word (addr_at m (Entry listelm)) (Some elm) m;
     Some (set_addr (Entry listelm) (Entry elm) m)
   }"

definition LIST_INSERT_HEAD :: "nat \<Rightarrow> nat \<Rightarrow> qmem \<Rightarrow> qmem option" where
  "LIST_INSERT_HEAD head elm m = do {
     let m = set_word (Entry elm) (word_at m (Head head)) m;
     m \<leftarrow> (if word_at m (Entry elm) \<noteq> None then do {
             f \<leftarrow> word_at m (Head head);
             Some (set_addr (Entry f) (Entry elm) m)
           } else Some m);
     let m = set_word (Head head) (Some elm) m;
     Some (set_addr (Entry elm) (Head head) m)
   }"

definition LIST_REMOVE :: "nat \<Rightarrow> qmem \<Rightarrow> qmem option" where
  "LIST_REMOVE elm m = do {
     m \<leftarrow> (if word_at m (Entry elm) \<noteq> None then do {
             n \<leftarrow> word_at m (Entry elm);
             Some (set_addr (Entry n) (addr_at m (Entry elm)) m)
           } else Some m);
     Some (set_word (addr_at m (Entry elm)) (word_at m (Entry elm)) m)
   }"

text \<open>
  A traversal, as the elements that \<open>var\<close> goes through from a pointer on. On a cycle it does not
  end, which is \<open>None\<close>.
\<close>

partial_function (option) foreach :: "qmem \<Rightarrow> nat option \<Rightarrow> nat list option" where
  "foreach m var =
     (case var of
        None \<Rightarrow> Some []
      | Some e \<Rightarrow> do { es \<leftarrow> foreach m (word_at m (Entry e)); Some (e # es) })"

definition LIST_FOREACH :: "nat \<Rightarrow> qmem \<Rightarrow> nat list option" where
  "LIST_FOREACH head m = foreach m (word_at m (Head head))"

definition LIST_EMPTY :: "nat \<Rightarrow> qmem \<Rightarrow> bool" where
  "LIST_EMPTY head m \<longleftrightarrow> word_at m (Head head) = None"

definition LIST_FIRST :: "nat \<Rightarrow> qmem \<Rightarrow> nat option" where
  "LIST_FIRST head m = word_at m (Head head)"

definition LIST_NEXT :: "nat \<Rightarrow> qmem \<Rightarrow> nat option" where
  "LIST_NEXT elm m = word_at m (Entry elm)"

section \<open>Singly linked lists\<close>

definition SLIST_INIT :: "nat \<Rightarrow> qmem \<Rightarrow> qmem option" where
  "SLIST_INIT head m = Some (set_word (Head head) None m)"

definition SLIST_INSERT_AFTER :: "nat \<Rightarrow> nat \<Rightarrow> qmem \<Rightarrow> qmem option" where
  "SLIST_INSERT_AFTER slistelm elm m = do {
     let m = set_word (Entry elm) (word_at m (Entry slistelm)) m;
     Some (set_word (Entry slistelm) (Some elm) m)
   }"

definition SLIST_INSERT_HEAD :: "nat \<Rightarrow> nat \<Rightarrow> qmem \<Rightarrow> qmem option" where
  "SLIST_INSERT_HEAD head elm m = do {
     let m = set_word (Entry elm) (word_at m (Head head)) m;
     Some (set_word (Head head) (Some elm) m)
   }"

definition SLIST_REMOVE_HEAD :: "nat \<Rightarrow> qmem \<Rightarrow> qmem option" where
  "SLIST_REMOVE_HEAD head m = do {
     f \<leftarrow> word_at m (Head head);
     Some (set_word (Head head) (word_at m (Entry f)) m)
   }"

text \<open>The loop of the removals: \<open>curelm\<close> when its successor is \<open>elm\<close>. Past the end it follows a null pointer.\<close>

partial_function (option) before_elm :: "qmem \<Rightarrow> nat \<Rightarrow> nat option \<Rightarrow> nat option" where
  "before_elm m elm curelm = do {
     c \<leftarrow> curelm;
     if word_at m (Entry c) \<noteq> Some elm then before_elm m elm (word_at m (Entry c)) else Some c
   }"

definition SLIST_REMOVE :: "nat \<Rightarrow> nat \<Rightarrow> qmem \<Rightarrow> qmem option" where
  "SLIST_REMOVE head elm m =
     (if word_at m (Head head) = Some elm then SLIST_REMOVE_HEAD head m
      else do {
        c \<leftarrow> before_elm m elm (word_at m (Head head));
        n \<leftarrow> word_at m (Entry c);
        Some (set_word (Entry c) (word_at m (Entry n)) m)
      })"

definition SLIST_FOREACH :: "nat \<Rightarrow> qmem \<Rightarrow> nat list option" where
  "SLIST_FOREACH head m = foreach m (word_at m (Head head))"

definition SLIST_EMPTY :: "nat \<Rightarrow> qmem \<Rightarrow> bool" where
  "SLIST_EMPTY head m \<longleftrightarrow> word_at m (Head head) = None"

definition SLIST_FIRST :: "nat \<Rightarrow> qmem \<Rightarrow> nat option" where
  "SLIST_FIRST head m = word_at m (Head head)"

definition SLIST_NEXT :: "nat \<Rightarrow> qmem \<Rightarrow> nat option" where
  "SLIST_NEXT elm m = word_at m (Entry elm)"

section \<open>Singly linked tail queues\<close>

text \<open>\<open>stqh_last\<close> is the second word of the head.\<close>

definition STAILQ_INIT :: "nat \<Rightarrow> qmem \<Rightarrow> qmem option" where
  "STAILQ_INIT head m = do {
     let m = set_word (Head head) None m;
     Some (set_addr (Head head) (Head head) m)
   }"

definition STAILQ_INSERT_HEAD :: "nat \<Rightarrow> nat \<Rightarrow> qmem \<Rightarrow> qmem option" where
  "STAILQ_INSERT_HEAD head elm m = do {
     let m = set_word (Entry elm) (word_at m (Head head)) m;
     let m = (if word_at m (Entry elm) = None then set_addr (Head head) (Entry elm) m else m);
     Some (set_word (Head head) (Some elm) m)
   }"

definition STAILQ_INSERT_TAIL :: "nat \<Rightarrow> nat \<Rightarrow> qmem \<Rightarrow> qmem option" where
  "STAILQ_INSERT_TAIL head elm m = do {
     let m = set_word (Entry elm) None m;
     let m = set_word (addr_at m (Head head)) (Some elm) m;
     Some (set_addr (Head head) (Entry elm) m)
   }"

definition STAILQ_INSERT_AFTER :: "nat \<Rightarrow> nat \<Rightarrow> nat \<Rightarrow> qmem \<Rightarrow> qmem option" where
  "STAILQ_INSERT_AFTER head listelm elm m = do {
     let m = set_word (Entry elm) (word_at m (Entry listelm)) m;
     let m = (if word_at m (Entry elm) = None then set_addr (Head head) (Entry elm) m else m);
     Some (set_word (Entry listelm) (Some elm) m)
   }"

definition STAILQ_REMOVE_HEAD :: "nat \<Rightarrow> qmem \<Rightarrow> qmem option" where
  "STAILQ_REMOVE_HEAD head m = do {
     f \<leftarrow> word_at m (Head head);
     let m = set_word (Head head) (word_at m (Entry f)) m;
     Some (if word_at m (Head head) = None then set_addr (Head head) (Head head) m else m)
   }"

definition STAILQ_REMOVE :: "nat \<Rightarrow> nat \<Rightarrow> qmem \<Rightarrow> qmem option" where
  "STAILQ_REMOVE head elm m =
     (if word_at m (Head head) = Some elm then STAILQ_REMOVE_HEAD head m
      else do {
        c \<leftarrow> before_elm m elm (word_at m (Head head));
        n \<leftarrow> word_at m (Entry c);
        let m = set_word (Entry c) (word_at m (Entry n)) m;
        Some (if word_at m (Entry c) = None then set_addr (Head head) (Entry c) m else m)
      })"

definition STAILQ_FOREACH :: "nat \<Rightarrow> qmem \<Rightarrow> nat list option" where
  "STAILQ_FOREACH head m = foreach m (word_at m (Head head))"

definition STAILQ_EMPTY :: "nat \<Rightarrow> qmem \<Rightarrow> bool" where
  "STAILQ_EMPTY head m \<longleftrightarrow> word_at m (Head head) = None"

definition STAILQ_CONCAT :: "nat \<Rightarrow> nat \<Rightarrow> qmem \<Rightarrow> qmem option" where
  "STAILQ_CONCAT head1 head2 m =
     (if \<not> STAILQ_EMPTY head2 m then do {
        let m = set_word (addr_at m (Head head1)) (word_at m (Head head2)) m;
        let m = set_addr (Head head1) (addr_at m (Head head2)) m;
        STAILQ_INIT head2 m
      } else Some m)"

definition STAILQ_FIRST :: "nat \<Rightarrow> qmem \<Rightarrow> nat option" where
  "STAILQ_FIRST head m = word_at m (Head head)"

definition STAILQ_NEXT :: "nat \<Rightarrow> qmem \<Rightarrow> nat option" where
  "STAILQ_NEXT elm m = word_at m (Entry elm)"

section \<open>Simple queues\<close>

definition SIMPLEQ_INIT :: "nat \<Rightarrow> qmem \<Rightarrow> qmem option" where
  "SIMPLEQ_INIT head m = do {
     let m = set_word (Head head) None m;
     Some (set_addr (Head head) (Head head) m)
   }"

definition SIMPLEQ_INSERT_HEAD :: "nat \<Rightarrow> nat \<Rightarrow> qmem \<Rightarrow> qmem option" where
  "SIMPLEQ_INSERT_HEAD head elm m = do {
     let m = set_word (Entry elm) (word_at m (Head head)) m;
     let m = (if word_at m (Entry elm) = None then set_addr (Head head) (Entry elm) m else m);
     Some (set_word (Head head) (Some elm) m)
   }"

definition SIMPLEQ_INSERT_TAIL :: "nat \<Rightarrow> nat \<Rightarrow> qmem \<Rightarrow> qmem option" where
  "SIMPLEQ_INSERT_TAIL head elm m = do {
     let m = set_word (Entry elm) None m;
     let m = set_word (addr_at m (Head head)) (Some elm) m;
     Some (set_addr (Head head) (Entry elm) m)
   }"

definition SIMPLEQ_INSERT_AFTER :: "nat \<Rightarrow> nat \<Rightarrow> nat \<Rightarrow> qmem \<Rightarrow> qmem option" where
  "SIMPLEQ_INSERT_AFTER head listelm elm m = do {
     let m = set_word (Entry elm) (word_at m (Entry listelm)) m;
     let m = (if word_at m (Entry elm) = None then set_addr (Head head) (Entry elm) m else m);
     Some (set_word (Entry listelm) (Some elm) m)
   }"

definition SIMPLEQ_REMOVE_HEAD :: "nat \<Rightarrow> qmem \<Rightarrow> qmem option" where
  "SIMPLEQ_REMOVE_HEAD head m = do {
     f \<leftarrow> word_at m (Head head);
     let m = set_word (Head head) (word_at m (Entry f)) m;
     Some (if word_at m (Head head) = None then set_addr (Head head) (Head head) m else m)
   }"

definition SIMPLEQ_REMOVE :: "nat \<Rightarrow> nat \<Rightarrow> qmem \<Rightarrow> qmem option" where
  "SIMPLEQ_REMOVE head elm m =
     (if word_at m (Head head) = Some elm then SIMPLEQ_REMOVE_HEAD head m
      else do {
        c \<leftarrow> before_elm m elm (word_at m (Head head));
        n \<leftarrow> word_at m (Entry c);
        let m = set_word (Entry c) (word_at m (Entry n)) m;
        Some (if word_at m (Entry c) = None then set_addr (Head head) (Entry c) m else m)
      })"

definition SIMPLEQ_FOREACH :: "nat \<Rightarrow> qmem \<Rightarrow> nat list option" where
  "SIMPLEQ_FOREACH head m = foreach m (word_at m (Head head))"

definition SIMPLEQ_EMPTY :: "nat \<Rightarrow> qmem \<Rightarrow> bool" where
  "SIMPLEQ_EMPTY head m \<longleftrightarrow> word_at m (Head head) = None"

definition SIMPLEQ_FIRST :: "nat \<Rightarrow> qmem \<Rightarrow> nat option" where
  "SIMPLEQ_FIRST head m = word_at m (Head head)"

definition SIMPLEQ_NEXT :: "nat \<Rightarrow> qmem \<Rightarrow> nat option" where
  "SIMPLEQ_NEXT elm m = word_at m (Entry elm)"

section \<open>Tail queues\<close>

text \<open>\<open>tqh_last\<close> and \<open>tqe_prev\<close> are the second words of heads and entries.\<close>

definition TAILQ_INIT :: "nat \<Rightarrow> qmem \<Rightarrow> qmem option" where
  "TAILQ_INIT head m = do {
     let m = set_word (Head head) None m;
     Some (set_addr (Head head) (Head head) m)
   }"

definition TAILQ_INSERT_HEAD :: "nat \<Rightarrow> nat \<Rightarrow> qmem \<Rightarrow> qmem option" where
  "TAILQ_INSERT_HEAD head elm m = do {
     let m = set_word (Entry elm) (word_at m (Head head)) m;
     m \<leftarrow> (if word_at m (Entry elm) \<noteq> None then do {
             f \<leftarrow> word_at m (Head head);
             Some (set_addr (Entry f) (Entry elm) m)
           } else Some (set_addr (Head head) (Entry elm) m));
     let m = set_word (Head head) (Some elm) m;
     Some (set_addr (Entry elm) (Head head) m)
   }"

definition TAILQ_INSERT_TAIL :: "nat \<Rightarrow> nat \<Rightarrow> qmem \<Rightarrow> qmem option" where
  "TAILQ_INSERT_TAIL head elm m = do {
     let m = set_word (Entry elm) None m;
     let m = set_addr (Entry elm) (addr_at m (Head head)) m;
     let m = set_word (addr_at m (Head head)) (Some elm) m;
     Some (set_addr (Head head) (Entry elm) m)
   }"

definition TAILQ_INSERT_AFTER :: "nat \<Rightarrow> nat \<Rightarrow> nat \<Rightarrow> qmem \<Rightarrow> qmem option" where
  "TAILQ_INSERT_AFTER head listelm elm m = do {
     let m = set_word (Entry elm) (word_at m (Entry listelm)) m;
     m \<leftarrow> (if word_at m (Entry elm) \<noteq> None then do {
             n \<leftarrow> word_at m (Entry elm);
             Some (set_addr (Entry n) (Entry elm) m)
           } else Some (set_addr (Head head) (Entry elm) m));
     let m = set_word (Entry listelm) (Some elm) m;
     Some (set_addr (Entry elm) (Entry listelm) m)
   }"

definition TAILQ_INSERT_BEFORE :: "nat \<Rightarrow> nat \<Rightarrow> qmem \<Rightarrow> qmem option" where
  "TAILQ_INSERT_BEFORE listelm elm m = do {
     let m = set_addr (Entry elm) (addr_at m (Entry listelm)) m;
     let m = set_word (Entry elm) (Some listelm) m;
     let m = set_word (addr_at m (Entry listelm)) (Some elm) m;
     Some (set_addr (Entry listelm) (Entry elm) m)
   }"

definition TAILQ_REMOVE :: "nat \<Rightarrow> nat \<Rightarrow> qmem \<Rightarrow> qmem option" where
  "TAILQ_REMOVE head elm m = do {
     m \<leftarrow> (if word_at m (Entry elm) \<noteq> None then do {
             n \<leftarrow> word_at m (Entry elm);
             Some (set_addr (Entry n) (addr_at m (Entry elm)) m)
           } else Some (set_addr (Head head) (addr_at m (Entry elm)) m));
     Some (set_word (addr_at m (Entry elm)) (word_at m (Entry elm)) m)
   }"

definition TAILQ_FOREACH :: "nat \<Rightarrow> qmem \<Rightarrow> nat list option" where
  "TAILQ_FOREACH head m = foreach m (word_at m (Head head))"

text \<open>
  \<open>((struct headname *) l)->tqh_last\<close> is the second word at the location, whether a head or an entry
  is there; the address found is followed once more for the element that is pointed to.
\<close>

definition TAILQ_LAST :: "nat \<Rightarrow> qmem \<Rightarrow> nat option" where
  "TAILQ_LAST head m = word_at m (addr_at m (addr_at m (Head head)))"

definition TAILQ_PREV :: "nat \<Rightarrow> qmem \<Rightarrow> nat option" where
  "TAILQ_PREV elm m = word_at m (addr_at m (addr_at m (Entry elm)))"

partial_function (option) foreach_reverse :: "qmem \<Rightarrow> nat option \<Rightarrow> nat list option" where
  "foreach_reverse m var =
     (case var of
        None \<Rightarrow> Some []
      | Some e \<Rightarrow> do { es \<leftarrow> foreach_reverse m (word_at m (addr_at m (addr_at m (Entry e)))); Some (e # es) })"

definition TAILQ_FOREACH_REVERSE :: "nat \<Rightarrow> qmem \<Rightarrow> nat list option" where
  "TAILQ_FOREACH_REVERSE head m = foreach_reverse m (word_at m (addr_at m (addr_at m (Head head))))"

definition TAILQ_EMPTY :: "nat \<Rightarrow> qmem \<Rightarrow> bool" where
  "TAILQ_EMPTY head m \<longleftrightarrow> word_at m (Head head) = None"

definition TAILQ_CONCAT :: "nat \<Rightarrow> nat \<Rightarrow> qmem \<Rightarrow> qmem option" where
  "TAILQ_CONCAT head1 head2 m =
     (if \<not> TAILQ_EMPTY head2 m then do {
        let m = set_word (addr_at m (Head head1)) (word_at m (Head head2)) m;
        f \<leftarrow> word_at m (Head head2);
        let m = set_addr (Entry f) (addr_at m (Head head1)) m;
        let m = set_addr (Head head1) (addr_at m (Head head2)) m;
        TAILQ_INIT head2 m
      } else Some m)"

definition TAILQ_FIRST :: "nat \<Rightarrow> qmem \<Rightarrow> nat option" where
  "TAILQ_FIRST head m = word_at m (Head head)"

definition TAILQ_NEXT :: "nat \<Rightarrow> qmem \<Rightarrow> nat option" where
  "TAILQ_NEXT elm m = word_at m (Entry elm)"

end
