(* ===== verification/Queue_Spec.thy ===== *)
theory Queue_Spec
  imports Queue_Macros
begin

text \<open>
  What the queue macros promise: the heads in use hold lists of elements, every element is on at most
  one of them once, and each macro has its effect on one list (two, for concatenation). A family
  of macros that has its effect within the memory of its own list (locale \<open>local_queue\<close>) is shown to
  follow the abstract steps with any number of queues in use (locale \<open>queue_macros\<close>).
\<close>

section \<open>Abstract queues\<close>

datatype qop =
    Init nat
  | InsertHead nat nat
  | InsertTail nat nat
  | InsertAfter nat nat nat
  | InsertBefore nat nat nat
  | RemoveHead nat
  | Remove nat nat
  | Concat nat nat

type_synonym queues = "nat \<rightharpoonup> nat list"

text \<open>The effect of a macro on the list of one head.\<close>

inductive qlocal :: "nat \<Rightarrow> qop \<Rightarrow> nat list \<Rightarrow> nat list \<Rightarrow> bool" where
  "x \<notin> set xs \<Longrightarrow> qlocal h (InsertHead h x) xs (x # xs)"
| "x \<notin> set xs \<Longrightarrow> qlocal h (InsertTail h x) xs (xs @ [x])"
| "x \<notin> set (as @ y # bs) \<Longrightarrow> qlocal h (InsertAfter h y x) (as @ y # bs) (as @ y # x # bs)"
| "x \<notin> set (as @ y # bs) \<Longrightarrow> qlocal h (InsertBefore h y x) (as @ y # bs) (as @ x # y # bs)"
| "qlocal h (RemoveHead h) (x # xs) xs"
| "qlocal h (Remove h x) (as @ x # bs) (as @ bs)"

text \<open>Steps on all heads in use. An element that is inserted is on no list before.\<close>

definition off_queues :: "queues \<Rightarrow> nat \<Rightarrow> bool" where
  "off_queues Q x \<longleftrightarrow> (\<forall>h xs. Q h = Some xs \<longrightarrow> x \<notin> set xs)"

inductive queue_step :: "queues \<Rightarrow> qop \<Rightarrow> queues \<Rightarrow> bool" where
  qs_init: "queue_step Q (Init h) (Q(h \<mapsto> []))"
| qs_local: "Q h = Some xs \<Longrightarrow> qlocal h op xs xs' \<Longrightarrow> (\<And>x. x \<in> set xs' - set xs \<Longrightarrow> off_queues Q x)
    \<Longrightarrow> queue_step Q op (Q(h \<mapsto> xs'))"
| qs_concat: "Q h = Some xs \<Longrightarrow> Q h' = Some ys \<Longrightarrow> h \<noteq> h' \<Longrightarrow> queue_step Q (Concat h h') (Q(h \<mapsto> xs @ ys, h' \<mapsto> []))"

inductive qruns :: "queues \<Rightarrow> qop list \<Rightarrow> queues \<Rightarrow> bool" where
  qr_nil: "qruns Q [] Q"
| qr_cons: "queue_step Q op Q' \<Longrightarrow> qruns Q' ops Q'' \<Longrightarrow> qruns Q (op # ops) Q''"

inductive_cases qruns_consE: "qruns Q (op # ops) Q''"

definition qwf :: "queues \<Rightarrow> bool" where
  "qwf Q \<longleftrightarrow> (\<forall>h xs. Q h = Some xs \<longrightarrow> distinct xs)
     \<and> (\<forall>h h' xs ys. h \<noteq> h' \<longrightarrow> Q h = Some xs \<longrightarrow> Q h' = Some ys \<longrightarrow> set xs \<inter> set ys = {})"

lemma qwf_empty [simp]: "qwf Map.empty"
  by (simp add: qwf_def)

lemma qwf_distinct: "qwf Q \<Longrightarrow> Q h = Some xs \<Longrightarrow> distinct xs"
  by (simp add: qwf_def)

lemma qwf_disjoint: "qwf Q \<Longrightarrow> h \<noteq> h' \<Longrightarrow> Q h = Some xs \<Longrightarrow> Q h' = Some ys \<Longrightarrow> set xs \<inter> set ys = {}"
  unfolding qwf_def by blast

lemma qwf_upd:
  assumes "qwf Q" and "distinct xs"
    and "\<And>h' ys. h' \<noteq> h \<Longrightarrow> Q h' = Some ys \<Longrightarrow> set xs \<inter> set ys = {}"
  shows "qwf (Q(h \<mapsto> xs))"
  unfolding qwf_def
proof (intro conjI allI impI)
  fix k ys assume "(Q(h \<mapsto> xs)) k = Some ys"
  then show "distinct ys" using assms(1,2) by (cases "k = h") (simp_all add: qwf_distinct)
next
  fix k k' ys zs
  assume kk: "k \<noteq> k'" "(Q(h \<mapsto> xs)) k = Some ys" "(Q(h \<mapsto> xs)) k' = Some zs"
  consider "k = h" | "k' = h" | "k \<noteq> h" "k' \<noteq> h" by blast
  then show "set ys \<inter> set zs = {}"
  proof cases
    case 1
    then show ?thesis using kk assms(3) [of k' zs] by auto
  next
    case 2
    then show ?thesis using kk assms(3) [of k ys] by auto
  next
    case 3
    then show ?thesis using kk qwf_disjoint [OF assms(1) kk(1)] by simp
  qed
qed

lemma qlocal_distinct: "qlocal h op xs xs' \<Longrightarrow> distinct xs \<Longrightarrow> distinct xs'"
  by (induction rule: qlocal.induct) auto

lemma qwf_local:
  assumes "qwf Q" "Q h = Some xs" "qlocal h op xs xs'" "\<And>x. x \<in> set xs' - set xs \<Longrightarrow> off_queues Q x"
  shows "qwf (Q(h \<mapsto> xs'))"
proof (rule qwf_upd [OF assms(1)])
  show "distinct xs'" by (rule qlocal_distinct [OF assms(3) qwf_distinct [OF assms(1,2)]])
  fix h' ys assume h': "h' \<noteq> h" "Q h' = Some ys"
  have "x \<notin> set ys" if "x \<in> set xs'" for x
  proof (cases "x \<in> set xs")
    case True
    then show ?thesis using qwf_disjoint [OF assms(1) h'(1) h'(2) assms(2)] by blast
  next
    case False
    with \<open>x \<in> set xs'\<close> have "off_queues Q x" by (simp add: assms(4))
    then show ?thesis using h'(2) by (simp add: off_queues_def)
  qed
  then show "set xs' \<inter> set ys = {}" by blast
qed

text \<open>No step puts an element on two lists, or twice on one.\<close>

lemma qwf_step: "queue_step Q op Q' \<Longrightarrow> qwf Q \<Longrightarrow> qwf Q'"
proof (induction rule: queue_step.induct)
  case (qs_init Q h)
  then show ?case by (intro qwf_upd) simp_all
next
  case (qs_local Q h xs op xs')
  then show ?case by (intro qwf_local)
next
  case (qs_concat Q h xs h' ys)
  have "qwf (Q(h' \<mapsto> []))" using qs_concat.prems by (intro qwf_upd) simp_all
  moreover have "distinct (xs @ ys)"
    using qs_concat qwf_disjoint [OF qs_concat.prems, of h h' xs ys] by (simp add: qwf_distinct)
  ultimately have "qwf (Q(h' \<mapsto> [], h \<mapsto> xs @ ys))"
  proof (rule qwf_upd)
    fix k zs assume k: "k \<noteq> h" "(Q(h' \<mapsto> [])) k = Some zs"
    then show "set (xs @ ys) \<inter> set zs = {}"
      using qwf_disjoint [OF qs_concat.prems k(1) _ qs_concat.hyps(1)]
        qwf_disjoint [OF qs_concat.prems _ _ qs_concat.hyps(2), of k zs]
      by (cases "k = h'") auto
  qed
  moreover have "Q(h' \<mapsto> [], h \<mapsto> xs @ ys) = Q(h \<mapsto> xs @ ys, h' \<mapsto> [])"
    by (rule fun_upd_twist) (use qs_concat.hyps(3) in simp)
  ultimately show ?case by (simp only:)
qed

section \<open>Following the steps\<close>

definition qrep :: "('m \<Rightarrow> nat \<Rightarrow> nat list \<Rightarrow> bool) \<Rightarrow> 'm \<Rightarrow> queues \<Rightarrow> bool" where
  "qrep rep m Q \<longleftrightarrow> qwf Q \<and> (\<forall>h xs. Q h = Some xs \<longrightarrow> rep m h xs)"

lemma qrep_upd:
  assumes "qwf (Q(h \<mapsto> xs))" "rep m h xs" "\<And>k zs. k \<noteq> h \<Longrightarrow> Q k = Some zs \<Longrightarrow> rep m k zs"
  shows "qrep rep m (Q(h \<mapsto> xs))"
  using assms by (simp add: qrep_def)

fun run_ops :: "(qop \<Rightarrow> 'm \<Rightarrow> 'm option) \<Rightarrow> qop list \<Rightarrow> 'm \<Rightarrow> 'm option" where
  "run_ops exec [] m = Some m"
| "run_ops exec (op # ops) m = do { m \<leftarrow> exec op m; run_ops exec ops m }"

locale queue_macros =
  fixes exec :: "qop \<Rightarrow> 'm \<Rightarrow> 'm option"
    and supports :: "qop \<Rightarrow> bool"
    and rep :: "'m \<Rightarrow> nat \<Rightarrow> nat list \<Rightarrow> bool"
    and walk :: "nat \<Rightarrow> 'm \<Rightarrow> nat list option"
  assumes follows: "qrep rep m Q \<Longrightarrow> queue_step Q op Q' \<Longrightarrow> supports op \<Longrightarrow> \<exists>m'. exec op m = Some m' \<and> qrep rep m' Q'"
    and walks: "rep m h xs \<Longrightarrow> walk h m = Some xs"
begin

lemma run_follows:
  assumes "qruns Q ops Q'" "qrep rep m Q" "\<forall>op \<in> set ops. supports op"
  shows "\<exists>m'. run_ops exec ops m = Some m' \<and> qrep rep m' Q'"
  using assms
proof (induction arbitrary: m rule: qruns.induct)
  case (qr_cons Q op Q' ops Q'')
  obtain m' where "exec op m = Some m'" "qrep rep m' Q'"
    using follows [OF qr_cons.prems(1) qr_cons.hyps(1)] qr_cons.prems(2) by auto
  then show ?case using qr_cons.IH [of m'] qr_cons.prems(2) by simp
qed simp

text \<open>From any memory: the macros run, and every queue then holds its list.\<close>

lemma run_correct:
  assumes "qruns Map.empty ops Q" "list_all supports ops"
  shows "\<exists>m'. run_ops exec ops m = Some m' \<and> (\<forall>h xs. Q h = Some xs \<longrightarrow> rep m' h xs \<and> walk h m' = Some xs)"
proof -
  have "qrep rep m Map.empty" by (simp add: qrep_def)
  from run_follows [OF assms(1) this] assms(2) obtain m' where
    "run_ops exec ops m = Some m'" "qrep rep m' Q" by (auto simp: list_all_iff)
  then show ?thesis by (auto simp: qrep_def walks)
qed

end

section \<open>Locality\<close>

definition foot :: "nat \<Rightarrow> nat list \<Rightarrow> qloc set" where
  "foot h xs = insert (Head h) (Entry ` set xs)"

lemma foot_disjoint: "h \<noteq> h' \<Longrightarrow> set xs \<inter> set ys = {} \<Longrightarrow> foot h xs \<inter> foot h' ys = {}"
  by (auto simp: foot_def)

locale local_queue =
  fixes exec :: "qop \<Rightarrow> 'm \<Rightarrow> 'm option"
    and supports :: "qop \<Rightarrow> bool"
    and rep :: "'m \<Rightarrow> nat \<Rightarrow> nat list \<Rightarrow> bool"
    and walk :: "nat \<Rightarrow> 'm \<Rightarrow> nat list option"
    and agree :: "qloc set \<Rightarrow> 'm \<Rightarrow> 'm \<Rightarrow> bool"
  assumes agree_mono: "agree S m m' \<Longrightarrow> T \<subseteq> S \<Longrightarrow> agree T m m'"
    and agree_rep: "rep m h xs \<Longrightarrow> agree (foot h xs) m m' \<Longrightarrow> rep m' h xs"
    and init_law: "supports (Init h) \<Longrightarrow> \<exists>m'. exec (Init h) m = Some m' \<and> rep m' h [] \<and> agree (- foot h []) m m'"
    and local_law: "supports op \<Longrightarrow> qlocal h op xs xs' \<Longrightarrow> distinct xs \<Longrightarrow> rep m h xs
      \<Longrightarrow> \<exists>m'. exec op m = Some m' \<and> rep m' h xs' \<and> agree (- (foot h xs \<union> foot h xs')) m m'"
    and concat_law: "supports (Concat h h') \<Longrightarrow> h \<noteq> h' \<Longrightarrow> distinct (xs @ ys) \<Longrightarrow> rep m h xs \<Longrightarrow> rep m h' ys
      \<Longrightarrow> \<exists>m'. exec (Concat h h') m = Some m' \<and> rep m' h (xs @ ys) \<and> rep m' h' [] \<and> agree (- (foot h xs \<union> foot h' ys)) m m'"
    and walk_law: "rep m h xs \<Longrightarrow> walk h m = Some xs"
begin

lemma other_queue:
  assumes "qrep rep m Q" "agree (- S) m m'" "Q k = Some zs" "S \<inter> foot k zs = {}"
  shows "rep m' k zs"
proof (rule agree_rep)
  show "rep m k zs" using assms(1,3) by (simp add: qrep_def)
  show "agree (foot k zs) m m'" by (rule agree_mono [OF assms(2)]) (use assms(4) in blast)
qed

lemma follow_local:
  assumes rep: "qrep rep m Q" and h: "Q h = Some xs" and op: "qlocal h op xs xs'" "supports op"
    and new: "\<And>x. x \<in> set xs' - set xs \<Longrightarrow> off_queues Q x"
  shows "\<exists>m'. exec op m = Some m' \<and> qrep rep m' (Q(h \<mapsto> xs'))"
proof -
  from rep h have wf: "qwf Q" and xs: "rep m h xs" by (simp_all add: qrep_def)
  from local_law [OF op(2,1) qwf_distinct [OF wf h] xs] obtain m' where
    m': "exec op m = Some m'" "rep m' h xs'" "agree (- (foot h xs \<union> foot h xs')) m m'" by blast
  have wf': "qwf (Q(h \<mapsto> xs'))" by (rule qwf_local [OF wf h op(1) new])
  have "rep m' k zs" if k: "k \<noteq> h" "Q k = Some zs" for k zs
  proof (rule other_queue [OF rep m'(3) k(2)])
    have "set xs \<inter> set zs = {}" by (rule qwf_disjoint [OF wf _ h k(2)]) (use k in simp)
    moreover have "set xs' \<inter> set zs = {}"
      by (rule qwf_disjoint [OF wf' k(1) [symmetric], of xs' zs]) (use k in simp_all)
    ultimately show "(foot h xs \<union> foot h xs') \<inter> foot k zs = {}"
      using k(1) by (auto simp: foot_def)
  qed
  then have "qrep rep m' (Q(h \<mapsto> xs'))" by (rule qrep_upd [where rep = rep, OF wf' m'(2)])
  with m'(1) show ?thesis by blast
qed

lemma follow_concat:
  assumes rep: "qrep rep m Q" and h: "Q h = Some xs" "Q h' = Some ys" "h \<noteq> h'"
    and op: "supports (Concat h h')"
  shows "\<exists>m'. exec (Concat h h') m = Some m' \<and> qrep rep m' (Q(h \<mapsto> xs @ ys, h' \<mapsto> []))"
proof -
  from rep h have wf: "qwf Q" and xs: "rep m h xs" "rep m h' ys" by (simp_all add: qrep_def)
  have "distinct (xs @ ys)"
    using qwf_disjoint [OF wf h(3,1,2)] qwf_distinct [OF wf] h by simp
  from concat_law [OF op h(3) this xs] obtain m' where
    m': "exec (Concat h h') m = Some m'" "rep m' h (xs @ ys)" "rep m' h' []"
      "agree (- (foot h xs \<union> foot h' ys)) m m'" by blast
  have other: "rep m' k zs" if k: "k \<noteq> h" "k \<noteq> h'" "Q k = Some zs" for k zs
  proof (rule other_queue [OF rep m'(4) k(3)])
    show "(foot h xs \<union> foot h' ys) \<inter> foot k zs = {}"
      using foot_disjoint [OF _ qwf_disjoint [OF wf _ h(1) k(3)]]
        foot_disjoint [OF _ qwf_disjoint [OF wf _ h(2) k(3)]] k by (simp add: Int_Un_distrib2)
  qed
  have "qrep rep m' (Q(h \<mapsto> xs @ ys, h' \<mapsto> []))"
  proof (rule qrep_upd [where rep = rep, OF qwf_step [OF qs_concat [OF h] wf] m'(3)])
    fix k zs assume "k \<noteq> h'" "(Q(h \<mapsto> xs @ ys)) k = Some zs"
    then show "rep m' k zs" using m'(2) other by (cases "k = h") simp_all
  qed
  with m'(1) show ?thesis by blast
qed

end

sublocale local_queue \<subseteq> queue_macros
proof
  fix m Q op Q' assume rep: "qrep rep m Q" and "queue_step Q op Q'" and op: "supports op"
  from this(2) show "\<exists>m'. exec op m = Some m' \<and> qrep rep m' Q'"
  proof cases
    case (qs_init h)
    with op obtain m' where m': "exec op m = Some m'" "rep m' h []" "agree (- foot h []) m m'"
      using init_law by blast
    have "rep m' k zs" if "k \<noteq> h" "Q k = Some zs" for k zs
      by (rule other_queue [OF rep m'(3) that(2)]) (use that(1) in \<open>auto simp: foot_def\<close>)
    moreover have "qwf Q'" using qwf_step [OF \<open>queue_step Q op Q'\<close>] rep by (simp add: qrep_def)
    ultimately have "qrep rep m' Q'" unfolding qs_init(2) by (intro qrep_upd m'(2))
    with m'(1) show ?thesis by blast
  next
    case (qs_local h xs xs')
    then show ?thesis using follow_local [OF rep _ _ op] by blast
  next
    case (qs_concat h xs h' ys)
    then show ?thesis using follow_concat [OF rep] op by blast
  qed
qed (rule walk_law)

end
