(* ===== verification/Queue_Links.thy ===== *)
theory Queue_Links
  imports Queue_Spec
begin

text \<open>
  The linked lists behind the macros of \<open>Queue_Macros\<close>: what it means that a head holds a list of
  elements, and for each macro that it gives the list it should and writes only to the words of its
  own list. The five families are interpretations of \<open>local_queue\<close>.
\<close>

section \<open>Chains of entries\<close>

text \<open>
  \<open>links m l xs\<close>: from the word at \<open>l\<close> the entries of \<open>xs\<close> follow one another; \<open>endl l xs\<close> is where
  the last of them is, \<open>cells l xs\<close> the words that are read on the way. \<open>backs m l xs\<close>: the second words point
  back the same way.
\<close>

fun links :: "qmem \<Rightarrow> qloc \<Rightarrow> nat list \<Rightarrow> bool" where
  "links m l [] \<longleftrightarrow> True"
| "links m l (x # xs) \<longleftrightarrow> word_at m l = Some x \<and> links m (Entry x) xs"

fun backs :: "qmem \<Rightarrow> qloc \<Rightarrow> nat list \<Rightarrow> bool" where
  "backs m l [] \<longleftrightarrow> True"
| "backs m l (x # xs) \<longleftrightarrow> addr_at m (Entry x) = l \<and> backs m (Entry x) xs"

fun endl :: "qloc \<Rightarrow> nat list \<Rightarrow> qloc" where
  "endl l [] = l"
| "endl l (x # xs) = endl (Entry x) xs"

fun cells :: "qloc \<Rightarrow> nat list \<Rightarrow> qloc set" where
  "cells l [] = {}"
| "cells l (x # xs) = insert l (cells (Entry x) xs)"

lemma Entry_image [simp]: "Entry x \<in> Entry ` S \<longleftrightarrow> x \<in> S" "Head h \<notin> Entry ` S"
  by auto

lemma links_append [simp]: "links m l (xs @ ys) \<longleftrightarrow> links m l xs \<and> links m (endl l xs) ys"
  by (induction xs arbitrary: l) auto

lemma backs_append [simp]: "backs m l (xs @ ys) \<longleftrightarrow> backs m l xs \<and> backs m (endl l xs) ys"
  by (induction xs arbitrary: l) auto

lemma endl_append [simp]: "endl l (xs @ ys) = endl (endl l xs) ys"
  by (induction xs arbitrary: l) auto

lemma endl_cases: "endl l xs = l \<and> xs = [] \<or> (\<exists>x \<in> set xs. endl l xs = Entry x)"
  by (induction xs arbitrary: l) auto

lemma endl_neq [simp]:
  "x \<notin> set xs \<Longrightarrow> l \<noteq> Entry x \<Longrightarrow> endl l xs \<noteq> Entry x"
  "x \<notin> set xs \<Longrightarrow> l \<noteq> Entry x \<Longrightarrow> Entry x \<noteq> endl l xs"
  "l \<noteq> Head h \<Longrightarrow> endl l xs \<noteq> Head h"
  "l \<noteq> Head h \<Longrightarrow> Head h \<noteq> endl l xs"
  using endl_cases [of l xs] by auto

lemma cells_subset: "cells l xs \<subseteq> insert l (Entry ` set xs)"
  by (induction xs arbitrary: l) auto

lemma endl_in_foot: "endl l xs \<in> insert l (Entry ` set xs)"
  using endl_cases [of l xs] by auto

lemma notin_cells [simp]:
  "x \<notin> set xs \<Longrightarrow> l \<noteq> Entry x \<Longrightarrow> Entry x \<notin> cells l xs"
  "l \<noteq> Head h \<Longrightarrow> Head h \<notin> cells l xs"
  using cells_subset [of l xs] by auto

lemma endl_notin_cells [simp]:
  "distinct xs \<Longrightarrow> l \<notin> Entry ` set xs \<Longrightarrow> endl l xs \<notin> cells l xs"
proof (induction xs arbitrary: l)
  case (Cons x xs)
  have "endl (Entry x) xs \<noteq> l"
    using endl_in_foot [of "Entry x" xs] Cons.prems(2) by auto
  then show ?case using Cons by auto
qed simp

lemma endl_notin_other [simp]:
  "set xs \<inter> set ys = {} \<Longrightarrow> k \<noteq> l \<Longrightarrow> k \<notin> Entry ` set ys \<Longrightarrow> l \<notin> Entry ` set xs \<Longrightarrow> endl k xs \<notin> cells l ys"
  using endl_in_foot [of k xs] cells_subset [of l ys] by auto

lemma endl_apart [simp]:
  "a \<notin> set xs \<Longrightarrow> set xs \<inter> set ys = {} \<Longrightarrow> endl (Entry a) ys \<noteq> endl (Head h) xs"
  using endl_cases [of "Entry a" ys] endl_cases [of "Head h" xs] by auto

lemma links_set_word [simp]: "k \<notin> cells l xs \<Longrightarrow> links (set_word k v m) l xs \<longleftrightarrow> links m l xs"
  by (induction xs arbitrary: l) auto

lemma links_set_addr [simp]: "links (set_addr k v m) l xs \<longleftrightarrow> links m l xs"
  by (induction xs arbitrary: l) auto

lemma backs_set_word [simp]: "backs (set_word k v m) l xs \<longleftrightarrow> backs m l xs"
  by (induction xs arbitrary: l) auto

lemma backs_set_addr [simp]: "k \<notin> Entry ` set xs \<Longrightarrow> backs (set_addr k v m) l xs \<longleftrightarrow> backs m l xs"
  by (induction xs arbitrary: l) auto

section \<open>Memory outside of a list\<close>

definition agree :: "qloc set \<Rightarrow> qmem \<Rightarrow> qmem \<Rightarrow> bool" where
  "agree S m m' \<longleftrightarrow> (\<forall>l \<in> S. word_at m l = word_at m' l \<and> addr_at m l = addr_at m' l)"

lemma agree_mono: "agree S m m' \<Longrightarrow> T \<subseteq> S \<Longrightarrow> agree T m m'"
  unfolding agree_def by blast

lemma agree_refl [simp]: "agree S m m"
  by (simp add: agree_def)

lemma agree_set_word [simp]: "l \<notin> S \<Longrightarrow> agree S m (set_word l v m') \<longleftrightarrow> agree S m m'"
  by (auto simp: agree_def)

lemma agree_set_addr [simp]: "l \<notin> S \<Longrightarrow> agree S m (set_addr l v m') \<longleftrightarrow> agree S m m'"
  by (auto simp: agree_def)

lemma agree_links: "agree (insert l (Entry ` set xs)) m m' \<Longrightarrow> links m l xs \<Longrightarrow> links m' l xs"
  by (induction xs arbitrary: l) (auto simp: agree_def)

lemma agree_backs: "agree (insert l (Entry ` set xs)) m m' \<Longrightarrow> backs m l xs \<Longrightarrow> backs m' l xs"
  by (induction xs arbitrary: l) (auto simp: agree_def)

lemma agree_end: "agree (insert l (Entry ` set xs)) m m' \<Longrightarrow> word_at m' (endl l xs) = word_at m (endl l xs)"
  using endl_in_foot [of l xs] by (auto simp: agree_def)

section \<open>What a head holds\<close>

definition chain_rep :: "qmem \<Rightarrow> nat \<Rightarrow> nat list \<Rightarrow> bool" where
  "chain_rep m h xs \<longleftrightarrow> links m (Head h) xs \<and> word_at m (endl (Head h) xs) = None"

definition list_rep :: "qmem \<Rightarrow> nat \<Rightarrow> nat list \<Rightarrow> bool" where
  "list_rep m h xs \<longleftrightarrow> chain_rep m h xs \<and> backs m (Head h) xs"

definition stailq_rep :: "qmem \<Rightarrow> nat \<Rightarrow> nat list \<Rightarrow> bool" where
  "stailq_rep m h xs \<longleftrightarrow> chain_rep m h xs \<and> addr_at m (Head h) = endl (Head h) xs"

definition tailq_rep :: "qmem \<Rightarrow> nat \<Rightarrow> nat list \<Rightarrow> bool" where
  "tailq_rep m h xs \<longleftrightarrow> list_rep m h xs \<and> stailq_rep m h xs"

lemmas rep_defs = chain_rep_def list_rep_def stailq_rep_def tailq_rep_def

lemma agree_holds: "chain_rep m h xs \<Longrightarrow> agree (foot h xs) m m' \<Longrightarrow> chain_rep m' h xs"
  by (simp add: chain_rep_def foot_def agree_end) (blast intro: agree_links)

lemma agree_list: "list_rep m h xs \<Longrightarrow> agree (foot h xs) m m' \<Longrightarrow> list_rep m' h xs"
  by (auto simp: list_rep_def agree_holds foot_def intro: agree_backs)

lemma agree_stailq: "stailq_rep m h xs \<Longrightarrow> agree (foot h xs) m m' \<Longrightarrow> stailq_rep m' h xs"
  by (auto simp: stailq_rep_def agree_holds) (auto simp: agree_def foot_def)

lemma agree_tailq: "tailq_rep m h xs \<Longrightarrow> agree (foot h xs) m m' \<Longrightarrow> tailq_rep m' h xs"
  by (auto simp: tailq_rep_def intro: agree_list agree_stailq)

section \<open>Traversal\<close>

lemma foreach_links:
  "links m l xs \<Longrightarrow> word_at m (endl l xs) = None \<Longrightarrow> foreach m (word_at m l) = Some xs"
proof (induction xs arbitrary: l)
  case Nil
  then show ?case by (simp add: foreach.simps)
next
  case (Cons x xs)
  then have "foreach m (word_at m (Entry x)) = Some xs" by simp
  then show ?case using Cons.prems by (subst foreach.simps) simp
qed

lemma foreach_holds: "chain_rep m h xs \<Longrightarrow> foreach m (word_at m (Head h)) = Some xs"
  by (simp add: chain_rep_def foreach_links)

text \<open>The search for the element in front of another one ends there.\<close>

lemma before_links:
  "links m l (xs @ [c, x]) \<Longrightarrow> distinct (xs @ [c, x]) \<Longrightarrow> before_elm m x (word_at m l) = Some c"
proof (induction xs arbitrary: l)
  case Nil
  then show ?case by (subst before_elm.simps) simp
next
  case (Cons y ys)
  then have "before_elm m x (word_at m (Entry y)) = Some c" by simp
  moreover have "word_at m (Entry y) \<noteq> Some x"
    using Cons.prems by (cases ys) auto
  moreover have "word_at m l = Some y" using Cons.prems by simp
  ultimately show ?case by (subst before_elm.simps) simp
qed

lemma reverse_backs:
  "links m l (x # xs) \<Longrightarrow> backs m l (x # xs) \<Longrightarrow> word_at m (addr_at m l) = None
    \<Longrightarrow> foreach_reverse m (word_at m (addr_at m (endl l (x # xs)))) = Some (rev (x # xs))"
proof (induction xs rule: rev_induct)
  case Nil
  then show ?case by (simp add: foreach_reverse.simps)
next
  case (snoc y ys)
  let ?p = "endl (Entry x) ys"
  have y: "word_at m ?p = Some y" "addr_at m (Entry y) = ?p" using snoc.prems by simp_all
  have "foreach_reverse m (word_at m (addr_at m ?p)) = Some (rev (x # ys))" using snoc by simp
  then show ?case using y by (simp add: foreach_reverse.simps [of m "Some y"])
qed


section \<open>Lists\<close>

lemma foot_simps [simp]:
  "Entry x \<in> foot h xs \<longleftrightarrow> x \<in> set xs" "Head k \<in> foot h xs \<longleftrightarrow> k = h"
  "endl (Head h) xs \<in> foot h xs" "endl (Head h) xs \<in> foot h (xs @ ys)"
  using endl_in_foot [of "Head h" xs] by (auto simp: foot_def)

fun list_exec :: "qop \<Rightarrow> qmem \<Rightarrow> qmem option" where
  "list_exec (Init h) m = LIST_INIT h m"
| "list_exec (InsertHead h x) m = LIST_INSERT_HEAD h x m"
| "list_exec (InsertAfter h y x) m = LIST_INSERT_AFTER y x m"
| "list_exec (InsertBefore h y x) m = LIST_INSERT_BEFORE y x m"
| "list_exec (Remove h x) m = LIST_REMOVE x m"
| "list_exec _ m = None"

fun list_supports :: "qop \<Rightarrow> bool" where
  "list_supports (InsertTail h x) = False"
| "list_supports (RemoveHead h) = False"
| "list_supports (Concat h h') = False"
| "list_supports _ = True"

lemma LIST_INIT_law: "\<exists>m'. LIST_INIT h m = Some m' \<and> list_rep m' h [] \<and> agree (- foot h []) m m'"
  by (simp add: LIST_INIT_def rep_defs)

lemma LIST_INSERT_HEAD_law:
  assumes "list_rep m h xs" "distinct (x # xs)"
  shows "\<exists>m'. LIST_INSERT_HEAD h x m = Some m' \<and> list_rep m' h (x # xs) \<and> agree (- foot h (x # xs)) m m'"
  using assms by (cases xs) (auto simp: LIST_INSERT_HEAD_def rep_defs)

lemma LIST_INSERT_AFTER_law:
  assumes "list_rep m h (as @ y # bs)" "distinct (x # as @ y # bs)"
  shows "\<exists>m'. LIST_INSERT_AFTER y x m = Some m' \<and> list_rep m' h (as @ y # x # bs)
    \<and> agree (- foot h (as @ y # x # bs)) m m'"
  using assms by (cases bs) (auto simp: LIST_INSERT_AFTER_def rep_defs)

lemma LIST_INSERT_BEFORE_law:
  assumes "list_rep m h (as @ y # bs)" "distinct (x # as @ y # bs)"
  shows "\<exists>m'. LIST_INSERT_BEFORE y x m = Some m' \<and> list_rep m' h (as @ x # y # bs)
    \<and> agree (- foot h (as @ x # y # bs)) m m'"
  using assms by (auto simp: LIST_INSERT_BEFORE_def rep_defs)

lemma LIST_REMOVE_law:
  assumes "list_rep m h (as @ x # bs)" "distinct (as @ x # bs)"
  shows "\<exists>m'. LIST_REMOVE x m = Some m' \<and> list_rep m' h (as @ bs) \<and> agree (- foot h (as @ x # bs)) m m'"
  using assms by (cases bs) (auto simp: LIST_REMOVE_def rep_defs)


text \<open>Every law of one list is a law about the macros of the family.\<close>

lemma qlocal_cases:
  assumes "qlocal h op xs xs'"
  obtains (head) x where "op = InsertHead h x" "x \<notin> set xs" "xs' = x # xs"
  | (tail) x where "op = InsertTail h x" "x \<notin> set xs" "xs' = xs @ [x]"
  | (after) x as y bs where "op = InsertAfter h y x" "x \<notin> set (as @ y # bs)" "xs = as @ y # bs" "xs' = as @ y # x # bs"
  | (before) x as y bs where "op = InsertBefore h y x" "x \<notin> set (as @ y # bs)" "xs = as @ y # bs" "xs' = as @ x # y # bs"
  | (pop) x where "op = RemoveHead h" "xs = x # xs'"
  | (remove) x as bs where "op = Remove h x" "xs = as @ x # bs" "xs' = as @ bs"
  using assms by (cases rule: qlocal.cases) blast+

lemma foot_absorb [simp]:
  "foot h xs \<union> foot h (x # xs) = foot h (x # xs)" "foot h (x # xs) \<union> foot h xs = foot h (x # xs)"
  "foot h xs \<union> foot h (xs @ [x]) = foot h (xs @ [x])"
  "foot h (as @ y # bs) \<union> foot h (as @ y # x # bs) = foot h (as @ y # x # bs)"
  "foot h (as @ y # bs) \<union> foot h (as @ x # y # bs) = foot h (as @ x # y # bs)"
  "foot h (as @ x # bs) \<union> foot h (as @ bs) = foot h (as @ x # bs)"
  by (auto simp: foot_def)

interpretation list_macros: local_queue list_exec list_supports list_rep LIST_FOREACH agree
proof
  fix op h xs xs' m
  assume "list_supports op" "qlocal h op xs xs'" "distinct xs" "list_rep m h xs"
  from this(2,1,3,4) show "\<exists>m'. list_exec op m = Some m' \<and> list_rep m' h xs' \<and> agree (- (foot h xs \<union> foot h xs')) m m'"
    by (cases rule: qlocal_cases)
      (simp_all add: LIST_INSERT_HEAD_law LIST_INSERT_AFTER_law LIST_INSERT_BEFORE_law LIST_REMOVE_law)
next
  show "list_rep m h xs \<Longrightarrow> LIST_FOREACH h m = Some xs" for m h xs
    by (simp add: list_rep_def LIST_FOREACH_def foreach_holds)
qed (auto simp: LIST_INIT_law intro: agree_mono agree_list)


section \<open>Singly linked lists\<close>

fun slist_exec :: "qop \<Rightarrow> qmem \<Rightarrow> qmem option" where
  "slist_exec (Init h) m = SLIST_INIT h m"
| "slist_exec (InsertHead h x) m = SLIST_INSERT_HEAD h x m"
| "slist_exec (InsertAfter h y x) m = SLIST_INSERT_AFTER y x m"
| "slist_exec (RemoveHead h) m = SLIST_REMOVE_HEAD h m"
| "slist_exec (Remove h x) m = SLIST_REMOVE h x m"
| "slist_exec _ m = None"

fun slist_supports :: "qop \<Rightarrow> bool" where
  "slist_supports (InsertTail h x) = False"
| "slist_supports (InsertBefore h y x) = False"
| "slist_supports (Concat h h') = False"
| "slist_supports _ = True"

lemma SLIST_INIT_law: "\<exists>m'. SLIST_INIT h m = Some m' \<and> chain_rep m' h [] \<and> agree (- foot h []) m m'"
  by (simp add: SLIST_INIT_def rep_defs)

lemma SLIST_INSERT_HEAD_law:
  assumes "chain_rep m h xs" "distinct (x # xs)"
  shows "\<exists>m'. SLIST_INSERT_HEAD h x m = Some m' \<and> chain_rep m' h (x # xs) \<and> agree (- foot h (x # xs)) m m'"
  using assms by (cases xs) (auto simp: SLIST_INSERT_HEAD_def rep_defs)

lemma SLIST_INSERT_AFTER_law:
  assumes "chain_rep m h (as @ y # bs)" "distinct (x # as @ y # bs)"
  shows "\<exists>m'. SLIST_INSERT_AFTER y x m = Some m' \<and> chain_rep m' h (as @ y # x # bs)
    \<and> agree (- foot h (as @ y # x # bs)) m m'"
  using assms by (cases bs) (auto simp: SLIST_INSERT_AFTER_def rep_defs)

lemma SLIST_REMOVE_HEAD_law:
  assumes "chain_rep m h (x # xs)" "distinct (x # xs)"
  shows "\<exists>m'. SLIST_REMOVE_HEAD h m = Some m' \<and> chain_rep m' h xs \<and> agree (- foot h (x # xs)) m m'"
  using assms by (cases xs) (auto simp: SLIST_REMOVE_HEAD_def rep_defs)

text \<open>The first element is not the one to remove, and the search finds the one in front of it.\<close>

lemma before_holds:
  assumes "chain_rep m h (as @ c # x # bs)" "distinct (as @ c # x # bs)"
  shows "word_at m (Head h) \<noteq> Some x" "before_elm m x (word_at m (Head h)) = Some c"
    "word_at m (Entry c) = Some x"
proof -
  show "word_at m (Head h) \<noteq> Some x" using assms by (cases as) (auto simp: chain_rep_def)
  show "word_at m (Entry c) = Some x" using assms by (simp add: chain_rep_def)
  show "before_elm m x (word_at m (Head h)) = Some c"
    by (rule before_links [of _ _ as]) (use assms in \<open>simp_all add: chain_rep_def\<close>)
qed

lemma SLIST_REMOVE_law:
  assumes "chain_rep m h (as @ x # bs)" "distinct (as @ x # bs)"
  shows "\<exists>m'. SLIST_REMOVE h x m = Some m' \<and> chain_rep m' h (as @ bs) \<and> agree (- foot h (as @ x # bs)) m m'"
proof (cases as rule: rev_cases)
  case Nil
  then show ?thesis using assms SLIST_REMOVE_HEAD_law [of m h x bs] by (simp add: SLIST_REMOVE_def chain_rep_def)
next
  case (snoc cs c)
  note b = before_holds [of m h cs c x bs]
  show ?thesis using assms b unfolding snoc
    by (cases bs) (auto simp: SLIST_REMOVE_def rep_defs)
qed

interpretation slist_macros: local_queue slist_exec slist_supports chain_rep SLIST_FOREACH agree
proof
  fix op h xs xs' m
  assume "slist_supports op" "qlocal h op xs xs'" "distinct xs" "chain_rep m h xs"
  from this(2,1,3,4) show "\<exists>m'. slist_exec op m = Some m' \<and> chain_rep m' h xs' \<and> agree (- (foot h xs \<union> foot h xs')) m m'"
    by (cases rule: qlocal_cases)
      (simp_all add: SLIST_INSERT_HEAD_law SLIST_INSERT_AFTER_law SLIST_REMOVE_HEAD_law SLIST_REMOVE_law)
next
  show "chain_rep m h xs \<Longrightarrow> SLIST_FOREACH h m = Some xs" for m h xs
    by (simp add: SLIST_FOREACH_def foreach_holds)
qed (auto simp: SLIST_INIT_law intro: agree_mono agree_holds)

section \<open>Singly linked tail queues\<close>

fun stailq_exec :: "qop \<Rightarrow> qmem \<Rightarrow> qmem option" where
  "stailq_exec (Init h) m = STAILQ_INIT h m"
| "stailq_exec (InsertHead h x) m = STAILQ_INSERT_HEAD h x m"
| "stailq_exec (InsertTail h x) m = STAILQ_INSERT_TAIL h x m"
| "stailq_exec (InsertAfter h y x) m = STAILQ_INSERT_AFTER h y x m"
| "stailq_exec (RemoveHead h) m = STAILQ_REMOVE_HEAD h m"
| "stailq_exec (Remove h x) m = STAILQ_REMOVE h x m"
| "stailq_exec (Concat h h') m = STAILQ_CONCAT h h' m"
| "stailq_exec _ m = None"

fun stailq_supports :: "qop \<Rightarrow> bool" where
  "stailq_supports (InsertBefore h y x) = False"
| "stailq_supports _ = True"

lemma STAILQ_INIT_law: "\<exists>m'. STAILQ_INIT h m = Some m' \<and> stailq_rep m' h [] \<and> agree (- foot h []) m m'"
  by (simp add: STAILQ_INIT_def rep_defs)

lemma STAILQ_INSERT_HEAD_law:
  assumes "stailq_rep m h xs" "distinct (x # xs)"
  shows "\<exists>m'. STAILQ_INSERT_HEAD h x m = Some m' \<and> stailq_rep m' h (x # xs) \<and> agree (- foot h (x # xs)) m m'"
  using assms by (cases xs) (auto simp: STAILQ_INSERT_HEAD_def rep_defs)

lemma STAILQ_INSERT_TAIL_law:
  assumes "stailq_rep m h xs" "distinct (x # xs)"
  shows "\<exists>m'. STAILQ_INSERT_TAIL h x m = Some m' \<and> stailq_rep m' h (xs @ [x]) \<and> agree (- foot h (xs @ [x])) m m'"
  using assms by (auto simp: STAILQ_INSERT_TAIL_def rep_defs)

lemma STAILQ_INSERT_AFTER_law:
  assumes "stailq_rep m h (as @ y # bs)" "distinct (x # as @ y # bs)"
  shows "\<exists>m'. STAILQ_INSERT_AFTER h y x m = Some m' \<and> stailq_rep m' h (as @ y # x # bs)
    \<and> agree (- foot h (as @ y # x # bs)) m m'"
  using assms by (cases bs) (auto simp: STAILQ_INSERT_AFTER_def rep_defs)

lemma STAILQ_REMOVE_HEAD_law:
  assumes "stailq_rep m h (x # xs)" "distinct (x # xs)"
  shows "\<exists>m'. STAILQ_REMOVE_HEAD h m = Some m' \<and> stailq_rep m' h xs \<and> agree (- foot h (x # xs)) m m'"
  using assms by (cases xs) (auto simp: STAILQ_REMOVE_HEAD_def rep_defs)

lemma STAILQ_REMOVE_law:
  assumes "stailq_rep m h (as @ x # bs)" "distinct (as @ x # bs)"
  shows "\<exists>m'. STAILQ_REMOVE h x m = Some m' \<and> stailq_rep m' h (as @ bs) \<and> agree (- foot h (as @ x # bs)) m m'"
proof (cases as rule: rev_cases)
  case Nil
  then show ?thesis using assms STAILQ_REMOVE_HEAD_law [of m h x bs] by (simp add: STAILQ_REMOVE_def rep_defs)
next
  case (snoc cs c)
  have "chain_rep m h (cs @ c # x # bs)" using assms snoc by (simp add: stailq_rep_def)
  note b = before_holds [OF this]
  show ?thesis using assms b unfolding snoc
    by (cases bs) (auto simp: STAILQ_REMOVE_def rep_defs)
qed

lemma STAILQ_CONCAT_law:
  assumes "stailq_rep m h xs" "stailq_rep m h' ys" "h \<noteq> h'" "distinct (xs @ ys)"
  shows "\<exists>m'. STAILQ_CONCAT h h' m = Some m' \<and> stailq_rep m' h (xs @ ys) \<and> stailq_rep m' h' []
    \<and> agree (- (foot h xs \<union> foot h' ys)) m m'"
  using assms by (cases ys) (auto simp: STAILQ_CONCAT_def STAILQ_INIT_def STAILQ_EMPTY_def rep_defs)

interpretation stailq_macros: local_queue stailq_exec stailq_supports stailq_rep STAILQ_FOREACH agree
proof
  fix op h xs xs' m
  assume "stailq_supports op" "qlocal h op xs xs'" "distinct xs" "stailq_rep m h xs"
  from this(2,1,3,4) show "\<exists>m'. stailq_exec op m = Some m' \<and> stailq_rep m' h xs' \<and> agree (- (foot h xs \<union> foot h xs')) m m'"
    by (cases rule: qlocal_cases)
      (simp_all add: STAILQ_INSERT_HEAD_law STAILQ_INSERT_TAIL_law STAILQ_INSERT_AFTER_law
        STAILQ_REMOVE_HEAD_law STAILQ_REMOVE_law)
next
  show "stailq_rep m h xs \<Longrightarrow> STAILQ_FOREACH h m = Some xs" for m h xs
    by (simp add: STAILQ_FOREACH_def stailq_rep_def foreach_holds)
qed (auto simp: STAILQ_INIT_law STAILQ_CONCAT_law [simplified] intro: agree_mono agree_stailq)


section \<open>Simple queues\<close>

text \<open>Simple queues are singly linked tail queues by another name, without the concatenation.\<close>

lemmas simpleq_stailq =
  SIMPLEQ_INIT_def [folded STAILQ_INIT_def] SIMPLEQ_INSERT_HEAD_def [folded STAILQ_INSERT_HEAD_def]
  SIMPLEQ_INSERT_TAIL_def [folded STAILQ_INSERT_TAIL_def] SIMPLEQ_INSERT_AFTER_def [folded STAILQ_INSERT_AFTER_def]
  SIMPLEQ_REMOVE_HEAD_def [folded STAILQ_REMOVE_HEAD_def] SIMPLEQ_FOREACH_def [folded STAILQ_FOREACH_def]

lemma SIMPLEQ_REMOVE_stailq: "SIMPLEQ_REMOVE h x m = STAILQ_REMOVE h x m"
  by (simp add: SIMPLEQ_REMOVE_def STAILQ_REMOVE_def simpleq_stailq)

fun simpleq_exec :: "qop \<Rightarrow> qmem \<Rightarrow> qmem option" where
  "simpleq_exec (Init h) m = SIMPLEQ_INIT h m"
| "simpleq_exec (InsertHead h x) m = SIMPLEQ_INSERT_HEAD h x m"
| "simpleq_exec (InsertTail h x) m = SIMPLEQ_INSERT_TAIL h x m"
| "simpleq_exec (InsertAfter h y x) m = SIMPLEQ_INSERT_AFTER h y x m"
| "simpleq_exec (RemoveHead h) m = SIMPLEQ_REMOVE_HEAD h m"
| "simpleq_exec (Remove h x) m = SIMPLEQ_REMOVE h x m"
| "simpleq_exec _ m = None"

fun simpleq_supports :: "qop \<Rightarrow> bool" where
  "simpleq_supports (InsertBefore h y x) = False"
| "simpleq_supports (Concat h h') = False"
| "simpleq_supports _ = True"

lemma simpleq_exec_stailq: "simpleq_supports op \<Longrightarrow> simpleq_exec op m = stailq_exec op m \<and> stailq_supports op"
  by (cases op) (simp_all add: simpleq_stailq SIMPLEQ_REMOVE_stailq)

interpretation simpleq_macros: local_queue simpleq_exec simpleq_supports stailq_rep SIMPLEQ_FOREACH agree
proof
  show "stailq_rep m h xs \<Longrightarrow> SIMPLEQ_FOREACH h m = Some xs" for m h xs
    by (simp add: simpleq_stailq stailq_macros.walk_law)
next
  fix op h xs xs' m
  assume "simpleq_supports op" "qlocal h op xs xs'" "distinct xs" "stailq_rep m h xs"
  then show "\<exists>m'. simpleq_exec op m = Some m' \<and> stailq_rep m' h xs' \<and> agree (- (foot h xs \<union> foot h xs')) m m'"
    using stailq_macros.local_law simpleq_exec_stailq by simp
qed (auto simp: simpleq_stailq STAILQ_INIT_law intro: agree_mono agree_stailq)

section \<open>Tail queues\<close>

fun tailq_exec :: "qop \<Rightarrow> qmem \<Rightarrow> qmem option" where
  "tailq_exec (Init h) m = TAILQ_INIT h m"
| "tailq_exec (InsertHead h x) m = TAILQ_INSERT_HEAD h x m"
| "tailq_exec (InsertTail h x) m = TAILQ_INSERT_TAIL h x m"
| "tailq_exec (InsertAfter h y x) m = TAILQ_INSERT_AFTER h y x m"
| "tailq_exec (InsertBefore h y x) m = TAILQ_INSERT_BEFORE y x m"
| "tailq_exec (Remove h x) m = TAILQ_REMOVE h x m"
| "tailq_exec (Concat h h') m = TAILQ_CONCAT h h' m"
| "tailq_exec _ m = None"

fun tailq_supports :: "qop \<Rightarrow> bool" where
  "tailq_supports (RemoveHead h) = False"
| "tailq_supports _ = True"

lemma TAILQ_INIT_law: "\<exists>m'. TAILQ_INIT h m = Some m' \<and> tailq_rep m' h [] \<and> agree (- foot h []) m m'"
  by (simp add: TAILQ_INIT_def rep_defs)

lemma TAILQ_INSERT_HEAD_law:
  assumes "tailq_rep m h xs" "distinct (x # xs)"
  shows "\<exists>m'. TAILQ_INSERT_HEAD h x m = Some m' \<and> tailq_rep m' h (x # xs) \<and> agree (- foot h (x # xs)) m m'"
  using assms by (cases xs) (auto simp: TAILQ_INSERT_HEAD_def rep_defs)

lemma TAILQ_INSERT_TAIL_law:
  assumes "tailq_rep m h xs" "distinct (x # xs)"
  shows "\<exists>m'. TAILQ_INSERT_TAIL h x m = Some m' \<and> tailq_rep m' h (xs @ [x]) \<and> agree (- foot h (xs @ [x])) m m'"
  using assms by (auto simp: TAILQ_INSERT_TAIL_def rep_defs)

lemma TAILQ_INSERT_AFTER_law:
  assumes "tailq_rep m h (as @ y # bs)" "distinct (x # as @ y # bs)"
  shows "\<exists>m'. TAILQ_INSERT_AFTER h y x m = Some m' \<and> tailq_rep m' h (as @ y # x # bs)
    \<and> agree (- foot h (as @ y # x # bs)) m m'"
  using assms by (cases bs) (auto simp: TAILQ_INSERT_AFTER_def rep_defs)

lemma TAILQ_INSERT_BEFORE_law:
  assumes "tailq_rep m h (as @ y # bs)" "distinct (x # as @ y # bs)"
  shows "\<exists>m'. TAILQ_INSERT_BEFORE y x m = Some m' \<and> tailq_rep m' h (as @ x # y # bs)
    \<and> agree (- foot h (as @ x # y # bs)) m m'"
  using assms by (auto simp: TAILQ_INSERT_BEFORE_def rep_defs)

lemma TAILQ_REMOVE_law:
  assumes "tailq_rep m h (as @ x # bs)" "distinct (as @ x # bs)"
  shows "\<exists>m'. TAILQ_REMOVE h x m = Some m' \<and> tailq_rep m' h (as @ bs) \<and> agree (- foot h (as @ x # bs)) m m'"
  using assms by (cases bs) (auto simp: TAILQ_REMOVE_def rep_defs)

lemma TAILQ_CONCAT_law:
  assumes "tailq_rep m h xs" "tailq_rep m h' ys" "h \<noteq> h'" "distinct (xs @ ys)"
  shows "\<exists>m'. TAILQ_CONCAT h h' m = Some m' \<and> tailq_rep m' h (xs @ ys) \<and> tailq_rep m' h' []
    \<and> agree (- (foot h xs \<union> foot h' ys)) m m'"
  using assms by (cases ys) (auto simp: TAILQ_CONCAT_def TAILQ_INIT_def TAILQ_EMPTY_def rep_defs)

interpretation tailq_macros: local_queue tailq_exec tailq_supports tailq_rep TAILQ_FOREACH agree
proof
  fix op h xs xs' m
  assume "tailq_supports op" "qlocal h op xs xs'" "distinct xs" "tailq_rep m h xs"
  from this(2,1,3,4) show "\<exists>m'. tailq_exec op m = Some m' \<and> tailq_rep m' h xs' \<and> agree (- (foot h xs \<union> foot h xs')) m m'"
    by (cases rule: qlocal_cases)
      (simp_all add: TAILQ_INSERT_HEAD_law TAILQ_INSERT_TAIL_law TAILQ_INSERT_AFTER_law
        TAILQ_INSERT_BEFORE_law TAILQ_REMOVE_law)
next
  show "tailq_rep m h xs \<Longrightarrow> TAILQ_FOREACH h m = Some xs" for m h xs
    by (simp add: TAILQ_FOREACH_def tailq_rep_def stailq_rep_def foreach_holds)
qed (auto simp: TAILQ_INIT_law TAILQ_CONCAT_law [simplified] intro: agree_mono agree_tailq)

end
