(* ===== verification/Queue_Circle.thy ===== *)
theory Queue_Circle
  imports Queue_Links
begin

text \<open>
  The circular queues of \<open>include/sys/queue.h\<close>. The pointers of a circular queue are addresses of
  elements or, cast to the type of an element, the address of the head: both are a \<open>qloc\<close>. Following the
  address of a head as if an element were there ends a macro with \<open>None\<close>.
\<close>

section \<open>The macros\<close>

text \<open>\<open>cqh_first\<close> and \<open>cqe_next\<close> are \<open>cq_next\<close>, \<open>cqh_last\<close> and \<open>cqe_prev\<close> are \<open>cq_prev\<close>.\<close>

record cmem =
  cq_next :: "qloc \<Rightarrow> qloc"
  cq_prev :: "qloc \<Rightarrow> qloc"

definition set_next :: "qloc \<Rightarrow> qloc \<Rightarrow> cmem \<Rightarrow> cmem" where
  "set_next l v m = m\<lparr>cq_next := (cq_next m)(l := v)\<rparr>"

definition set_prev :: "qloc \<Rightarrow> qloc \<Rightarrow> cmem \<Rightarrow> cmem" where
  "set_prev l v m = m\<lparr>cq_prev := (cq_prev m)(l := v)\<rparr>"

lemma cmem_simps [simp]:
  "cq_next (set_next l v m) k = (if k = l then v else cq_next m k)"
  "cq_prev (set_next l v m) = cq_prev m"
  "cq_prev (set_prev l v m) k = (if k = l then v else cq_prev m k)"
  "cq_next (set_prev l v m) = cq_next m"
  by (simp_all add: set_next_def set_prev_def)

fun elem :: "qloc \<Rightarrow> nat option" where
  "elem (Entry e) = Some e"
| "elem (Head h) = None"

definition CIRCLEQ_INIT :: "nat \<Rightarrow> cmem \<Rightarrow> cmem option" where
  "CIRCLEQ_INIT head m = do {
     let m = set_next (Head head) (Head head) m;
     Some (set_prev (Head head) (Head head) m)
   }"

definition CIRCLEQ_INSERT_AFTER :: "nat \<Rightarrow> nat \<Rightarrow> nat \<Rightarrow> cmem \<Rightarrow> cmem option" where
  "CIRCLEQ_INSERT_AFTER head listelm elm m = do {
     let m = set_next (Entry elm) (cq_next m (Entry listelm)) m;
     let m = set_prev (Entry elm) (Entry listelm) m;
     m \<leftarrow> (if cq_next m (Entry listelm) = Head head then Some (set_prev (Head head) (Entry elm) m)
           else do { n \<leftarrow> elem (cq_next m (Entry listelm)); Some (set_prev (Entry n) (Entry elm) m) });
     Some (set_next (Entry listelm) (Entry elm) m)
   }"

definition CIRCLEQ_INSERT_BEFORE :: "nat \<Rightarrow> nat \<Rightarrow> nat \<Rightarrow> cmem \<Rightarrow> cmem option" where
  "CIRCLEQ_INSERT_BEFORE head listelm elm m = do {
     let m = set_next (Entry elm) (Entry listelm) m;
     let m = set_prev (Entry elm) (cq_prev m (Entry listelm)) m;
     m \<leftarrow> (if cq_prev m (Entry listelm) = Head head then Some (set_next (Head head) (Entry elm) m)
           else do { p \<leftarrow> elem (cq_prev m (Entry listelm)); Some (set_next (Entry p) (Entry elm) m) });
     Some (set_prev (Entry listelm) (Entry elm) m)
   }"

definition CIRCLEQ_INSERT_HEAD :: "nat \<Rightarrow> nat \<Rightarrow> cmem \<Rightarrow> cmem option" where
  "CIRCLEQ_INSERT_HEAD head elm m = do {
     let m = set_next (Entry elm) (cq_next m (Head head)) m;
     let m = set_prev (Entry elm) (Head head) m;
     m \<leftarrow> (if cq_prev m (Head head) = Head head then Some (set_prev (Head head) (Entry elm) m)
           else do { f \<leftarrow> elem (cq_next m (Head head)); Some (set_prev (Entry f) (Entry elm) m) });
     Some (set_next (Head head) (Entry elm) m)
   }"

definition CIRCLEQ_INSERT_TAIL :: "nat \<Rightarrow> nat \<Rightarrow> cmem \<Rightarrow> cmem option" where
  "CIRCLEQ_INSERT_TAIL head elm m = do {
     let m = set_next (Entry elm) (Head head) m;
     let m = set_prev (Entry elm) (cq_prev m (Head head)) m;
     m \<leftarrow> (if cq_next m (Head head) = Head head then Some (set_next (Head head) (Entry elm) m)
           else do { l \<leftarrow> elem (cq_prev m (Head head)); Some (set_next (Entry l) (Entry elm) m) });
     Some (set_prev (Head head) (Entry elm) m)
   }"

definition CIRCLEQ_REMOVE :: "nat \<Rightarrow> nat \<Rightarrow> cmem \<Rightarrow> cmem option" where
  "CIRCLEQ_REMOVE head elm m = do {
     m \<leftarrow> (if cq_next m (Entry elm) = Head head then Some (set_prev (Head head) (cq_prev m (Entry elm)) m)
           else do { n \<leftarrow> elem (cq_next m (Entry elm)); Some (set_prev (Entry n) (cq_prev m (Entry elm)) m) });
     if cq_prev m (Entry elm) = Head head then Some (set_next (Head head) (cq_next m (Entry elm)) m)
     else do { p \<leftarrow> elem (cq_prev m (Entry elm)); Some (set_next (Entry p) (cq_next m (Entry elm)) m) }
   }"

partial_function (option) cforeach :: "nat \<Rightarrow> (qloc \<Rightarrow> qloc) \<Rightarrow> qloc \<Rightarrow> nat list option" where
  "cforeach head adv var =
     (if var \<noteq> Head head then do { e \<leftarrow> elem var; es \<leftarrow> cforeach head adv (adv (Entry e)); Some (e # es) }
      else Some [])"

definition CIRCLEQ_FOREACH :: "nat \<Rightarrow> cmem \<Rightarrow> nat list option" where
  "CIRCLEQ_FOREACH head m = cforeach head (cq_next m) (cq_next m (Head head))"

definition CIRCLEQ_FOREACH_REVERSE :: "nat \<Rightarrow> cmem \<Rightarrow> nat list option" where
  "CIRCLEQ_FOREACH_REVERSE head m = cforeach head (cq_prev m) (cq_prev m (Head head))"

definition CIRCLEQ_EMPTY :: "nat \<Rightarrow> cmem \<Rightarrow> bool" where
  "CIRCLEQ_EMPTY head m \<longleftrightarrow> cq_next m (Head head) = Head head"

definition CIRCLEQ_FIRST :: "nat \<Rightarrow> cmem \<Rightarrow> qloc" where
  "CIRCLEQ_FIRST head m = cq_next m (Head head)"

definition CIRCLEQ_LAST :: "nat \<Rightarrow> cmem \<Rightarrow> qloc" where
  "CIRCLEQ_LAST head m = cq_prev m (Head head)"

definition CIRCLEQ_NEXT :: "nat \<Rightarrow> cmem \<Rightarrow> qloc" where
  "CIRCLEQ_NEXT elm m = cq_next m (Entry elm)"

definition CIRCLEQ_PREV :: "nat \<Rightarrow> cmem \<Rightarrow> qloc" where
  "CIRCLEQ_PREV elm m = cq_prev m (Entry elm)"

definition CIRCLEQ_LOOP_NEXT :: "nat \<Rightarrow> nat \<Rightarrow> cmem \<Rightarrow> qloc" where
  "CIRCLEQ_LOOP_NEXT head elm m =
     (if cq_next m (Entry elm) = Head head then cq_next m (Head head) else cq_next m (Entry elm))"

definition CIRCLEQ_LOOP_PREV :: "nat \<Rightarrow> nat \<Rightarrow> cmem \<Rightarrow> qloc" where
  "CIRCLEQ_LOOP_PREV head elm m =
     (if cq_prev m (Entry elm) = Head head then cq_prev m (Head head) else cq_prev m (Entry elm))"

section \<open>Rings\<close>

fun ring :: "cmem \<Rightarrow> qloc \<Rightarrow> nat list \<Rightarrow> qloc \<Rightarrow> bool" where
  "ring m l [] e \<longleftrightarrow> cq_next m l = e \<and> cq_prev m e = l"
| "ring m l (x # xs) e \<longleftrightarrow> cq_next m l = Entry x \<and> cq_prev m (Entry x) = l \<and> ring m (Entry x) xs e"

definition circleq_rep :: "cmem \<Rightarrow> nat \<Rightarrow> nat list \<Rightarrow> bool" where
  "circleq_rep m h xs \<longleftrightarrow> ring m (Head h) xs (Head h)"

lemma ring_append [simp]: "ring m l (xs @ y # ys) e \<longleftrightarrow> ring m l xs (Entry y) \<and> ring m (Entry y) ys e"
  by (induction xs arbitrary: l) auto

lemma ring_set_next [simp]:
  "k \<noteq> l \<Longrightarrow> k \<notin> Entry ` set xs \<Longrightarrow> ring (set_next k v m) l xs e \<longleftrightarrow> ring m l xs e"
  by (induction xs arbitrary: l) auto

lemma ring_set_prev [simp]:
  "k \<noteq> e \<Longrightarrow> k \<notin> Entry ` set xs \<Longrightarrow> ring (set_prev k v m) l xs e \<longleftrightarrow> ring m l xs e"
  by (induction xs arbitrary: l) auto

definition cagree :: "qloc set \<Rightarrow> cmem \<Rightarrow> cmem \<Rightarrow> bool" where
  "cagree S m m' \<longleftrightarrow> (\<forall>l \<in> S. cq_next m l = cq_next m' l \<and> cq_prev m l = cq_prev m' l)"

lemma cagree_mono: "cagree S m m' \<Longrightarrow> T \<subseteq> S \<Longrightarrow> cagree T m m'"
  unfolding cagree_def by blast

lemma cagree_refl [simp]: "cagree S m m"
  by (simp add: cagree_def)

lemma cagree_set_next [simp]: "l \<notin> S \<Longrightarrow> cagree S m (set_next l v m') \<longleftrightarrow> cagree S m m'"
  by (auto simp: cagree_def)

lemma cagree_set_prev [simp]: "l \<notin> S \<Longrightarrow> cagree S m (set_prev l v m') \<longleftrightarrow> cagree S m m'"
  by (auto simp: cagree_def)

lemma cagree_ring:
  "cagree (insert l (insert e (Entry ` set xs))) m m' \<Longrightarrow> ring m l xs e \<Longrightarrow> ring m' l xs e"
  by (induction xs arbitrary: l) (auto simp: cagree_def)

lemma cagree_circleq: "circleq_rep m h xs \<Longrightarrow> cagree (foot h xs) m m' \<Longrightarrow> circleq_rep m' h xs"
  using cagree_ring [of "Head h" "Head h" xs m m'] by (simp add: circleq_rep_def foot_def)

lemma cforeach_ring:
  "ring m l xs (Head h) \<Longrightarrow> cforeach h (cq_next m) (cq_next m l) = Some xs"
proof (induction xs arbitrary: l)
  case Nil
  then show ?case by (simp add: cforeach.simps)
next
  case (Cons x xs)
  then have "cforeach h (cq_next m) (cq_next m (Entry x)) = Some xs" by simp
  then show ?case using Cons.prems by (subst cforeach.simps) simp
qed

lemma cforeach_ring_reverse:
  "ring m (Head h) xs e \<Longrightarrow> cforeach h (cq_prev m) (cq_prev m e) = Some (rev xs)"
proof (induction xs arbitrary: e rule: rev_induct)
  case Nil
  then show ?case by (simp add: cforeach.simps)
next
  case (snoc x xs)
  then have "cforeach h (cq_prev m) (cq_prev m (Entry x)) = Some (rev xs)" by simp
  then show ?case using snoc.prems by (subst cforeach.simps) simp
qed

section \<open>Laws\<close>

fun circleq_exec :: "qop \<Rightarrow> cmem \<Rightarrow> cmem option" where
  "circleq_exec (Init h) m = CIRCLEQ_INIT h m"
| "circleq_exec (InsertHead h x) m = CIRCLEQ_INSERT_HEAD h x m"
| "circleq_exec (InsertTail h x) m = CIRCLEQ_INSERT_TAIL h x m"
| "circleq_exec (InsertAfter h y x) m = CIRCLEQ_INSERT_AFTER h y x m"
| "circleq_exec (InsertBefore h y x) m = CIRCLEQ_INSERT_BEFORE h y x m"
| "circleq_exec (Remove h x) m = CIRCLEQ_REMOVE h x m"
| "circleq_exec _ m = None"

fun circleq_supports :: "qop \<Rightarrow> bool" where
  "circleq_supports (RemoveHead h) = False"
| "circleq_supports (Concat h h') = False"
| "circleq_supports _ = True"

lemma CIRCLEQ_INIT_law: "\<exists>m'. CIRCLEQ_INIT h m = Some m' \<and> circleq_rep m' h [] \<and> cagree (- foot h []) m m'"
  by (simp add: CIRCLEQ_INIT_def circleq_rep_def)

lemma CIRCLEQ_INSERT_HEAD_law:
  assumes "circleq_rep m h xs" "distinct (x # xs)"
  shows "\<exists>m'. CIRCLEQ_INSERT_HEAD h x m = Some m' \<and> circleq_rep m' h (x # xs) \<and> cagree (- foot h (x # xs)) m m'"
proof (cases xs rule: rev_cases)
  case Nil
  then show ?thesis using assms by (auto simp: CIRCLEQ_INSERT_HEAD_def circleq_rep_def)
next
  case (snoc ys z)
  then show ?thesis using assms by (cases ys) (auto simp: CIRCLEQ_INSERT_HEAD_def circleq_rep_def)
qed

lemma CIRCLEQ_INSERT_TAIL_law:
  assumes "circleq_rep m h xs" "distinct (x # xs)"
  shows "\<exists>m'. CIRCLEQ_INSERT_TAIL h x m = Some m' \<and> circleq_rep m' h (xs @ [x]) \<and> cagree (- foot h (xs @ [x])) m m'"
proof (cases xs rule: rev_cases)
  case Nil
  then show ?thesis using assms by (auto simp: CIRCLEQ_INSERT_TAIL_def circleq_rep_def)
next
  case (snoc ys z)
  then show ?thesis using assms by (cases ys) (auto simp: CIRCLEQ_INSERT_TAIL_def circleq_rep_def)
qed

lemma CIRCLEQ_INSERT_AFTER_law:
  assumes "circleq_rep m h (as @ y # bs)" "distinct (x # as @ y # bs)"
  shows "\<exists>m'. CIRCLEQ_INSERT_AFTER h y x m = Some m' \<and> circleq_rep m' h (as @ y # x # bs)
    \<and> cagree (- foot h (as @ y # x # bs)) m m'"
  using assms by (cases bs) (auto simp: CIRCLEQ_INSERT_AFTER_def circleq_rep_def)

lemma CIRCLEQ_INSERT_BEFORE_law:
  assumes "circleq_rep m h (as @ y # bs)" "distinct (x # as @ y # bs)"
  shows "\<exists>m'. CIRCLEQ_INSERT_BEFORE h y x m = Some m' \<and> circleq_rep m' h (as @ x # y # bs)
    \<and> cagree (- foot h (as @ x # y # bs)) m m'"
  using assms by (cases as rule: rev_cases) (auto simp: CIRCLEQ_INSERT_BEFORE_def circleq_rep_def)

lemma CIRCLEQ_REMOVE_law:
  assumes "circleq_rep m h (as @ x # bs)" "distinct (as @ x # bs)"
  shows "\<exists>m'. CIRCLEQ_REMOVE h x m = Some m' \<and> circleq_rep m' h (as @ bs) \<and> cagree (- foot h (as @ x # bs)) m m'"
  using assms by (cases as rule: rev_cases; cases bs) (auto simp: CIRCLEQ_REMOVE_def circleq_rep_def)

interpretation circleq_macros: local_queue circleq_exec circleq_supports circleq_rep CIRCLEQ_FOREACH cagree
proof
  fix op h xs xs' m
  assume "circleq_supports op" "qlocal h op xs xs'" "distinct xs" "circleq_rep m h xs"
  from this(2,1,3,4) show "\<exists>m'. circleq_exec op m = Some m' \<and> circleq_rep m' h xs' \<and> cagree (- (foot h xs \<union> foot h xs')) m m'"
    by (cases rule: qlocal_cases)
      (simp_all add: CIRCLEQ_INSERT_HEAD_law CIRCLEQ_INSERT_TAIL_law CIRCLEQ_INSERT_AFTER_law
        CIRCLEQ_INSERT_BEFORE_law CIRCLEQ_REMOVE_law)
next
  show "circleq_rep m h xs \<Longrightarrow> CIRCLEQ_FOREACH h m = Some xs" for m h xs
    by (simp add: CIRCLEQ_FOREACH_def circleq_rep_def cforeach_ring)
qed (auto simp: CIRCLEQ_INIT_law intro: cagree_mono cagree_circleq)

end
