(* ===== verification/Queue_Props.thy ===== *)
theory Queue_Props
  imports Queue_Circle
begin

text \<open>
  The theorems about \<open>include/sys/queue.h\<close>: any sequence of macros that follows the rules of use runs
  without following a null pointer, from memory of any content, and leaves in every head the list
  that it should, as the traversals and the access macros see it.
\<close>

section \<open>Access\<close>

lemma word_head: "links m l xs \<Longrightarrow> word_at m (endl l xs) = None \<Longrightarrow> word_at m l = (if xs = [] then None else Some (hd xs))"
  by (cases xs) simp_all

lemma holds_first: "chain_rep m h xs \<Longrightarrow> word_at m (Head h) = (if xs = [] then None else Some (hd xs))"
  by (simp add: chain_rep_def word_head)

lemma tailq_last:
  assumes "tailq_rep m h xs"
  shows "TAILQ_LAST h m = (if xs = [] then None else Some (last xs))"
  using assms by (cases xs rule: rev_cases) (auto simp: TAILQ_LAST_def rep_defs)

lemma tailq_reverse: "tailq_rep m h xs \<Longrightarrow> TAILQ_FOREACH_REVERSE h m = Some (rev xs)"
proof (cases xs)
  case Nil
  assume "tailq_rep m h xs"
  then show ?thesis using Nil by (simp add: TAILQ_FOREACH_REVERSE_def rep_defs foreach_reverse.simps)
next
  case (Cons y ys)
  assume "tailq_rep m h xs"
  then show ?thesis using Cons reverse_backs [of m "Head h" y ys]
    by (simp add: TAILQ_FOREACH_REVERSE_def rep_defs)
qed

lemma tailq_neighbours:
  assumes "tailq_rep m h (as @ x # y # bs)"
  shows "TAILQ_NEXT x m = Some y" "TAILQ_PREV y m = Some x"
  using assms by (auto simp: TAILQ_NEXT_def TAILQ_PREV_def rep_defs)

lemma circleq_ends:
  assumes "circleq_rep m h xs"
  shows "CIRCLEQ_FIRST h m = (if xs = [] then Head h else Entry (hd xs))"
    "CIRCLEQ_LAST h m = (if xs = [] then Head h else Entry (last xs))"
proof -
  show "CIRCLEQ_FIRST h m = (if xs = [] then Head h else Entry (hd xs))"
    using assms by (cases xs) (auto simp: CIRCLEQ_FIRST_def circleq_rep_def)
  show "CIRCLEQ_LAST h m = (if xs = [] then Head h else Entry (last xs))"
    using assms by (cases xs rule: rev_cases) (auto simp: CIRCLEQ_LAST_def circleq_rep_def)
qed

text \<open>Going round: behind the last element comes the first.\<close>

lemma circleq_loop_next:
  assumes "circleq_rep m h xs" "i < length xs" "distinct xs"
  shows "CIRCLEQ_LOOP_NEXT h (xs ! i) m = Entry (xs ! (Suc i mod length xs))"
proof -
  have xs: "xs = take i xs @ xs ! i # drop (Suc i) xs" using assms(2) by (rule id_take_nth_drop)
  then have r: "ring m (Entry (xs ! i)) (drop (Suc i) xs) (Head h)"
    using assms(1) ring_append [of m "Head h" "take i xs" "xs ! i" "drop (Suc i) xs" "Head h"]
    by (simp add: circleq_rep_def)
  show ?thesis
  proof (cases "Suc i < length xs")
    case True
    then have "drop (Suc i) xs = xs ! Suc i # drop (Suc (Suc i)) xs" by (simp add: Cons_nth_drop_Suc)
    with r True show ?thesis by (simp add: CIRCLEQ_LOOP_NEXT_def)
  next
    case False
    with assms(2) have len: "length xs = Suc i" by simp
    then have "xs \<noteq> []" by auto
    moreover have "cq_next m (Head h) = Entry (hd xs)"
      using circleq_ends(1) [OF assms(1)] \<open>xs \<noteq> []\<close> by (simp add: CIRCLEQ_FIRST_def)
    ultimately show ?thesis using r len by (simp add: CIRCLEQ_LOOP_NEXT_def hd_conv_nth)
  qed
qed

section \<open>Steps for examples\<close>

lemma off_queues_upd [simp]: "off_queues Map.empty x"
  "off_queues Q x \<Longrightarrow> x \<notin> set xs \<Longrightarrow> off_queues (Q(h \<mapsto> xs)) x"
  by (auto simp: off_queues_def split: if_splits)

lemma split_at: "y \<in> set xs \<Longrightarrow> xs = takeWhile (\<lambda>z. z \<noteq> y) xs @ y # tl (dropWhile (\<lambda>z. z \<noteq> y) xs)"
  by (induction xs) auto

lemma off_queues_on: "off_queues Q x \<Longrightarrow> Q h = Some xs \<Longrightarrow> x \<notin> set xs"
  by (simp add: off_queues_def)

lemma qstep_head: "Q h = Some xs \<Longrightarrow> off_queues Q x \<Longrightarrow> queue_step Q (InsertHead h x) (Q(h \<mapsto> x # xs))"
  by (rule qs_local [of Q h xs]) (auto intro: qlocal.intros dest: off_queues_on)

lemma qstep_tail: "Q h = Some xs \<Longrightarrow> off_queues Q x \<Longrightarrow> queue_step Q (InsertTail h x) (Q(h \<mapsto> xs @ [x]))"
  by (rule qs_local [of Q h xs]) (auto intro: qlocal.intros dest: off_queues_on)

lemma qstep_pop: "Q h = Some (x # xs) \<Longrightarrow> queue_step Q (RemoveHead h) (Q(h \<mapsto> xs))"
  by (rule qs_local [of Q h "x # xs"]) (auto intro: qlocal.intros)

lemma qstep_before:
  assumes "Q h = Some xs" "y \<in> set xs" "off_queues Q x"
  shows "queue_step Q (InsertBefore h y x) (Q(h \<mapsto> takeWhile (\<lambda>z. z \<noteq> y) xs @ x # y # tl (dropWhile (\<lambda>z. z \<noteq> y) xs)))"
proof -
  note xs = split_at [OF assms(2)]
  have "x \<notin> set xs" by (rule off_queues_on [OF assms(3,1)])
  then have "qlocal h (InsertBefore h y x) xs (takeWhile (\<lambda>z. z \<noteq> y) xs @ x # y # tl (dropWhile (\<lambda>z. z \<noteq> y) xs))"
    using qlocal.intros(4) [of x "takeWhile (\<lambda>z. z \<noteq> y) xs" y "tl (dropWhile (\<lambda>z. z \<noteq> y) xs)" h] xs by simp
  then show ?thesis
  proof (rule qs_local [of Q h xs, OF assms(1)])
    fix z assume "z \<in> set (takeWhile (\<lambda>z. z \<noteq> y) xs @ x # y # tl (dropWhile (\<lambda>z. z \<noteq> y) xs)) - set xs"
    then have "z = x" using arg_cong [OF xs, of set] by auto
    then show "off_queues Q z" using assms(3) by simp
  qed
qed

lemma qstep_after:
  assumes "Q h = Some xs" "y \<in> set xs" "off_queues Q x"
  shows "queue_step Q (InsertAfter h y x) (Q(h \<mapsto> takeWhile (\<lambda>z. z \<noteq> y) xs @ y # x # tl (dropWhile (\<lambda>z. z \<noteq> y) xs)))"
proof -
  note xs = split_at [OF assms(2)]
  have "x \<notin> set xs" by (rule off_queues_on [OF assms(3,1)])
  then have "qlocal h (InsertAfter h y x) xs (takeWhile (\<lambda>z. z \<noteq> y) xs @ y # x # tl (dropWhile (\<lambda>z. z \<noteq> y) xs))"
    using qlocal.intros(3) [of x "takeWhile (\<lambda>z. z \<noteq> y) xs" y "tl (dropWhile (\<lambda>z. z \<noteq> y) xs)" h] xs by simp
  then show ?thesis
  proof (rule qs_local [of Q h xs, OF assms(1)])
    fix z assume "z \<in> set (takeWhile (\<lambda>z. z \<noteq> y) xs @ y # x # tl (dropWhile (\<lambda>z. z \<noteq> y) xs)) - set xs"
    then have "z = x" using arg_cong [OF xs, of set] by auto
    then show "off_queues Q z" using assms(3) by simp
  qed
qed

lemma qstep_remove:
  assumes "Q h = Some xs" "x \<in> set xs"
  shows "queue_step Q (Remove h x) (Q(h \<mapsto> takeWhile (\<lambda>z. z \<noteq> x) xs @ tl (dropWhile (\<lambda>z. z \<noteq> x) xs)))"
proof -
  note xs = split_at [OF assms(2)]
  have "qlocal h (Remove h x) xs (takeWhile (\<lambda>z. z \<noteq> x) xs @ tl (dropWhile (\<lambda>z. z \<noteq> x) xs))"
    using qlocal.intros(6) [of h x "takeWhile (\<lambda>z. z \<noteq> x) xs" "tl (dropWhile (\<lambda>z. z \<noteq> x) xs)"] xs by simp
  then show ?thesis
    by (rule qs_local [of Q h xs, OF assms(1)]) (use arg_cong [OF xs, of set] in auto)
qed

lemma qruns_end: "Q = Q' \<Longrightarrow> qruns Q [] Q'"
  by (simp add: qr_nil)

text \<open>Memory before any macro has run, for the examples.\<close>

definition garbage :: qmem where
  "garbage = \<lparr>word_at = (\<lambda>_. Some 3), addr_at = (\<lambda>_. Entry 3)\<rparr>"

lemmas qstep_rules = qs_init qs_concat qstep_head qstep_tail qstep_pop qstep_before qstep_after qstep_remove

lemma qruns_wf: "qruns Q ops Q' \<Longrightarrow> qwf Q \<Longrightarrow> qwf Q'"
  by (induction rule: qruns.induct) (auto intro: qwf_step)

lemma search_misses:
  assumes "chain_rep m h xs" "x \<notin> set xs"
  shows "word_at m (Head h) \<noteq> Some x" "before_elm m x (word_at m (Head h)) = None"
proof -
  have "before_elm m x (word_at m l) = None"
    if "links m l ys" "word_at m (endl l ys) = None" "x \<notin> set ys" for l ys
    using that
  proof (induction ys arbitrary: l)
    case Nil
    then show ?case by (simp add: before_elm.simps)
  next
    case (Cons y ys)
    then have "before_elm m x (word_at m (Entry y)) = None" by simp
    moreover have "word_at m (Entry y) \<noteq> Some x" using Cons.prems by (cases ys) auto
    ultimately show ?case using Cons.prems by (subst before_elm.simps) simp
  qed
  then show "before_elm m x (word_at m (Head h)) = None" using assms unfolding chain_rep_def by blast
  show "word_at m (Head h) \<noteq> Some x" using assms by (cases xs) (auto simp: chain_rep_def)
qed

section \<open>Theorems\<close>

text \<open>
  (C12) Tail queues follow the abstract queues: from memory of any content, a sequence of tail queue macros
  that obeys the rules of use (an element is inserted only when it is on no queue, and named as a
  neighbour or removed only where it is) runs to its end. Then for every head in use the forward
  traversal gives the list, the reverse one its reverse, and first, last and empty are those of the list.
\<close>

theorem tailq_follows:
  assumes "qruns Map.empty ops Q" "list_all tailq_supports ops"
  shows "\<exists>m'. run_ops tailq_exec ops m = Some m' \<and> (\<forall>h xs. Q h = Some xs \<longrightarrow>
    TAILQ_FOREACH h m' = Some xs \<and> TAILQ_FOREACH_REVERSE h m' = Some (rev xs)
    \<and> (TAILQ_EMPTY h m' \<longleftrightarrow> xs = []) \<and> TAILQ_FIRST h m' = (if xs = [] then None else Some (hd xs))
    \<and> TAILQ_LAST h m' = (if xs = [] then None else Some (last xs)))"
proof -
  obtain m' where m': "run_ops tailq_exec ops m = Some m'"
    "\<And>h xs. Q h = Some xs \<Longrightarrow> tailq_rep m' h xs \<and> TAILQ_FOREACH h m' = Some xs"
    using tailq_macros.run_correct [OF assms, of m] by blast
  have "TAILQ_FOREACH h m' = Some xs \<and> TAILQ_FOREACH_REVERSE h m' = Some (rev xs)
    \<and> (TAILQ_EMPTY h m' \<longleftrightarrow> xs = []) \<and> TAILQ_FIRST h m' = (if xs = [] then None else Some (hd xs))
    \<and> TAILQ_LAST h m' = (if xs = [] then None else Some (last xs))" if "Q h = Some xs" for h xs
  proof -
    have "tailq_rep m' h xs" "TAILQ_FOREACH h m' = Some xs" using m'(2) [OF that] by simp_all
    moreover from this have "chain_rep m' h xs" by (simp add: tailq_rep_def stailq_rep_def)
    ultimately show ?thesis
      by (simp add: tailq_reverse tailq_last TAILQ_EMPTY_def TAILQ_FIRST_def holds_first)
  qed
  with m'(1) show ?thesis by blast
qed

theorem tailq_follows_witness:
  "\<exists>m'. run_ops tailq_exec
      [Init 0, InsertTail 0 5, InsertHead 0 7, Init 1, InsertTail 1 9, InsertBefore 0 5 6, Concat 0 1, Remove 0 7] garbage
      = Some m'
    \<and> TAILQ_FOREACH_REVERSE 0 m' = Some [9, 5, 6] \<and> TAILQ_EMPTY 1 m'"
proof -
  have "qruns Map.empty [Init 0, InsertTail 0 5, InsertHead 0 7, Init 1, InsertTail 1 9, InsertBefore 0 5 6, Concat 0 1, Remove 0 7]
      [0 \<mapsto> [6, 5, 9], 1 \<mapsto> []]"
    by (rule qr_cons qstep_rules | simp)+ (rule qruns_end, auto)
  from tailq_follows [OF this, of garbage] show ?thesis by auto
qed


text \<open>
  (C16) Circular queues follow the abstract queues in the same way, and their traversals end in both
  directions, at the head they started from.
\<close>

theorem circleq_follows:
  assumes "qruns Map.empty ops Q" "list_all circleq_supports ops"
  shows "\<exists>m'. run_ops circleq_exec ops m = Some m' \<and> (\<forall>h xs. Q h = Some xs \<longrightarrow>
    CIRCLEQ_FOREACH h m' = Some xs \<and> CIRCLEQ_FOREACH_REVERSE h m' = Some (rev xs)
    \<and> (CIRCLEQ_EMPTY h m' \<longleftrightarrow> xs = [])
    \<and> CIRCLEQ_FIRST h m' = (if xs = [] then Head h else Entry (hd xs))
    \<and> CIRCLEQ_LAST h m' = (if xs = [] then Head h else Entry (last xs))
    \<and> (\<forall>i < length xs. CIRCLEQ_LOOP_NEXT h (xs ! i) m' = Entry (xs ! (Suc i mod length xs))))"
proof -
  obtain m' where m': "run_ops circleq_exec ops m = Some m'"
    "\<And>h xs. Q h = Some xs \<Longrightarrow> circleq_rep m' h xs \<and> CIRCLEQ_FOREACH h m' = Some xs"
    using circleq_macros.run_correct [OF assms, of m] by blast
  have dist: "distinct xs" if "Q h = Some xs" for h xs
    by (rule qwf_distinct [OF qruns_wf [OF assms(1) qwf_empty] that])
  have "CIRCLEQ_FOREACH h m' = Some xs \<and> CIRCLEQ_FOREACH_REVERSE h m' = Some (rev xs)
    \<and> (CIRCLEQ_EMPTY h m' \<longleftrightarrow> xs = [])
    \<and> CIRCLEQ_FIRST h m' = (if xs = [] then Head h else Entry (hd xs))
    \<and> CIRCLEQ_LAST h m' = (if xs = [] then Head h else Entry (last xs))
    \<and> (\<forall>i < length xs. CIRCLEQ_LOOP_NEXT h (xs ! i) m' = Entry (xs ! (Suc i mod length xs)))"
    if "Q h = Some xs" for h xs
  proof -
    have r: "circleq_rep m' h xs" "CIRCLEQ_FOREACH h m' = Some xs" using m'(2) [OF that] by simp_all
    have "CIRCLEQ_FOREACH_REVERSE h m' = Some (rev xs)"
      using r(1) by (simp add: CIRCLEQ_FOREACH_REVERSE_def circleq_rep_def cforeach_ring_reverse)
    moreover have "CIRCLEQ_EMPTY h m' \<longleftrightarrow> CIRCLEQ_FIRST h m' = Head h"
      by (simp add: CIRCLEQ_EMPTY_def CIRCLEQ_FIRST_def)
    ultimately show ?thesis
      using r circleq_ends [OF r(1)] circleq_loop_next [OF r(1) _ dist [OF that]] by simp
  qed
  with m'(1) show ?thesis by blast
qed

theorem circleq_follows_witness:
  "\<exists>m'. run_ops circleq_exec [Init 0, InsertTail 0 5, InsertHead 0 7, InsertAfter 0 7 6, Remove 0 5]
      \<lparr>cq_next = (\<lambda>_. Entry 3), cq_prev = (\<lambda>_. Head 8)\<rparr> = Some m'
    \<and> CIRCLEQ_FOREACH_REVERSE 0 m' = Some [6, 7]"
proof -
  have "qruns Map.empty [Init 0, InsertTail 0 5, InsertHead 0 7, InsertAfter 0 7 6, Remove 0 5] [0 \<mapsto> [7, 6]]"
    by (rule qr_cons qstep_rules | simp)+ (rule qruns_end, auto)
  from circleq_follows [OF this, of "\<lparr>cq_next = (\<lambda>_. Entry 3), cq_prev = (\<lambda>_. Head 8)\<rparr>"]
  show ?thesis by auto
qed

text \<open>
  (C29) Lists and singly linked lists follow the abstract queues: sequences of their macros that obey the rules of
  use run to their end, and the traversal of every head gives its list.
\<close>

theorem lists_follow:
  assumes "qruns Map.empty ops Q"
  shows "(list_all list_supports ops \<longrightarrow> (\<exists>m'. run_ops list_exec ops m = Some m'
      \<and> (\<forall>h xs. Q h = Some xs \<longrightarrow> LIST_FOREACH h m' = Some xs)))
    \<and> (list_all slist_supports ops \<longrightarrow> (\<exists>m'. run_ops slist_exec ops m = Some m'
      \<and> (\<forall>h xs. Q h = Some xs \<longrightarrow> SLIST_FOREACH h m' = Some xs)))"
  using list_macros.run_correct [OF assms, of m] slist_macros.run_correct [OF assms, of m] by blast

theorem lists_follow_witness:
  "(\<exists>m'. run_ops list_exec [Init 0, InsertHead 0 5, InsertAfter 0 5 6, Remove 0 5] garbage = Some m'
      \<and> LIST_FOREACH 0 m' = Some [6])
   \<and> (\<exists>m'. run_ops slist_exec [Init 0, InsertHead 0 5, InsertAfter 0 5 6, Remove 0 5] garbage = Some m'
      \<and> SLIST_FOREACH 0 m' = Some [6])"
proof -
  have "qruns Map.empty [Init 0, InsertHead 0 5, InsertAfter 0 5 6, Remove 0 5] [0 \<mapsto> [6]]"
    by (rule qr_cons qstep_rules | simp)+ (rule qruns_end, auto)
  from lists_follow [OF this, of garbage] show ?thesis by auto
qed

text \<open>
  Singly linked tail queues follow the abstract queues, and simple queues are the same thing: a
  sequence of the macros that both have leaves the same memory with either family.
\<close>

theorem stailq_follows:
  assumes "qruns Map.empty ops Q" "list_all stailq_supports ops"
  shows "\<exists>m'. run_ops stailq_exec ops m = Some m' \<and> (\<forall>h xs. Q h = Some xs \<longrightarrow> STAILQ_FOREACH h m' = Some xs)
    \<and> (list_all simpleq_supports ops \<longrightarrow> run_ops simpleq_exec ops m = Some m')"
proof -
  have "list_all simpleq_supports ops \<Longrightarrow> run_ops simpleq_exec ops m = run_ops stailq_exec ops m"
    by (induction ops arbitrary: m) (auto simp: simpleq_exec_stailq bind_eq_None_conv split: bind_split)
  then show ?thesis using stailq_macros.run_correct [OF assms, of m] by auto
qed

theorem stailq_follows_witness:
  "\<exists>m'. run_ops stailq_exec [Init 0, InsertTail 0 5, InsertTail 0 6, RemoveHead 0] garbage = Some m'
    \<and> STAILQ_FOREACH 0 m' = Some [6]"
proof -
  have "qruns Map.empty [Init 0, InsertTail 0 5, InsertTail 0 6, RemoveHead 0] [0 \<mapsto> [6]]"
    by (rule qr_cons qstep_rules | simp)+ (rule qruns_end, auto)
  from stailq_follows [OF this, of garbage] show ?thesis by auto
qed

text \<open>
  The removals that search for their element return exactly when it is on the list: otherwise the
  search runs past the end and follows the null pointer there.
\<close>

theorem search_removal_returns:
  assumes "stailq_rep m h xs" "distinct xs"
  shows "(SLIST_REMOVE h x m \<noteq> None \<longleftrightarrow> x \<in> set xs) \<and> (STAILQ_REMOVE h x m \<noteq> None \<longleftrightarrow> x \<in> set xs)
    \<and> (SIMPLEQ_REMOVE h x m \<noteq> None \<longleftrightarrow> x \<in> set xs)"
proof (cases "x \<in> set xs")
  case True
  from split_list [OF True] obtain as bs where xs: "xs = as @ x # bs" by blast
  moreover have "chain_rep m h xs" using assms(1) by (simp add: stailq_rep_def)
  ultimately show ?thesis
    using SLIST_REMOVE_law [of m h as x bs] STAILQ_REMOVE_law [of m h as x bs] assms True
    by (auto simp: SIMPLEQ_REMOVE_stailq)
next
  case False
  moreover have "chain_rep m h xs" using assms(1) by (simp add: stailq_rep_def)
  ultimately show ?thesis
    using search_misses [of m h xs x] by (simp add: SLIST_REMOVE_def STAILQ_REMOVE_def SIMPLEQ_REMOVE_stailq)
qed

theorem search_removal_returns_witness:
  "SLIST_REMOVE 0 7 \<lparr>word_at = [Head 0 \<mapsto> 5], addr_at = (\<lambda>_. Entry 5)\<rparr> = None
   \<and> SLIST_REMOVE 0 5 \<lparr>word_at = [Head 0 \<mapsto> 5], addr_at = (\<lambda>_. Entry 5)\<rparr> \<noteq> None"
proof -
  have "stailq_rep \<lparr>word_at = [Head 0 \<mapsto> 5], addr_at = (\<lambda>_. Entry 5)\<rparr> 0 [5]" by (simp add: rep_defs)
  from search_removal_returns [OF this, of 7] search_removal_returns [OF this, of 5] show ?thesis by simp
qed

end
