(* ===== verification/Netlink.thy ===== *)
theory Netlink
  imports Tipc Virtio
begin

unbundle bit_operations_syntax

text \<open>
  The macros of \<open>include/linux/netlink.h\<close> and \<open>include/linux/rtnetlink.h\<close> that go through messages, attributes and
  next hops in a buffer. Memory is as in \<open>Tipc\<close>; the fields are in the byte order of the host, which is
  little endian. Remaining lengths are an \<open>int\<close>, from which the macros subtract unsigned numbers.
\<close>

section \<open>Fields\<close>

definition load_u16 :: "mem \<Rightarrow> nat \<Rightarrow> u16 option" where
  "load_u16 m p = do { bs \<leftarrow> rd_mem m p 2; Some (ucast (bs ! 0) OR push_bit 8 (ucast (bs ! 1))) }"

definition load_u32 :: "mem \<Rightarrow> nat \<Rightarrow> u32 option" where
  "load_u32 m p = do {
     bs \<leftarrow> rd_mem m p 4;
     Some (ucast (bs ! 0) OR push_bit 8 (ucast (bs ! 1)) OR push_bit 16 (ucast (bs ! 2)) OR push_bit 24 (ucast (bs ! 3)))
   }"

text \<open>\<open>len -= a\<close> for an \<open>int\<close> and an \<open>unsigned int\<close>.\<close>

definition sub_int :: "int \<Rightarrow> u32 \<Rightarrow> int" where
  "sub_int len a = sint ((word_of_int len :: u32) - a)"

section \<open>Messages\<close>

text \<open>\<open>struct nlmsghdr\<close> has 16 bytes, with \<open>nlmsg_len\<close> in front.\<close>

definition NLMSG_ALIGN :: "u32 \<Rightarrow> u32" where
  "NLMSG_ALIGN len = (len + 4 - 1) AND NOT (4 - 1)"

definition NLMSG_HDRLEN :: u32 where
  "NLMSG_HDRLEN = NLMSG_ALIGN 16"

definition NLMSG_LENGTH :: "u32 \<Rightarrow> u32" where
  "NLMSG_LENGTH len = len + NLMSG_HDRLEN"

definition NLMSG_SPACE :: "u32 \<Rightarrow> u32" where
  "NLMSG_SPACE len = NLMSG_ALIGN (NLMSG_LENGTH len)"

definition NLMSG_DATA :: "nat \<Rightarrow> nat" where
  "NLMSG_DATA nlh = nlh + unat (NLMSG_LENGTH 0)"

definition NLMSG_NEXT :: "mem \<Rightarrow> nat \<Rightarrow> int \<Rightarrow> (nat \<times> int) option" where
  "NLMSG_NEXT m nlh len = do {
     l \<leftarrow> load_u32 m nlh;
     Some (nlh + unat (NLMSG_ALIGN l), sub_int len (NLMSG_ALIGN l))
   }"

definition NLMSG_OK :: "mem \<Rightarrow> nat \<Rightarrow> int \<Rightarrow> bool option" where
  "NLMSG_OK m nlh len =
     (if len \<ge> 16 then do {
        l \<leftarrow> load_u32 m nlh;
        Some (unat l \<ge> 16 \<and> l \<le> word_of_int len)
      } else Some False)"

definition NLMSG_PAYLOAD :: "mem \<Rightarrow> nat \<Rightarrow> u32 \<Rightarrow> u32 option" where
  "NLMSG_PAYLOAD m nlh len = do { l \<leftarrow> load_u32 m nlh; Some (l - NLMSG_SPACE len) }"

section \<open>Attributes\<close>

text \<open>\<open>struct rtattr\<close> has 4 bytes, with \<open>rta_len\<close> in front; its 16 bits are promoted to \<open>int\<close>.\<close>

definition RTA_ALIGN :: "u32 \<Rightarrow> u32" where
  "RTA_ALIGN len = (len + 4 - 1) AND NOT (4 - 1)"

definition RTA_OK :: "mem \<Rightarrow> nat \<Rightarrow> int \<Rightarrow> bool option" where
  "RTA_OK m rta len =
     (if len \<ge> 4 then do {
        l \<leftarrow> load_u16 m rta;
        Some (unat l \<ge> 4 \<and> uint l \<le> len)
      } else Some False)"

definition RTA_NEXT :: "mem \<Rightarrow> nat \<Rightarrow> int \<Rightarrow> (nat \<times> int) option" where
  "RTA_NEXT m rta attrlen = do {
     l \<leftarrow> load_u16 m rta;
     Some (rta + unat (RTA_ALIGN (ucast l)), sub_int attrlen (RTA_ALIGN (ucast l)))
   }"

text \<open>
  With \<open>sizeof\<close> in them the sizes are \<open>size_t\<close>, but the mask \<open>~(RTA_ALIGNTO-1)\<close> still has 32 bits.
\<close>

definition RTA_ALIGN_size :: "u64 \<Rightarrow> u64" where
  "RTA_ALIGN_size len = (len + 4 - 1) AND ucast (NOT (4 - 1) :: u32)"

definition RTA_LENGTH :: "u64 \<Rightarrow> u64" where
  "RTA_LENGTH len = RTA_ALIGN_size 4 + len"

definition RTA_SPACE :: "u64 \<Rightarrow> u64" where
  "RTA_SPACE len = RTA_ALIGN_size (RTA_LENGTH len)"

definition RTA_DATA :: "nat \<Rightarrow> nat" where
  "RTA_DATA rta = rta + unat (RTA_LENGTH 0)"

definition RTA_PAYLOAD :: "mem \<Rightarrow> nat \<Rightarrow> u64 option" where
  "RTA_PAYLOAD m rta = do { l \<leftarrow> load_u16 m rta; Some (ucast l - RTA_LENGTH 0) }"

section \<open>Next hops\<close>

text \<open>\<open>struct rtnexthop\<close> has 8 bytes, with \<open>rtnh_len\<close> in front. The sizes are \<open>int\<close> here.\<close>

definition RTNH_ALIGN :: "int \<Rightarrow> int" where
  "RTNH_ALIGN len = (len + 4 - 1) AND NOT (4 - 1)"

definition RTNH_OK :: "mem \<Rightarrow> nat \<Rightarrow> int \<Rightarrow> bool option" where
  "RTNH_OK m rtnh len = do {
     l \<leftarrow> load_u16 m rtnh;
     Some (unat l \<ge> 8 \<and> uint l \<le> len)
   }"

definition RTNH_NEXT :: "mem \<Rightarrow> nat \<Rightarrow> nat option" where
  "RTNH_NEXT m rtnh = do { l \<leftarrow> load_u16 m rtnh; Some (rtnh + nat (RTNH_ALIGN (uint l))) }"

definition RTNH_LENGTH :: "int \<Rightarrow> int" where
  "RTNH_LENGTH len = RTNH_ALIGN 8 + len"

definition RTNH_SPACE :: "int \<Rightarrow> int" where
  "RTNH_SPACE len = RTNH_ALIGN (RTNH_LENGTH len)"

definition RTNH_DATA :: "nat \<Rightarrow> nat" where
  "RTNH_DATA rtnh = rtnh + nat (RTNH_LENGTH 0)"

section \<open>Alignment\<close>

definition align4 :: "nat \<Rightarrow> nat" where
  "align4 n = (n + 3) div 4 * 4"

lemma align4_bounds: "n \<le> align4 n" "align4 n < n + 4"
  unfolding align4_def by presburger+

lemma unat_and_not_3: "unat (x AND NOT 3) = unat x div 4 * 4" for x :: u32
proof -
  have "unat (x AND 3) = unat (take_bit 2 x)" by (simp only: and_masks)
  also have "\<dots> = unat x mod 4" by (simp only: unsigned_take_bit_eq) (simp add: take_bit_eq_mod)
  finally have "unat (x AND 3) = unat x mod 4" .
  moreover have "x AND 3 \<le> x" by (rule word_and_le2)
  ultimately have "unat (x - (x AND 3)) = unat x - unat x mod 4" by (simp only: unat_sub)
  then show ?thesis by (simp only: and_not_split minus_mod_eq_div_mult)
qed

lemma unat_ALIGN:
  assumes "unat l < 2 ^ 31"
  shows "unat (RTA_ALIGN l) = align4 (unat l)" "unat (NLMSG_ALIGN l) = align4 (unat l)"
proof -
  have "l + 4 - 1 = l + 3" "(4 :: u32) - 1 = 3" by simp_all
  moreover have "unat (l + 3) = unat l + 3" using assms unat_add_small [of l 3] by simp
  ultimately show "unat (RTA_ALIGN l) = align4 (unat l)" "unat (NLMSG_ALIGN l) = align4 (unat l)"
    by (simp_all only: RTA_ALIGN_def NLMSG_ALIGN_def unat_and_not_3 align4_def)
qed

lemma sub_int_eq:
  assumes "0 \<le> len" "len < 2 ^ 31" "unat a \<le> 2 ^ 31"
  shows "sub_int len a = len - int (unat a)"
proof -
  have "(word_of_int len :: u32) - a = word_of_int (len - uint a)"
    by (simp add: wi_hom_sub [symmetric])
  then have "sub_int len a = signed_take_bit 31 (len - int (unat a))"
    by (simp only: sub_int_def sint_sbintrunc') simp
  also have "\<dots> = len - int (unat a)"
  proof (rule signed_take_bit_int_eq_self)
    have "int (unat a) \<le> 2 ^ 31" using assms(3) by (simp only: of_nat_le_iff [where ?'a = int, symmetric]) simp
    then show "- (2 ^ 31) \<le> len - int (unat a)" "len - int (unat a) < 2 ^ 31"
      using assms(1,2) by linarith+
  qed
  finally show ?thesis .
qed

section \<open>Going through a buffer\<close>

text \<open>
  The loop that the macros are made for, \<open>for (; OK (p, len); p = NEXT (p, len))\<close>, as the places it
  visits. \<open>None\<close>: it reads outside of the memory, or never ends.
\<close>

partial_function (option) walk_buf ::
    "(mem \<Rightarrow> nat \<Rightarrow> int \<Rightarrow> bool option) \<Rightarrow> (mem \<Rightarrow> nat \<Rightarrow> int \<Rightarrow> (nat \<times> int) option) \<Rightarrow> mem \<Rightarrow> nat \<Rightarrow> int \<Rightarrow> nat list option" where
  "walk_buf ok nxt m p len = do {
     b \<leftarrow> ok m p len;
     if b then do { (q, len') \<leftarrow> nxt m p len; ps \<leftarrow> walk_buf ok nxt m q len'; Some (p # ps) } else Some []
   }"

text \<open>
  The contract of such a pair of macros: nothing is read when the rest is shorter than a header;
  otherwise the length field decides, and the step is its aligned length.
\<close>

locale buffer_walk =
  fixes hdr :: nat
    and ok :: "mem \<Rightarrow> nat \<Rightarrow> int \<Rightarrow> bool option"
    and nxt :: "mem \<Rightarrow> nat \<Rightarrow> int \<Rightarrow> (nat \<times> int) option"
    and len_at :: "mem \<Rightarrow> nat \<Rightarrow> nat option"
  assumes hdr_pos: "0 < hdr"
    and ok_short: "len < int hdr \<Longrightarrow> ok m p len = Some False"
    and ok_long: "int hdr \<le> len \<Longrightarrow> len < 2 ^ 31 \<Longrightarrow> p + nat len \<le> length m
      \<Longrightarrow> \<exists>l. len_at m p = Some l \<and> ok m p len = Some (hdr \<le> l \<and> int l \<le> len)"
    and nxt_ok: "0 \<le> len \<Longrightarrow> len < 2 ^ 31 \<Longrightarrow> len_at m p = Some l \<Longrightarrow> int l \<le> len
      \<Longrightarrow> nxt m p len = Some (p + align4 l, len - int (align4 l))"
begin

lemma walk_safe:
  assumes "len < 2 ^ 31" "len \<le> 0 \<or> p + nat len \<le> length m"
  shows "\<exists>ps. walk_buf ok nxt m p len = Some ps
    \<and> (\<forall>q \<in> set ps. \<exists>l. len_at m q = Some l \<and> hdr \<le> l \<and> p \<le> q \<and> q + l \<le> p + nat len)"
  using assms
proof (induction "nat len" arbitrary: p len rule: less_induct)
  case less
  show ?case
  proof (cases "int hdr \<le> len")
    case False
    then show ?thesis by (subst walk_buf.simps) (simp add: ok_short)
  next
    case True
    with hdr_pos have pos: "0 < len" and mem: "p + nat len \<le> length m" using less.prems(2) by auto
    obtain l where l: "len_at m p = Some l" "ok m p len = Some (hdr \<le> l \<and> int l \<le> len)"
      using ok_long [OF True less.prems(1) mem] by blast
    show ?thesis
    proof (cases "hdr \<le> l \<and> int l \<le> len")
      case False
      then have "ok m p len = Some False" unfolding l(2) by (simp only: simp_thms option.inject)
      then show ?thesis by (subst walk_buf.simps) simp
    next
      case in_buf: True
      let ?len = "len - int (align4 l)" and ?p = "p + align4 l"
      have step: "nxt m p len = Some (?p, ?len)" using nxt_ok l(1) in_buf pos less.prems(1) by simp
      have adv: "0 < align4 l" using in_buf hdr_pos align4_bounds(1) [of l] by linarith
      have "\<exists>ps. walk_buf ok nxt m ?p ?len = Some ps
        \<and> (\<forall>q \<in> set ps. \<exists>l. len_at m q = Some l \<and> hdr \<le> l \<and> ?p \<le> q \<and> q + l \<le> ?p + nat ?len)"
        by (rule less.hyps) (use pos adv less.prems(1) mem in \<open>auto simp: nat_diff_distrib'\<close>)
      then obtain ps where ps: "walk_buf ok nxt m ?p ?len = Some ps"
        "\<And>q. q \<in> set ps \<Longrightarrow> \<exists>l. len_at m q = Some l \<and> hdr \<le> l \<and> ?p \<le> q \<and> q + l \<le> ?p + nat ?len" by blast
      have "walk_buf ok nxt m p len = Some (p # ps)"
        using l(2) in_buf step ps(1) by (subst walk_buf.simps) simp
      moreover have "\<exists>l. len_at m q = Some l \<and> hdr \<le> l \<and> p \<le> q \<and> q + l \<le> p + nat len" if qin: "q \<in> set (p # ps)" for q
      proof (cases "q = p")
        case True
        then show ?thesis using l(1) in_buf pos by auto
      next
        case False
        then obtain l' where "len_at m q = Some l'" "hdr \<le> l'" "?p \<le> q" "q + l' \<le> ?p + nat ?len"
          using ps(2) [of q] qin by auto
        moreover from this have "0 \<le> ?len" using hdr_pos by (cases "0 \<le> ?len") auto
        ultimately show ?thesis using pos by auto
      qed
      ultimately show ?thesis by blast
    qed
  qed
qed

end

lemma rd_mem_in: "p + n \<le> length m \<Longrightarrow> rd_mem m p n = Some (take n (drop p m))"
  by (simp add: rd_mem_def)

lemma load_in_mem:
  "p + 2 \<le> length m \<Longrightarrow> \<exists>l. load_u16 m p = Some l" "p + 4 \<le> length m \<Longrightarrow> \<exists>l. load_u32 m p = Some l"
  by (simp_all add: load_u16_def load_u32_def rd_mem_in)

lemma uint_u16_int: "uint (l :: u16) \<le> len \<longleftrightarrow> int (unat l) \<le> len"
  by simp

interpretation rta_walk: buffer_walk 4 RTA_OK RTA_NEXT "\<lambda>m p. map_option unat (load_u16 m p)"
proof
  fix len :: int and m :: mem and p l
  assume len: "0 \<le> len" "len < 2 ^ 31" and "map_option unat (load_u16 m p) = Some l" and fits: "int l \<le> len"
  then obtain w where w: "load_u16 m p = Some w" "l = unat w" by auto
  have i: "unat (ucast w :: u32) = unat w"
    using unsigned_less [of w, where 'a = nat] by (simp add: unsigned_ucast_eq take_bit_nat_eq_self)
  have small: "unat (ucast w :: u32) < 2 ^ 31" using unsigned_less [of w, where 'a = nat] unfolding i by simp
  have "align4 l \<le> 2 ^ 31" using align4_bounds(2) [of l] small w(2) i unsigned_less [of w, where 'a = nat] by simp
  then show "RTA_NEXT m p len = Some (p + align4 l, len - int (align4 l))"
    using w len unat_ALIGN(1) [OF small] i by (simp add: RTA_NEXT_def sub_int_eq)
next
  fix len :: int and m :: mem and p
  assume len: "int 4 \<le> len" "len < 2 ^ 31" "p + nat len \<le> length m"
  then have "p + 2 \<le> length m" by linarith
  then obtain w where "load_u16 m p = Some w" using load_in_mem(1) by blast
  with len show "\<exists>l. map_option unat (load_u16 m p) = Some l \<and> RTA_OK m p len = Some (4 \<le> l \<and> int l \<le> len)"
    by (simp add: RTA_OK_def)
qed (simp_all add: RTA_OK_def)

interpretation nlmsg_walk: buffer_walk 16 NLMSG_OK NLMSG_NEXT "\<lambda>m p. map_option unat (load_u32 m p)"
proof
  fix len :: int and m :: mem and p l
  assume len: "0 \<le> len" "len < 2 ^ 31" and "map_option unat (load_u32 m p) = Some l" and fits: "int l \<le> len"
  then obtain w where w: "load_u32 m p = Some w" "l = unat w" by auto
  have "int (unat w) < 2 ^ 31" using fits len(2) unfolding w(2) by (rule order.strict_trans1)
  then have small: "unat w < 2 ^ 31" by (simp only: of_nat_less_iff [where ?'a = int, symmetric]) simp
  have "align4 l \<le> 2 ^ 31" using small w(2) by (simp add: align4_def)
  then show "NLMSG_NEXT m p len = Some (p + align4 l, len - int (align4 l))"
    using w len unat_ALIGN(2) [OF small] by (simp add: NLMSG_NEXT_def sub_int_eq)
next
  fix len :: int and m :: mem and p
  assume len: "int 16 \<le> len" "len < 2 ^ 31" "p + nat len \<le> length m"
  then have "p + 4 \<le> length m" by linarith
  then obtain w where w: "load_u32 m p = Some w" using load_in_mem(2) by blast
  have "uint (word_of_int len :: u32) = len mod 2 ^ 32" by (simp only: uint_word_of_int) simp
  also have "\<dots> = len" using len by (intro mod_pos_pos_trivial) simp_all
  finally have "w \<le> word_of_int len \<longleftrightarrow> int (unat w) \<le> len" by (simp add: word_le_def)
  then show "\<exists>l. map_option unat (load_u32 m p) = Some l \<and> NLMSG_OK m p len = Some (16 \<le> l \<and> int l \<le> len)"
    using len w by (simp add: NLMSG_OK_def)
qed (simp_all add: NLMSG_OK_def)


text \<open>
  (C17) The loops over messages and over attributes are safe on any bytes: with a remaining length that
  the buffer has, they read nothing outside of it and end, and every message or attribute that is visited lies within
  the buffer with its whole length.
\<close>

theorem netlink_walks_safe:
  assumes "0 \<le> len" "len < 2 ^ 31" "p + nat len \<le> length m"
  shows "(\<exists>ps. walk_buf NLMSG_OK NLMSG_NEXT m p len = Some ps \<and> (\<forall>q \<in> set ps. \<exists>l. load_u32 m q = Some l
      \<and> 16 \<le> unat l \<and> p \<le> q \<and> q + unat l \<le> p + nat len))
    \<and> (\<exists>ps. walk_buf RTA_OK RTA_NEXT m p len = Some ps \<and> (\<forall>q \<in> set ps. \<exists>l. load_u16 m q = Some l
      \<and> 4 \<le> unat l \<and> p \<le> q \<and> q + unat l \<le> p + nat len))"
  using nlmsg_walk.walk_safe [of len p m] rta_walk.walk_safe [of len p m] assms by (auto 0 4)

theorem netlink_walks_safe_witness:
  "\<exists>ps. walk_buf RTA_OK RTA_NEXT [5, 0, 1, 0, 7, 0, 0, 0, 255, 255, 255] 0 11 = Some ps
    \<and> (\<forall>q \<in> set ps. q + 4 \<le> 11)"
  using netlink_walks_safe [of 11 0 "[5, 0, 1, 0, 7, 0, 0, 0, 255, 255, 255]"] by fastforce

text \<open>
  The check of a next hop is not like the others: it reads the length field before it looks at the
  remaining length, so that at the end of the buffer, with nothing remaining, it reads outside. With
  the header inside the buffer it accepts exactly the hops that lie within the rest.
\<close>

theorem rtnh_check_reads_first:
  "(length m < p + 2 \<longrightarrow> RTNH_OK m p 0 = None) \<and>
   (p + 2 \<le> length m \<longrightarrow> (\<exists>l. load_u16 m p = Some l \<and> RTNH_OK m p len = Some (8 \<le> unat l \<and> int (unat l) \<le> len)))"
proof (intro conjI impI)
  assume "length m < p + 2"
  then show "RTNH_OK m p 0 = None" by (simp add: RTNH_OK_def load_u16_def rd_mem_def)
next
  assume "p + 2 \<le> length m"
  then obtain l where "load_u16 m p = Some l" using load_in_mem(1) by blast
  then show "\<exists>l. load_u16 m p = Some l \<and> RTNH_OK m p len = Some (8 \<le> unat l \<and> int (unat l) \<le> len)"
    by (simp add: RTNH_OK_def)
qed

theorem rtnh_check_reads_first_witness:
  "RTNH_OK [8, 0, 0, 0, 1, 0, 0, 0] 8 0 = None"
  using rtnh_check_reads_first [of "[8, 0, 0, 0, 1, 0, 0, 0]" 8 0] by simp

end
