(* ===== verification/Bit_Arrays.thy ===== *)
theory Bit_Arrays
  imports Prelude "HOL-Library.Monad_Syntax"
begin

unbundle bit_operations_syntax

text \<open>
  Sets of small numbers as arrays of machine words, one bit for a number. The headers have three
  implementations: descriptors (\<open>Fd_Sets\<close>), processors (\<open>Cpu_Sets\<close>) and SCTP chunk types (\<open>Netfilter\<close>).
  Here are the set that an array holds, the effect of the operations of C on it, and the contract that the
  three share as a locale, with what follows for any sequence of insertions and deletions.
\<close>

section \<open>The set in an array\<close>

definition members :: "'a::len word list \<Rightarrow> nat set" where
  "members ms = {n. n div LENGTH('a) < length ms \<and> bit (ms ! (n div LENGTH('a))) (n mod LENGTH('a))}"

lemma same_place:
  "m div LENGTH('a::len) = n div LENGTH('a) \<Longrightarrow> m mod LENGTH('a) = n mod LENGTH('a) \<Longrightarrow> m = n"
  by (metis div_mult_mod_eq)

lemma place_less: "n < LENGTH('a::len) * k \<longleftrightarrow> n div LENGTH('a) < k"
  by (simp add: div_less_iff_less_mult mult.commute)

lemma bit_one_shift: "bit (push_bit (k mod LENGTH('a)) (1 :: 'a::len word)) n \<longleftrightarrow> n = k mod LENGTH('a)"
  by (auto simp: bit_push_bit_iff bit_1_iff simp del: push_bit_of_1)

lemma members_set:
  fixes ms :: "'a::len word list"
  assumes "n div LENGTH('a) < length ms"
  shows "members (ms[n div LENGTH('a) := ms ! (n div LENGTH('a)) OR push_bit (n mod LENGTH('a)) 1]) = insert n (members ms)"
    (is "members ?ms = _")
proof -
  have "u \<in> members ?ms \<longleftrightarrow> u \<in> insert n (members ms)" for u
  proof (cases "u div LENGTH('a) = n div LENGTH('a)")
    case True
    then show ?thesis using assms same_place [OF True]
      by (auto simp: members_def bit_or_iff bit_one_shift simp del: push_bit_of_1)
  next
    case False
    then show ?thesis by (auto simp: members_def)
  qed
  then show ?thesis by blast
qed

lemma members_clear:
  fixes ms :: "'a::len word list"
  assumes "n div LENGTH('a) < length ms"
  shows "members (ms[n div LENGTH('a) := ms ! (n div LENGTH('a)) AND NOT (push_bit (n mod LENGTH('a)) 1)]) = members ms - {n}"
    (is "members ?ms = _")
proof -
  have "u \<in> members ?ms \<longleftrightarrow> u \<in> members ms - {n}" for u
  proof (cases "u div LENGTH('a) = n div LENGTH('a)")
    case True
    then show ?thesis using assms same_place [OF True]
      by (auto simp: members_def bit_and_iff bit_not_iff bit_one_shift simp del: push_bit_of_1)
  next
    case False
    then show ?thesis by (auto simp: members_def)
  qed
  then show ?thesis by blast
qed

lemma members_test:
  fixes ms :: "'a::len word list"
  assumes "n div LENGTH('a) < length ms"
  shows "ms ! (n div LENGTH('a)) AND push_bit (n mod LENGTH('a)) 1 \<noteq> 0 \<longleftrightarrow> n \<in> members ms"
  using assms by (simp add: members_def and_exp_eq_0_iff_not_bit push_bit_eq_mult)

lemma members_less: "members (ms :: 'a::len word list) \<subseteq> {..<LENGTH('a) * length ms}"
  by (auto simp: members_def place_less)

lemma bit_members:
  "i < length ms \<Longrightarrow> n < LENGTH('a) \<Longrightarrow> bit (ms ! i) n \<longleftrightarrow> LENGTH('a) * i + n \<in> members (ms :: 'a::len word list)"
  by (simp add: members_def)

lemma members_inject:
  fixes as bs :: "'a::len word list"
  assumes "length as = length bs"
  shows "members as = members bs \<longleftrightarrow> as = bs"
proof
  assume e: "members as = members bs"
  show "as = bs"
  proof (rule nth_equalityI [OF assms])
    fix i assume i: "i < length as"
    show "as ! i = bs ! i"
      by (rule bit_word_eqI) (simp add: bit_members i assms [symmetric] e)
  qed
qed simp

lemma members_const:
  "members (replicate k (0 :: 'a::len word)) = {}"
  "members (replicate k (NOT 0 :: 'a::len word)) = {..<LENGTH('a) * k}"
  by (auto simp: members_def place_less bit_simps)

lemma members_empty: "members ms = {} \<longleftrightarrow> ms = replicate (length ms) 0"
  using members_inject [of ms "replicate (length ms) 0"] by (simp add: members_const)

lemma members_full:
  "members ms = {..<LENGTH('a) * length ms} \<longleftrightarrow> ms = replicate (length ms) (NOT 0 :: 'a::len word)"
  using members_inject [of ms "replicate (length ms) (NOT 0)"] by (simp only: members_const length_replicate)

lemma members_map2:
  fixes as bs :: "'a::len word list"
  assumes "length as = length bs"
  shows "members (map2 (AND) as bs) = members as \<inter> members bs"
    and "members (map2 (OR) as bs) = members as \<union> members bs"
    and "members (map2 (XOR) as bs) = (members as - members bs) \<union> (members bs - members as)"
    and "members (map2 (\<lambda>a b. a AND NOT b) as bs) = members as - members bs"
  using assms by (auto simp: members_def bit_simps)

section \<open>Loops over the words\<close>

text \<open>\<open>for (i = 0; i < n; i++)\<close> over the words of an array; an access outside of one is \<open>None\<close>.\<close>

fun each_index :: "(nat \<Rightarrow> 's \<Rightarrow> 's option) \<Rightarrow> nat list \<Rightarrow> 's \<Rightarrow> 's option" where
  "each_index body [] s = Some s"
| "each_index body (i # is) s = do { s \<leftarrow> body i s; each_index body is s }"

text \<open>A store of arrays: the operands of a loop may be the same array.\<close>

definition store_word :: "nat \<Rightarrow> nat \<Rightarrow> 'a::len word \<Rightarrow> (nat \<Rightarrow> 'a word list) \<Rightarrow> (nat \<Rightarrow> 'a word list) option" where
  "store_word p i v s = (if i < length (s p) then Some (s(p := (s p)[i := v])) else None)"

definition fetch_word :: "nat \<Rightarrow> nat \<Rightarrow> (nat \<Rightarrow> 'a::len word list) \<Rightarrow> 'a word option" where
  "fetch_word p i s = (if i < length (s p) then Some (s p ! i) else None)"

lemma each_index_append:
  "each_index body (is @ js) s = do { s \<leftarrow> each_index body is s; each_index body js s }"
  by (induction "is" arbitrary: s) (auto split: bind_splits)

text \<open>
  A loop that sets word \<open>i\<close> of \<open>d\<close> from the words \<open>i\<close> of \<open>a\<close> and \<open>b\<close>, whether or not \<open>d\<close> is one of them, changes
  the first \<open>n\<close> words of \<open>d\<close> as a whole and nothing else.
\<close>

lemma each_index_map2:
  assumes "n \<le> length (s a)" "n \<le> length (s b)" "n \<le> length (s d)"
  shows "each_index (\<lambda>i s. do { x \<leftarrow> fetch_word a i s; y \<leftarrow> fetch_word b i s; store_word d i (f x y) s }) [0..<n] s =
    Some (s(d := map2 f (take n (s a)) (take n (s b)) @ drop n (s d)))"
  using assms
proof (induction n)
  case (Suc n)
  let ?s = "s(d := map2 f (take n (s a)) (take n (s b)) @ drop n (s d))"
  have w: "?s a ! n = s a ! n" "?s b ! n = s b ! n" "length (?s a) = length (s a)" "length (?s b) = length (s b)"
    "length (?s d) = length (s d)"
    using Suc.prems by (auto simp: nth_append min_def)
  have "(?s d)[n := f (s a ! n) (s b ! n)] = map2 f (take (Suc n) (s a)) (take (Suc n) (s b)) @ drop (Suc n) (s d)"
    using Suc.prems by (simp add: list_update_append take_Suc_conv_app_nth Cons_nth_drop_Suc [symmetric] min_def)
  then show ?case
    using Suc w by (simp add: each_index_append fetch_word_def store_word_def del: fun_upd_apply)
qed (simp add: fun_upd_triv)

lemma each_index_zero:
  "n \<le> length (s p) \<Longrightarrow> each_index (\<lambda>i. store_word p i (0 :: 'a::len word)) [0..<n] s
     = Some (s(p := replicate n 0 @ drop n (s p)))"
proof (induction n)
  case (Suc n)
  have "(replicate n 0 @ drop n (s p))[n := 0] = replicate (Suc n) 0 @ drop (Suc n) (s p)"
    using Suc.prems by (simp add: list_update_append Cons_nth_drop_Suc [symmetric] replicate_append_same [symmetric])
  then show ?case using Suc by (simp add: each_index_append store_word_def fun_upd_def cong: if_cong)
qed (simp add: fun_upd_triv)

section \<open>The contract of a set of bits\<close>

datatype bit_op = Insert nat | Delete nat

fun op_arg :: "bit_op \<Rightarrow> nat" where
  "op_arg (Insert n) = n"
| "op_arg (Delete n) = n"

fun run_bits :: "(nat \<Rightarrow> 's \<Rightarrow> 's option) \<Rightarrow> (nat \<Rightarrow> 's \<Rightarrow> 's option) \<Rightarrow> bit_op list \<Rightarrow> 's \<Rightarrow> 's option" where
  "run_bits set_op clear_op [] s = Some s"
| "run_bits set_op clear_op (Insert n # ops) s = do { s \<leftarrow> set_op n s; run_bits set_op clear_op ops s }"
| "run_bits set_op clear_op (Delete n # ops) s = do { s \<leftarrow> clear_op n s; run_bits set_op clear_op ops s }"

fun set_after :: "bit_op list \<Rightarrow> nat set \<Rightarrow> nat set" where
  "set_after [] S = S"
| "set_after (Insert n # ops) S = set_after ops (insert n S)"
| "set_after (Delete n # ops) S = set_after ops (S - {n})"

lemma set_after_inserts: "set_after (map Insert ns) S = set ns \<union> S"
  by (induction ns arbitrary: S) auto

lemma set_after_last:
  "m \<in> set_after (ops @ [Insert n]) S \<longleftrightarrow> m = n \<or> m \<in> set_after ops S"
  "m \<in> set_after (ops @ [Delete n]) S \<longleftrightarrow> m \<noteq> n \<and> m \<in> set_after ops S"
  by (induction ops S rule: set_after.induct) auto

locale bit_set =
  fixes shape :: "'s \<Rightarrow> bool"
    and room :: nat
    and set_op clear_op :: "nat \<Rightarrow> 's \<Rightarrow> 's option"
    and test_op :: "nat \<Rightarrow> 's \<Rightarrow> bool option"
    and elems :: "'s \<Rightarrow> nat set"
  assumes set_law: "shape s \<Longrightarrow> n < room \<Longrightarrow> \<exists>s'. set_op n s = Some s' \<and> shape s' \<and> elems s' = insert n (elems s)"
    and clear_law: "shape s \<Longrightarrow> n < room \<Longrightarrow> \<exists>s'. clear_op n s = Some s' \<and> shape s' \<and> elems s' = elems s - {n}"
    and test_law: "shape s \<Longrightarrow> n < room \<Longrightarrow> test_op n s = Some (n \<in> elems s)"
begin

lemma run_refines:
  assumes "shape s" "\<forall>x \<in> set ops. op_arg x < room"
  shows "\<exists>s'. run_bits set_op clear_op ops s = Some s' \<and> shape s' \<and> elems s' = set_after ops (elems s)"
  using assms
proof (induction ops arbitrary: s)
  case (Cons x ops)
  show ?case
  proof (cases x)
    case (Insert n)
    then obtain s' where "set_op n s = Some s'" "shape s'" "elems s' = insert n (elems s)"
      using set_law [of s n] Cons.prems by auto
    then show ?thesis using Cons.IH [of s'] Cons.prems Insert by auto
  next
    case (Delete n)
    then obtain s' where "clear_op n s = Some s'" "shape s'" "elems s' = elems s - {n}"
      using clear_law [of s n] Cons.prems by auto
    then show ?thesis using Cons.IH [of s'] Cons.prems Delete by auto
  qed
qed simp

lemma test_after:
  assumes "shape s" "\<forall>x \<in> set ops. op_arg x < room" "n < room"
  shows "(run_bits set_op clear_op ops s \<bind> test_op n) = Some (n \<in> set_after ops (elems s))"
  using run_refines [OF assms(1,2)] test_law [OF _ assms(3)] by auto

end

end
