(* ===== verification/Netfilter.thy ===== *)
theory Netfilter
  imports Netlink Bit_Arrays
begin

unbundle bit_operations_syntax

text \<open>
  The iterators of \<open>include/linux/netfilter/x_tables.h\<close> and \<open>include/linux/netfilter_bridge/ebtables.h\<close> over tables of rules,
  and the chunk maps of \<open>include/linux/netfilter/xt_sctp.h\<close>. The function that is called for an item gets its address and
  a state, and gives its return value and the new state; it does not change the table.
\<close>

section \<open>Iterators\<close>

text \<open>
  The loop of all iterators: \<open>__i\<close> counts up in \<open>unsigned int\<close> by what \<open>adv\<close> reads from the item; it returns
  \<open>__ret\<close>, \<open>__i\<close> and the state. An item of size 0 makes it go on forever.
\<close>

partial_function (option) iterate ::
    "(nat \<Rightarrow> u32 option) \<Rightarrow> nat \<Rightarrow> u32 \<Rightarrow> (nat \<Rightarrow> 's \<Rightarrow> int \<times> 's) \<Rightarrow> u32 \<Rightarrow> 's \<Rightarrow> (int \<times> u32 \<times> 's) option" where
  "iterate adv base bound fn i s =
     (if i < bound then
        (case fn (base + unat i) s of (ret, s) \<Rightarrow>
           if ret \<noteq> 0 then Some (ret, i, s)
           else do { a \<leftarrow> adv (base + unat i); iterate adv base bound fn (i + a) s })
      else Some (0, i, s))"

text \<open>
  The type of an entry is an argument of the \<open>x_tables\<close> macros: what they use of it is its size and where its two
  offsets are (both of 16 bits).
\<close>

record xt_type =
  xt_sizeof :: u32
  xt_target_offset :: nat
  xt_next_offset :: nat

definition ipt_entry :: xt_type where
  "ipt_entry = \<lparr>xt_sizeof = 112, xt_target_offset = 88, xt_next_offset = 90\<rparr>"

definition u16_at :: "mem \<Rightarrow> nat \<Rightarrow> u32 option" where
  "u16_at m p = map_option ucast (load_u16 m p)"

definition XT_MATCH_ITERATE :: "mem \<Rightarrow> xt_type \<Rightarrow> nat \<Rightarrow> (nat \<Rightarrow> 's \<Rightarrow> int \<times> 's) \<Rightarrow> 's \<Rightarrow> (int \<times> 's) option" where
  "XT_MATCH_ITERATE m type e fn s = do {
     target_offset \<leftarrow> u16_at m (e + xt_target_offset type);
     (ret, _, s) \<leftarrow> iterate (u16_at m) e target_offset fn (xt_sizeof type) s;
     Some (ret, s)
   }"

text \<open>The first \<open>n\<close> entries are passed over; \<open>__n\<close> counts in \<open>unsigned int\<close>.\<close>

definition skip_first :: "u32 \<Rightarrow> (nat \<Rightarrow> 's \<Rightarrow> int \<times> 's) \<Rightarrow> nat \<Rightarrow> u32 \<times> 's \<Rightarrow> int \<times> u32 \<times> 's" where
  "skip_first n fn p ns =
     (case ns of (k, s) \<Rightarrow>
        if k < n then (0, k + 1, s) else (case fn p s of (ret, s) \<Rightarrow> (ret, k + 1, s)))"

definition XT_ENTRY_ITERATE_CONTINUE ::
    "mem \<Rightarrow> xt_type \<Rightarrow> nat \<Rightarrow> u32 \<Rightarrow> u32 \<Rightarrow> (nat \<Rightarrow> 's \<Rightarrow> int \<times> 's) \<Rightarrow> 's \<Rightarrow> (int \<times> 's) option" where
  "XT_ENTRY_ITERATE_CONTINUE m type entries sz n fn s = do {
     (ret, _, _, s) \<leftarrow> iterate (\<lambda>p. u16_at m (p + xt_next_offset type)) entries sz (skip_first n fn) 0 (0, s);
     Some (ret, s)
   }"

definition XT_ENTRY_ITERATE :: "mem \<Rightarrow> xt_type \<Rightarrow> nat \<Rightarrow> u32 \<Rightarrow> (nat \<Rightarrow> 's \<Rightarrow> int \<times> 's) \<Rightarrow> 's \<Rightarrow> (int \<times> 's) option" where
  "XT_ENTRY_ITERATE m type entries sz fn s = XT_ENTRY_ITERATE_CONTINUE m type entries sz 0 fn s"

text \<open>
  \<open>struct ebt_entry\<close> (112 bytes) starts with \<open>bitmask\<close> and has \<open>watchers_offset\<close>, \<open>target_offset\<close> and \<open>next_offset\<close> at 100,
  104 and 108; matches and watchers have 40 bytes with the size of their data at 32; \<open>struct ebt_entries\<close> has 48.
\<close>

definition checked_end :: "u32 \<Rightarrow> (int \<times> u32 \<times> 's) \<Rightarrow> int \<times> 's" where
  "checked_end bound r =
     (case r of (ret, i, s) \<Rightarrow> (if ret = 0 \<and> i \<noteq> bound then -22 else ret, s))"

definition EBT_MATCH_ITERATE :: "mem \<Rightarrow> nat \<Rightarrow> (nat \<Rightarrow> 's \<Rightarrow> int \<times> 's) \<Rightarrow> 's \<Rightarrow> (int \<times> 's) option" where
  "EBT_MATCH_ITERATE m e fn s = do {
     watchers_offset \<leftarrow> load_u32 m (e + 100);
     r \<leftarrow> iterate (\<lambda>p. do { sz \<leftarrow> load_u32 m (p + 32); Some (sz + 40) }) e watchers_offset fn 112 s;
     Some (checked_end watchers_offset r)
   }"

definition EBT_WATCHER_ITERATE :: "mem \<Rightarrow> nat \<Rightarrow> (nat \<Rightarrow> 's \<Rightarrow> int \<times> 's) \<Rightarrow> 's \<Rightarrow> (int \<times> 's) option" where
  "EBT_WATCHER_ITERATE m e fn s = do {
     watchers_offset \<leftarrow> load_u32 m (e + 100);
     target_offset \<leftarrow> load_u32 m (e + 104);
     r \<leftarrow> iterate (\<lambda>p. do { sz \<leftarrow> load_u32 m (p + 32); Some (sz + 40) }) e target_offset fn watchers_offset s;
     Some (checked_end target_offset r)
   }"

definition EBT_ENTRY_ITERATE :: "mem \<Rightarrow> nat \<Rightarrow> u32 \<Rightarrow> (nat \<Rightarrow> 's \<Rightarrow> int \<times> 's) \<Rightarrow> 's \<Rightarrow> (int \<times> 's) option" where
  "EBT_ENTRY_ITERATE m entries sz fn s = do {
     r \<leftarrow> iterate (\<lambda>p. do {
            bitmask \<leftarrow> load_u32 m p;
            if bitmask \<noteq> 0 then load_u32 m (p + 108) else Some 48
          }) entries sz fn 0 s;
     Some (checked_end sz r)
   }"

definition ipt_get_target :: "mem \<Rightarrow> nat \<Rightarrow> nat option" where
  "ipt_get_target m e = do { t \<leftarrow> load_u16 m (e + xt_target_offset ipt_entry); Some (e + unat t) }"

definition ebt_get_target :: "mem \<Rightarrow> nat \<Rightarrow> nat option" where
  "ebt_get_target m e = do { t \<leftarrow> load_u32 m (e + 104); Some (e + unat t) }"

section \<open>Items one after another\<close>

text \<open>
  \<open>items adv base i as\<close>: from \<open>i\<close> on there are items of the sizes \<open>as\<close>, none of them empty. \<open>starts\<close> are the addresses
  where they begin, \<open>visit\<close> calls the function for each until one call does not return 0.
\<close>

fun items :: "(nat \<Rightarrow> u32 option) \<Rightarrow> nat \<Rightarrow> nat \<Rightarrow> nat list \<Rightarrow> bool" where
  "items adv base i [] \<longleftrightarrow> True"
| "items adv base i (a # as) \<longleftrightarrow> (\<exists>w. adv (base + i) = Some w \<and> unat w = a \<and> 0 < a) \<and> items adv base (i + a) as"

fun starts :: "nat \<Rightarrow> nat list \<Rightarrow> nat list" where
  "starts p [] = []"
| "starts p (a # as) = p # starts (p + a) as"

fun visit :: "(nat \<Rightarrow> 's \<Rightarrow> int \<times> 's) \<Rightarrow> nat list \<Rightarrow> 's \<Rightarrow> int \<times> 's" where
  "visit fn [] s = (0, s)"
| "visit fn (p # ps) s = (case fn p s of (ret, s) \<Rightarrow> if ret \<noteq> 0 then (ret, s) else visit fn ps s)"

lemma iterate_items:
  assumes "items adv base (unat i) as" "unat i + sum_list as < 2 ^ 32"
    and "as = [] \<Longrightarrow> bound \<le> i" "as \<noteq> [] \<Longrightarrow> unat i + sum_list (butlast as) < unat bound"
    and "unat bound \<le> unat i + sum_list as"
  shows "\<exists>j. iterate adv base bound fn i s = Some (case visit fn (starts (base + unat i) as) s of (ret, s) \<Rightarrow> (ret, j, s))
    \<and> (fst (visit fn (starts (base + unat i) as) s) = 0 \<longrightarrow> unat j = unat i + sum_list as)"
  using assms
proof (induction as arbitrary: i s)
  case Nil
  then have "\<not> i < bound" by simp
  then show ?case by (subst iterate.simps) simp
next
  case (Cons a as)
  obtain w where w: "adv (base + unat i) = Some w" "unat w = a" "0 < a" using Cons.prems(1) by auto
  have less: "i < bound" using Cons.prems(4) by (simp add: word_less_nat_alt)
  have i': "unat (i + w) = unat i + a" using Cons.prems(2) w(2) by (intro trans [OF unat_add_small]) simp_all
  obtain ret s' where fn: "fn (base + unat i) s = (ret, s')" by (cases "fn (base + unat i) s")
  show ?case
  proof (cases "ret = 0")
    case False
    then show ?thesis using less fn by (subst iterate.simps) simp
  next
    case True
    have "\<exists>j. iterate adv base bound fn (i + w) s' = Some (case visit fn (starts (base + unat (i + w)) as) s' of (ret, s) \<Rightarrow> (ret, j, s))
      \<and> (fst (visit fn (starts (base + unat (i + w)) as) s') = 0 \<longrightarrow> unat j = unat (i + w) + sum_list as)"
    proof (rule Cons.IH)
      show "as = [] \<Longrightarrow> bound \<le> i + w" using Cons.prems(5) i' by (simp add: word_le_nat_alt)
      show "as \<noteq> [] \<Longrightarrow> unat (i + w) + sum_list (butlast as) < unat bound" using Cons.prems(4) i' by simp
    qed (use Cons.prems i' in \<open>simp_all add: ac_simps\<close>)
    then show ?thesis using less fn True w i' by (subst iterate.simps) (simp add: ac_simps)
  qed
qed


text \<open>The items reach to the end of the table, the last one perhaps beyond it.\<close>

definition spans :: "(nat \<Rightarrow> u32 option) \<Rightarrow> nat \<Rightarrow> nat \<Rightarrow> nat list \<Rightarrow> nat \<Rightarrow> bool" where
  "spans adv base i as bound \<longleftrightarrow> items adv base i as \<and> i + sum_list as < 2 ^ 32 \<and> bound \<le> i + sum_list as
     \<and> (as = [] \<or> i + sum_list (butlast as) < bound)"

lemma iterate_covers:
  assumes "spans adv base (unat i) as (unat bound)"
  shows "\<exists>j. iterate adv base bound fn i s = Some (case visit fn (starts (base + unat i) as) s of (ret, s) \<Rightarrow> (ret, j, s))
    \<and> (fst (visit fn (starts (base + unat i) as) s) = 0 \<longrightarrow> unat j = unat i + sum_list as)"
  by (rule iterate_items) (use assms in \<open>auto simp: spans_def word_le_nat_alt\<close>)

lemma visit_skip:
  assumes "unat k + length ps < 2 ^ 32"
  shows "\<exists>k'. visit (skip_first n fn) ps (k, s) = (case visit fn (drop (unat n - unat k) ps) s of (ret, s) \<Rightarrow> (ret, k', s))"
  using assms
proof (induction ps arbitrary: k s)
  case (Cons p ps)
  have k': "unat (k + 1) = unat k + 1" using Cons.prems unat_add_small [of k 1] by simp
  obtain ret s' where fn: "fn p s = (ret, s')" by (cases "fn p s")
  show ?case
  proof (cases "k < n")
    case True
    then have "unat n - unat k = Suc (unat n - unat (k + 1))" using k' by (simp add: word_less_nat_alt Suc_diff_Suc)
    then show ?thesis using True Cons.IH [of "k + 1" s] Cons.prems k' by (simp add: skip_first_def)
  next
    case False
    then have z: "unat n - unat k = 0" "unat n - unat (k + 1) = 0" using k' by (simp_all add: word_less_nat_alt)
    then show ?thesis using False fn Cons.IH [of "k + 1" s'] Cons.prems k' by (simp add: skip_first_def)
  qed
qed simp

lemma length_items: "items adv base i as \<Longrightarrow> length as \<le> sum_list as"
  by (induction as arbitrary: i) fastforce+

lemma length_starts [simp]: "length (starts p as) = length as"
  by (induction as arbitrary: p) auto

text \<open>
  (C23) Going through the rules of a table whose entries follow one another: \<open>XT_ENTRY_ITERATE_CONTINUE\<close> calls the
  function for the entries from the given one on, in their order and each once, until a call does not
  return 0, and returns what that call did. It ends on every such table.
\<close>

theorem xt_entries_visited:
  assumes "spans (\<lambda>p. u16_at m (p + xt_next_offset type)) entries 0 as (unat sz)"
  shows "XT_ENTRY_ITERATE_CONTINUE m type entries sz n fn s = Some (visit fn (drop (unat n) (starts entries as)) s)"
proof -
  let ?adv = "\<lambda>p. u16_at m (p + xt_next_offset type)"
  obtain j where j: "iterate ?adv entries sz (skip_first n fn) 0 (0, s)
      = Some (case visit (skip_first n fn) (starts entries as) (0, s) of (ret, s) \<Rightarrow> (ret, j, s))"
    using iterate_covers [of ?adv entries 0 as sz "skip_first n fn" "(0, s)"] assms by auto
  have "length as < 2 ^ 32" using assms length_items [of ?adv entries 0 as] by (simp add: spans_def)
  then obtain k' where "visit (skip_first n fn) (starts entries as) (0, s)
      = (case visit fn (drop (unat n) (starts entries as)) s of (ret, s) \<Rightarrow> (ret, k', s))"
    using visit_skip [of 0 "starts entries as" n fn s] by auto
  then show ?thesis using j
    by (cases "visit fn (drop (unat n) (starts entries as)) s") (simp add: XT_ENTRY_ITERATE_CONTINUE_def)
qed

theorem xt_entries_visited_witness:
  "XT_ENTRY_ITERATE_CONTINUE (replicate 90 0 @ [112, 0] @ replicate 20 0) ipt_entry 0 112 0 (\<lambda>p s. (int p - 1, p # s)) []
    = Some (-1, [0])"
proof -
  let ?m = "replicate 90 (0 :: u8) @ [112, 0] @ replicate 20 0"
  have "rd_mem ?m 90 2 = Some [112, 0]" by (simp add: rd_mem_def)
  then have "spans (\<lambda>p. u16_at ?m (p + xt_next_offset ipt_entry)) 0 0 [112] (unat (112 :: u32))"
    by (simp add: spans_def ipt_entry_def u16_at_def load_u16_def)
  from xt_entries_visited [OF this, of 0 "\<lambda>p s. (int p - 1, p # s)" "[]"] show ?thesis by simp
qed




section \<open>Chunk maps\<close>

text \<open>
  A chunk map is an array of \<open>256 / sizeof (__u32)\<close> words of 32 bits; an index outside of it is \<open>None\<close>.
\<close>

definition SCTP_CHUNKMAP_SET :: "u32 list \<Rightarrow> nat \<Rightarrow> u32 list option" where
  "SCTP_CHUNKMAP_SET chunkmap type =
     (if type div 32 < length chunkmap
      then Some (chunkmap[type div 32 := chunkmap ! (type div 32) OR push_bit (type mod 32) 1]) else None)"

definition SCTP_CHUNKMAP_CLEAR :: "u32 list \<Rightarrow> nat \<Rightarrow> u32 list option" where
  "SCTP_CHUNKMAP_CLEAR chunkmap type =
     (if type div 32 < length chunkmap
      then Some (chunkmap[type div 32 := chunkmap ! (type div 32) AND NOT (push_bit (type mod 32) 1)]) else None)"

definition SCTP_CHUNKMAP_IS_SET :: "u32 list \<Rightarrow> nat \<Rightarrow> bool option" where
  "SCTP_CHUNKMAP_IS_SET chunkmap type =
     (if type div 32 < length chunkmap
      then Some (chunkmap ! (type div 32) AND push_bit (type mod 32) 1 \<noteq> 0) else None)"

definition SCTP_CHUNKMAP_RESET :: "u32 list \<Rightarrow> u32 list" where
  "SCTP_CHUNKMAP_RESET chunkmap = replicate (length chunkmap) 0"

definition SCTP_CHUNKMAP_SET_ALL :: "u32 list \<Rightarrow> u32 list" where
  "SCTP_CHUNKMAP_SET_ALL chunkmap = replicate (length chunkmap) (NOT 0)"

fun sctp_chunkmap_is_clear :: "u32 list \<Rightarrow> bool" where
  "sctp_chunkmap_is_clear [] \<longleftrightarrow> True"
| "sctp_chunkmap_is_clear (c # cs) \<longleftrightarrow> (if c \<noteq> 0 then False else sctp_chunkmap_is_clear cs)"

fun sctp_chunkmap_is_all_set :: "u32 list \<Rightarrow> bool" where
  "sctp_chunkmap_is_all_set [] \<longleftrightarrow> True"
| "sctp_chunkmap_is_all_set (c # cs) \<longleftrightarrow> (if c \<noteq> NOT 0 then False else sctp_chunkmap_is_all_set cs)"

definition xt_sctp_chunkmap_words :: nat where
  "xt_sctp_chunkmap_words = 256 div 4"

text \<open>A chunk map is a set of bits.\<close>

interpretation chunkmap: bit_set "\<lambda>cs. length cs = k" "32 * k" "\<lambda>t cs. SCTP_CHUNKMAP_SET cs t"
  "\<lambda>t cs. SCTP_CHUNKMAP_CLEAR cs t" "\<lambda>t cs. SCTP_CHUNKMAP_IS_SET cs t" members for k
proof
  fix cs :: "u32 list" and t :: nat
  assume "length cs = k" "t < 32 * k"
  then have t: "t div 32 < length cs" using place_less [where 'a = 32, of t k] by simp
  show "\<exists>cs'. SCTP_CHUNKMAP_SET cs t = Some cs' \<and> length cs' = k \<and> members cs' = insert t (members cs)"
    using t \<open>length cs = k\<close> members_set [of t cs] by (simp add: SCTP_CHUNKMAP_SET_def)
  show "\<exists>cs'. SCTP_CHUNKMAP_CLEAR cs t = Some cs' \<and> length cs' = k \<and> members cs' = members cs - {t}"
    using t \<open>length cs = k\<close> members_clear [of t cs] by (simp add: SCTP_CHUNKMAP_CLEAR_def)
  show "SCTP_CHUNKMAP_IS_SET cs t = Some (t \<in> members cs)"
    using t members_test [of t cs] by (simp add: SCTP_CHUNKMAP_IS_SET_def)
qed

lemma is_clear_replicate: "sctp_chunkmap_is_clear cs \<longleftrightarrow> cs = replicate (length cs) 0"
  by (induction cs) auto

lemma is_all_set_replicate: "sctp_chunkmap_is_all_set cs \<longleftrightarrow> cs = replicate (length cs) (NOT 0)"
  by (induction cs) auto

lemma is_clear_members: "sctp_chunkmap_is_clear cs \<longleftrightarrow> members cs = {}"
  by (simp only: is_clear_replicate members_empty)

lemma is_all_set_members: "sctp_chunkmap_is_all_set cs \<longleftrightarrow> members cs = {..<32 * length cs}"
  using members_full [of cs] by (simp add: is_all_set_replicate)

text \<open>
  (C36) A chunk map is the set of the chunk types in it. Any sequence of setting and clearing types that the array
  has room for succeeds and gives the set that inserting and deleting give, asking for a type afterwards
  tells whether it is in that set, and the two tests compare with the empty set and with the set of
  all the types that the array has room for.
\<close>

theorem chunkmap_is_set:
  assumes "\<forall>x \<in> set ops. op_arg x < 32 * length cs" "t < 32 * length cs"
  shows "\<exists>cs'. run_bits (\<lambda>t cs. SCTP_CHUNKMAP_SET cs t) (\<lambda>t cs. SCTP_CHUNKMAP_CLEAR cs t) ops cs = Some cs'
    \<and> length cs' = length cs \<and> members cs' = set_after ops (members cs)
    \<and> SCTP_CHUNKMAP_IS_SET cs' t = Some (t \<in> set_after ops (members cs))
    \<and> (sctp_chunkmap_is_clear cs' \<longleftrightarrow> set_after ops (members cs) = {})
    \<and> (sctp_chunkmap_is_all_set cs' \<longleftrightarrow> set_after ops (members cs) = {..<32 * length cs})
    \<and> members (SCTP_CHUNKMAP_RESET cs') = {} \<and> members (SCTP_CHUNKMAP_SET_ALL cs') = {..<32 * length cs}"
proof -
  obtain cs' where cs': "run_bits (\<lambda>t cs. SCTP_CHUNKMAP_SET cs t) (\<lambda>t cs. SCTP_CHUNKMAP_CLEAR cs t) ops cs = Some cs'"
    "length cs' = length cs" "members cs' = set_after ops (members cs)"
    using chunkmap.run_refines [OF refl assms(1)] by blast
  have "members (SCTP_CHUNKMAP_RESET cs') = {}"
    by (simp add: SCTP_CHUNKMAP_RESET_def members_const)
  moreover have "members (SCTP_CHUNKMAP_SET_ALL cs') = {..<32 * length cs}"
    using members_const(2) [of "length cs'", where 'a = 32] cs'(2) by (simp add: SCTP_CHUNKMAP_SET_ALL_def)
  ultimately show ?thesis
    using cs' chunkmap.test_law [OF cs'(2) assms(2)] is_clear_members [of cs'] is_all_set_members [of cs'] by simp
qed

theorem chunkmap_is_set_witness:
  "\<exists>cs'. run_bits (\<lambda>t cs. SCTP_CHUNKMAP_SET cs t) (\<lambda>t cs. SCTP_CHUNKMAP_CLEAR cs t) [Insert 3, Insert 34, Delete 3] [0, 0] = Some cs'
    \<and> SCTP_CHUNKMAP_IS_SET cs' 34 = Some True"
  using chunkmap_is_set [of "[Insert 3, Insert 34, Delete 3]" "[0, 0]" 34] by auto

text \<open>
  The array has 64 words, not the 8 that 256 chunk types need, since \<open>256 / sizeof (__u32)\<close> divides by
  a number of bytes: after all the 256 types of a chunk have been set the map does not count as all set.
\<close>

theorem all_types_not_all_set:
  "\<exists>cs. run_bits (\<lambda>t cs. SCTP_CHUNKMAP_SET cs t) (\<lambda>t cs. SCTP_CHUNKMAP_CLEAR cs t) (map Insert [0..<256])
      (SCTP_CHUNKMAP_RESET (replicate xt_sctp_chunkmap_words 0)) = Some cs
    \<and> members cs = {..<256} \<and> \<not> sctp_chunkmap_is_all_set cs"
proof -
  let ?cs = "SCTP_CHUNKMAP_RESET (replicate xt_sctp_chunkmap_words 0)"
  have len: "length ?cs = 64" by (simp add: SCTP_CHUNKMAP_RESET_def xt_sctp_chunkmap_words_def)
  have "members ?cs = {}" by (simp add: SCTP_CHUNKMAP_RESET_def members_const)
  moreover obtain cs where
    "run_bits (\<lambda>t cs. SCTP_CHUNKMAP_SET cs t) (\<lambda>t cs. SCTP_CHUNKMAP_CLEAR cs t) (map Insert [0..<256]) ?cs = Some cs"
    "length cs = 64" "members cs = set_after (map Insert [0..<256]) (members ?cs)"
    using chunkmap.run_refines [OF len, of "map Insert [0..<256]"] by auto
  moreover have "{..<256} \<noteq> {..<32 * 64 :: nat}" by (subst lessThan_eq_iff) simp
  ultimately show ?thesis
    by (simp add: is_all_set_members set_after_inserts atLeast0LessThan)
qed

end
