(* ===== verification/Bcache.thy ===== *)
theory Bcache
  imports Prelude "HOL-Library.Monad_Syntax"
begin

unbundle bit_operations_syntax

text \<open>
  The inline functions of \<open>include/linux/bcache.h\<close>: the bit fields of keys, pointers, superblocks and volume entries,
  and the walk over keys of different lengths that are packed in an array of 64-bit words.
\<close>

section \<open>Bit fields\<close>

text \<open>\<open>BITMASK\<close>: a field of \<open>size\<close> bits at \<open>offset\<close>.\<close>

definition low_mask :: "nat \<Rightarrow> u64" where
  "low_mask sz = NOT (push_bit sz (NOT 0))"

definition bitmask_get :: "nat \<Rightarrow> nat \<Rightarrow> u64 \<Rightarrow> u64" where
  "bitmask_get offset sz f = drop_bit offset f AND low_mask sz"

definition bitmask_set :: "nat \<Rightarrow> nat \<Rightarrow> u64 \<Rightarrow> u64 \<Rightarrow> u64" where
  "bitmask_set offset sz f v =
     (let f = f AND NOT (push_bit offset (low_mask sz))
      in f OR push_bit offset (v AND low_mask sz))"

record bkey =
  high :: u64
  low :: u64
  ptr :: "u64 list"

definition KEY_PTRS :: "bkey \<Rightarrow> u64" where "KEY_PTRS k = bitmask_get 60 3 (high k)"
definition SET_KEY_PTRS :: "bkey \<Rightarrow> u64 \<Rightarrow> bkey" where "SET_KEY_PTRS k v = k\<lparr>high := bitmask_set 60 3 (high k) v\<rparr>"
definition HEADER_SIZE :: "bkey \<Rightarrow> u64" where "HEADER_SIZE k = bitmask_get 58 2 (high k)"
definition SET_HEADER_SIZE :: "bkey \<Rightarrow> u64 \<Rightarrow> bkey" where "SET_HEADER_SIZE k v = k\<lparr>high := bitmask_set 58 2 (high k) v\<rparr>"
definition KEY_CSUM :: "bkey \<Rightarrow> u64" where "KEY_CSUM k = bitmask_get 56 2 (high k)"
definition SET_KEY_CSUM :: "bkey \<Rightarrow> u64 \<Rightarrow> bkey" where "SET_KEY_CSUM k v = k\<lparr>high := bitmask_set 56 2 (high k) v\<rparr>"
definition KEY_PINNED :: "bkey \<Rightarrow> u64" where "KEY_PINNED k = bitmask_get 55 1 (high k)"
definition SET_KEY_PINNED :: "bkey \<Rightarrow> u64 \<Rightarrow> bkey" where "SET_KEY_PINNED k v = k\<lparr>high := bitmask_set 55 1 (high k) v\<rparr>"
definition KEY_DIRTY :: "bkey \<Rightarrow> u64" where "KEY_DIRTY k = bitmask_get 36 1 (high k)"
definition SET_KEY_DIRTY :: "bkey \<Rightarrow> u64 \<Rightarrow> bkey" where "SET_KEY_DIRTY k v = k\<lparr>high := bitmask_set 36 1 (high k) v\<rparr>"
definition KEY_SIZE :: "bkey \<Rightarrow> u64" where "KEY_SIZE k = bitmask_get 20 16 (high k)"
definition SET_KEY_SIZE :: "bkey \<Rightarrow> u64 \<Rightarrow> bkey" where "SET_KEY_SIZE k v = k\<lparr>high := bitmask_set 20 16 (high k) v\<rparr>"
definition KEY_INODE :: "bkey \<Rightarrow> u64" where "KEY_INODE k = bitmask_get 0 20 (high k)"
definition SET_KEY_INODE :: "bkey \<Rightarrow> u64 \<Rightarrow> bkey" where "SET_KEY_INODE k v = k\<lparr>high := bitmask_set 0 20 (high k) v\<rparr>"

definition KEY_OFFSET :: "bkey \<Rightarrow> u64" where "KEY_OFFSET k = low k"
definition SET_KEY_OFFSET :: "bkey \<Rightarrow> u64 \<Rightarrow> bkey" where "SET_KEY_OFFSET k v = k\<lparr>low := v\<rparr>"

definition KEY :: "u64 \<Rightarrow> u64 \<Rightarrow> u64 \<Rightarrow> bkey" where
  "KEY inode offset sz = \<lparr>high = push_bit 63 1 OR push_bit 20 sz OR inode, low = offset, ptr = []\<rparr>"

definition ZERO_KEY :: bkey where
  "ZERO_KEY = KEY 0 0 0"

definition MAX_KEY_INODE :: u64 where "MAX_KEY_INODE = ucast (NOT (push_bit 20 (NOT 0)) :: u32)"
definition MAX_KEY_OFFSET :: u64 where "MAX_KEY_OFFSET = drop_bit 1 (NOT 0)"
definition MAX_KEY :: bkey where "MAX_KEY = KEY MAX_KEY_INODE MAX_KEY_OFFSET 0"

definition KEY_START :: "bkey \<Rightarrow> u64" where
  "KEY_START k = KEY_OFFSET k - KEY_SIZE k"

definition START_KEY :: "bkey \<Rightarrow> bkey" where
  "START_KEY k = KEY (KEY_INODE k) (KEY_START k) 0"

text \<open>Pointers; an index behind the last pointer of the key is outside of it.\<close>

definition ptr_field :: "nat \<Rightarrow> nat \<Rightarrow> bkey \<Rightarrow> nat \<Rightarrow> u64 option" where
  "ptr_field offset sz k i = (if i < length (ptr k) then Some (bitmask_get offset sz (ptr k ! i)) else None)"

definition set_ptr_field :: "nat \<Rightarrow> nat \<Rightarrow> bkey \<Rightarrow> nat \<Rightarrow> u64 \<Rightarrow> bkey option" where
  "set_ptr_field offset sz k i v =
     (if i < length (ptr k) then Some (k\<lparr>ptr := (ptr k)[i := bitmask_set offset sz (ptr k ! i) v]\<rparr>) else None)"

definition PTR_DEV :: "bkey \<Rightarrow> nat \<Rightarrow> u64 option" where "PTR_DEV = ptr_field 51 12"
definition SET_PTR_DEV :: "bkey \<Rightarrow> nat \<Rightarrow> u64 \<Rightarrow> bkey option" where "SET_PTR_DEV = set_ptr_field 51 12"
definition PTR_OFFSET :: "bkey \<Rightarrow> nat \<Rightarrow> u64 option" where "PTR_OFFSET = ptr_field 8 43"
definition SET_PTR_OFFSET :: "bkey \<Rightarrow> nat \<Rightarrow> u64 \<Rightarrow> bkey option" where "SET_PTR_OFFSET = set_ptr_field 8 43"
definition PTR_GEN :: "bkey \<Rightarrow> nat \<Rightarrow> u64 option" where "PTR_GEN = ptr_field 0 8"
definition SET_PTR_GEN :: "bkey \<Rightarrow> nat \<Rightarrow> u64 \<Rightarrow> bkey option" where "SET_PTR_GEN = set_ptr_field 0 8"

definition PTR_CHECK_DEV :: u64 where "PTR_CHECK_DEV = push_bit 12 1 - 1"

definition MAKE_PTR :: "u64 \<Rightarrow> u64 \<Rightarrow> u64 \<Rightarrow> u64" where
  "MAKE_PTR gen offset dev = push_bit 51 dev OR push_bit 8 offset OR gen"

section \<open>Keys in an array\<close>

definition bkey_u64s :: "bkey \<Rightarrow> u64" where
  "bkey_u64s k = 16 div 8 + KEY_PTRS k"

definition bkey_bytes :: "bkey \<Rightarrow> u64" where
  "bkey_bytes k = bkey_u64s k * 8"

definition bkey_copy_key :: "bkey \<Rightarrow> bkey \<Rightarrow> bkey" where
  "bkey_copy_key dest src =
     (let dest = SET_KEY_INODE dest (KEY_INODE src) in SET_KEY_OFFSET dest (KEY_OFFSET src))"

text \<open>A \<open>struct bkey *\<close> is the index of its first word; behind two words its pointers begin.\<close>

definition key_at :: "u64 list \<Rightarrow> nat \<Rightarrow> bkey option" where
  "key_at d k = (if k + 2 \<le> length d then Some \<lparr>high = d ! k, low = d ! (k + 1), ptr = drop (k + 2) d\<rparr> else None)"

definition bkey_next :: "u64 list \<Rightarrow> nat \<Rightarrow> nat option" where
  "bkey_next d k = do { key \<leftarrow> key_at d k; Some (k + unat (bkey_u64s key)) }"

definition bkey_idx :: "nat \<Rightarrow> u32 \<Rightarrow> nat" where
  "bkey_idx k nr_keys = k + unat nr_keys"

section \<open>Superblocks\<close>

record cache_sb =
  version :: u64
  set_magic :: u64
  flags :: u64

definition SB_IS_BDEV :: "cache_sb \<Rightarrow> bool" where
  "SB_IS_BDEV sb \<longleftrightarrow> version sb = 1 \<or> version sb = 4"

definition CACHE_SYNC :: "cache_sb \<Rightarrow> u64" where "CACHE_SYNC k = bitmask_get 0 1 (flags k)"
definition SET_CACHE_SYNC :: "cache_sb \<Rightarrow> u64 \<Rightarrow> cache_sb" where "SET_CACHE_SYNC k v = k\<lparr>flags := bitmask_set 0 1 (flags k) v\<rparr>"
definition CACHE_DISCARD :: "cache_sb \<Rightarrow> u64" where "CACHE_DISCARD k = bitmask_get 1 1 (flags k)"
definition SET_CACHE_DISCARD :: "cache_sb \<Rightarrow> u64 \<Rightarrow> cache_sb" where "SET_CACHE_DISCARD k v = k\<lparr>flags := bitmask_set 1 1 (flags k) v\<rparr>"
definition CACHE_REPLACEMENT :: "cache_sb \<Rightarrow> u64" where "CACHE_REPLACEMENT k = bitmask_get 2 3 (flags k)"
definition SET_CACHE_REPLACEMENT :: "cache_sb \<Rightarrow> u64 \<Rightarrow> cache_sb" where "SET_CACHE_REPLACEMENT k v = k\<lparr>flags := bitmask_set 2 3 (flags k) v\<rparr>"
definition BDEV_CACHE_MODE :: "cache_sb \<Rightarrow> u64" where "BDEV_CACHE_MODE k = bitmask_get 0 4 (flags k)"
definition SET_BDEV_CACHE_MODE :: "cache_sb \<Rightarrow> u64 \<Rightarrow> cache_sb" where "SET_BDEV_CACHE_MODE k v = k\<lparr>flags := bitmask_set 0 4 (flags k) v\<rparr>"
definition BDEV_STATE :: "cache_sb \<Rightarrow> u64" where "BDEV_STATE k = bitmask_get 61 2 (flags k)"
definition SET_BDEV_STATE :: "cache_sb \<Rightarrow> u64 \<Rightarrow> cache_sb" where "SET_BDEV_STATE k v = k\<lparr>flags := bitmask_set 61 2 (flags k) v\<rparr>"

definition jset_magic :: "cache_sb \<Rightarrow> u64" where "jset_magic sb = set_magic sb XOR 0x245235c1a3625032"
definition pset_magic :: "cache_sb \<Rightarrow> u64" where "pset_magic sb = set_magic sb XOR 0x6750e15f87337f91"
definition bset_magic :: "cache_sb \<Rightarrow> u64" where "bset_magic sb = set_magic sb XOR 0x90135c78b99e07f5"

text \<open>The flags of a volume entry have 32 bits: the new value is cut on the store.\<close>

record uuid_entry =
  ue_flags :: u32

definition UUID_FLASH_ONLY :: "uuid_entry \<Rightarrow> u64" where
  "UUID_FLASH_ONLY k = bitmask_get 0 1 (ucast (ue_flags k))"

definition SET_UUID_FLASH_ONLY :: "uuid_entry \<Rightarrow> u64 \<Rightarrow> uuid_entry" where
  "SET_UUID_FLASH_ONLY k v =
     (let f = ucast (ucast (ue_flags k) AND NOT (push_bit 0 (low_mask 1))) :: u32
      in k\<lparr>ue_flags := ucast (ucast f OR push_bit 0 (v AND low_mask 1))\<rparr>)"

section \<open>Fields as bits\<close>

lemma bit_low_mask [simp]: "bit (low_mask sz) n \<longleftrightarrow> n < sz \<and> n < 64"
  by (auto simp: low_mask_def bit_simps)

lemma bit_bitmask_get: "bit (bitmask_get offset sz f) n \<longleftrightarrow> n < sz \<and> n < 64 \<and> bit f (offset + n)"
  by (auto simp: bitmask_get_def bit_simps)

lemma bit_bitmask_set:
  "n < 64 \<Longrightarrow> bit (bitmask_set offset sz f v) n \<longleftrightarrow>
    (if offset \<le> n \<and> n < offset + sz then bit v (n - offset) else bit f n)"
  by (auto simp: bitmask_set_def bit_simps Let_def)

lemma bitmask_get_set:
  assumes "offset + sz \<le> 64"
  shows "bitmask_get offset sz (bitmask_set offset sz f v) = take_bit sz v"
  by (rule bit_word_eqI) (use assms in \<open>auto simp: bit_bitmask_get bit_bitmask_set bit_take_bit_iff\<close>)

lemma bitmask_get_other:
  assumes "offset + sz \<le> 64" "offset + sz \<le> offset' \<or> offset' + sz' \<le> offset"
  shows "bitmask_get offset sz (bitmask_set offset' sz' f v) = bitmask_get offset sz f"
  by (rule bit_word_eqI) (use assms in \<open>auto simp: bit_bitmask_get bit_bitmask_set\<close>)

lemma bitmask_set_get: "offset + sz \<le> 64 \<Longrightarrow> bitmask_set offset sz f (bitmask_get offset sz f) = f"
  by (rule bit_word_eqI) (auto simp: bit_bitmask_get bit_bitmask_set)

text \<open>
  The contract of fields that share a word: what is set in one is read back from it, cut to its width,
  and no other field changes; putting back what was read changes nothing.
\<close>

locale bit_fields =
  fixes fields :: "'f set"
    and width :: "'f \<Rightarrow> nat"
    and get :: "'f \<Rightarrow> 's \<Rightarrow> u64"
    and put :: "'f \<Rightarrow> 's \<Rightarrow> u64 \<Rightarrow> 's"
  assumes get_put: "f \<in> fields \<Longrightarrow> g \<in> fields \<Longrightarrow> get f (put g s v) = (if f = g then take_bit (width g) v else get f s)"
    and put_get: "f \<in> fields \<Longrightarrow> put f s (get f s) = s"
begin

text \<open>After any stores a field has the last value that was put into it.\<close>

lemma get_puts:
  assumes "f \<in> fields" "\<forall>(g, v) \<in> set ps. g \<in> fields"
  shows "get f (fold (\<lambda>(g, v) s. put g s v) ps s)
    = (case map_of (rev ps) f of None \<Rightarrow> get f s | Some v \<Rightarrow> take_bit (width f) v)"
  using assms(2)
proof (induction ps rule: rev_induct)
  case (snoc p ps)
  obtain g v where p: "p = (g, v)" by (cases p)
  then show ?case using snoc by (simp add: get_put [OF assms(1)])
qed simp

end


section \<open>Keys\<close>

datatype key_field = F_PTRS | F_HEADER | F_CSUM | F_PINNED | F_DIRTY | F_SIZE | F_INODE | F_OFFSET

fun key_get :: "key_field \<Rightarrow> bkey \<Rightarrow> u64" where
  "key_get F_PTRS = KEY_PTRS" | "key_get F_HEADER = HEADER_SIZE" | "key_get F_CSUM = KEY_CSUM"
| "key_get F_PINNED = KEY_PINNED" | "key_get F_DIRTY = KEY_DIRTY" | "key_get F_SIZE = KEY_SIZE"
| "key_get F_INODE = KEY_INODE" | "key_get F_OFFSET = KEY_OFFSET"

fun key_put :: "key_field \<Rightarrow> bkey \<Rightarrow> u64 \<Rightarrow> bkey" where
  "key_put F_PTRS = SET_KEY_PTRS" | "key_put F_HEADER = SET_HEADER_SIZE" | "key_put F_CSUM = SET_KEY_CSUM"
| "key_put F_PINNED = SET_KEY_PINNED" | "key_put F_DIRTY = SET_KEY_DIRTY" | "key_put F_SIZE = SET_KEY_SIZE"
| "key_put F_INODE = SET_KEY_INODE" | "key_put F_OFFSET = SET_KEY_OFFSET"

fun key_width :: "key_field \<Rightarrow> nat" where
  "key_width F_PTRS = 3" | "key_width F_HEADER = 2" | "key_width F_CSUM = 2" | "key_width F_PINNED = 1"
| "key_width F_DIRTY = 1" | "key_width F_SIZE = 16" | "key_width F_INODE = 20" | "key_width F_OFFSET = 64"

lemmas key_defs = KEY_PTRS_def SET_KEY_PTRS_def HEADER_SIZE_def SET_HEADER_SIZE_def KEY_CSUM_def SET_KEY_CSUM_def
  KEY_PINNED_def SET_KEY_PINNED_def KEY_DIRTY_def SET_KEY_DIRTY_def KEY_SIZE_def SET_KEY_SIZE_def
  KEY_INODE_def SET_KEY_INODE_def KEY_OFFSET_def SET_KEY_OFFSET_def

lemmas field_laws = bitmask_get_set bitmask_get_other bitmask_set_get

lemma take_bit_word_64 [simp]: "take_bit 64 (v :: u64) = v"
  by (rule bit_word_eqI) (simp add: bit_take_bit_iff)

interpretation key_fields: bit_fields UNIV key_width key_get key_put
proof
  show "key_get f (key_put g k v) = (if f = g then take_bit (key_width g) v else key_get f k)" for f g k v
    by (cases f; cases g) (simp_all add: key_defs field_laws)
  show "key_put f k (key_get f k) = k" for f k
    by (cases f) (simp_all add: key_defs field_laws)
qed

section \<open>Superblocks\<close>

datatype cache_field = F_SYNC | F_DISCARD | F_REPLACEMENT | F_MODE | F_STATE

fun sb_get :: "cache_field \<Rightarrow> cache_sb \<Rightarrow> u64" where
  "sb_get F_SYNC = CACHE_SYNC" | "sb_get F_DISCARD = CACHE_DISCARD" | "sb_get F_REPLACEMENT = CACHE_REPLACEMENT"
| "sb_get F_MODE = BDEV_CACHE_MODE" | "sb_get F_STATE = BDEV_STATE"

fun sb_put :: "cache_field \<Rightarrow> cache_sb \<Rightarrow> u64 \<Rightarrow> cache_sb" where
  "sb_put F_SYNC = SET_CACHE_SYNC" | "sb_put F_DISCARD = SET_CACHE_DISCARD" | "sb_put F_REPLACEMENT = SET_CACHE_REPLACEMENT"
| "sb_put F_MODE = SET_BDEV_CACHE_MODE" | "sb_put F_STATE = SET_BDEV_STATE"

fun sb_width :: "cache_field \<Rightarrow> nat" where
  "sb_width F_SYNC = 1" | "sb_width F_DISCARD = 1" | "sb_width F_REPLACEMENT = 3" | "sb_width F_MODE = 4" | "sb_width F_STATE = 2"

lemmas sb_defs = CACHE_SYNC_def SET_CACHE_SYNC_def CACHE_DISCARD_def SET_CACHE_DISCARD_def CACHE_REPLACEMENT_def
  SET_CACHE_REPLACEMENT_def BDEV_CACHE_MODE_def SET_BDEV_CACHE_MODE_def BDEV_STATE_def SET_BDEV_STATE_def

text \<open>The fields of a cache device and those of a backing device share the word of flags.\<close>

interpretation cdev_fields: bit_fields "{F_SYNC, F_DISCARD, F_REPLACEMENT}" sb_width sb_get sb_put
proof
  show "sb_get f (sb_put g k v) = (if f = g then take_bit (sb_width g) v else sb_get f k)"
    if "f \<in> {F_SYNC, F_DISCARD, F_REPLACEMENT}" "g \<in> {F_SYNC, F_DISCARD, F_REPLACEMENT}" for f g k v
    using that by (cases f; cases g) (simp_all add: sb_defs field_laws)
  show "sb_put f k (sb_get f k) = k" for f k
    by (cases f) (simp_all add: sb_defs field_laws)
qed

interpretation bdev_fields: bit_fields "{F_MODE, F_STATE}" sb_width sb_get sb_put
proof
  show "sb_get f (sb_put g k v) = (if f = g then take_bit (sb_width g) v else sb_get f k)"
    if "f \<in> {F_MODE, F_STATE}" "g \<in> {F_MODE, F_STATE}" for f g k v
    using that by (cases f; cases g) (simp_all add: sb_defs field_laws)
  show "sb_put f k (sb_get f k) = k" for f k
    by (cases f) (simp_all add: sb_defs field_laws)
qed

section \<open>Walking over keys\<close>

lemma unat_KEY_PTRS: "unat (KEY_PTRS k) < 8"
proof -
  have "KEY_PTRS k = take_bit 3 (KEY_PTRS k)"
    by (rule bit_word_eqI) (auto simp: key_defs bit_bitmask_get bit_take_bit_iff)
  then have "unat (KEY_PTRS k) = take_bit 3 (unat (KEY_PTRS k))"
    by (metis unsigned_take_bit_eq)
  then show ?thesis using take_bit_nat_less_exp [of 3 "unat (KEY_PTRS k)"] by simp
qed

lemma unat_bkey_u64s: "unat (bkey_u64s k) = 2 + unat (KEY_PTRS k)"
proof -
  have "unat (2 + KEY_PTRS k) = unat (2 :: u64) + unat (KEY_PTRS k)"
    using unat_KEY_PTRS [of k] by (subst unat_word_ariths) simp
  then show ?thesis by (simp add: bkey_u64s_def)
qed

text \<open>The walk over a set of keys: the keys from \<open>k\<close> up to \<open>e\<close>, each with as many pointers as it says.\<close>

definition whole_key :: "bkey \<Rightarrow> bkey" where
  "whole_key k = k\<lparr>ptr := take (unat (KEY_PTRS k)) (ptr k)\<rparr>"

partial_function (option) bkey_walk :: "u64 list \<Rightarrow> nat \<Rightarrow> nat \<Rightarrow> bkey list option" where
  "bkey_walk d e k =
     (if k < e then do {
        key \<leftarrow> key_at d k;
        n \<leftarrow> bkey_next d k;
        keys \<leftarrow> bkey_walk d e n;
        Some (whole_key key # keys)
      } else Some [])"

definition key_words :: "bkey \<Rightarrow> u64 list" where
  "key_words k = high k # low k # ptr k"

definition wf_key :: "bkey \<Rightarrow> bool" where
  "wf_key k \<longleftrightarrow> length (ptr k) = unat (KEY_PTRS k)"

lemma key_at_words:
  "key_at (as @ key_words k @ bs) (length as) = Some (k\<lparr>ptr := ptr k @ bs\<rparr>)"
  by (simp add: key_at_def key_words_def nth_append)

lemma KEY_PTRS_upd [simp]: "KEY_PTRS (k\<lparr>ptr := ps\<rparr>) = KEY_PTRS k"
  by (simp add: KEY_PTRS_def)

lemma bkey_walk_from:
  "\<forall>k \<in> set ks. wf_key k \<Longrightarrow>
    bkey_walk (as @ concat (map key_words ks) @ bs) (length as + length (concat (map key_words ks))) (length as) = Some ks"
proof (induction ks arbitrary: as)
  case Nil
  then show ?case by (subst bkey_walk.simps) simp
next
  case (Cons k ks)
  let ?d = "as @ key_words k @ concat (map key_words ks) @ bs"
  have len: "length (key_words k) = unat (bkey_u64s k)"
    using Cons.prems by (simp add: key_words_def wf_key_def unat_bkey_u64s)
  have at: "key_at ?d (length as) = Some (k\<lparr>ptr := ptr k @ concat (map key_words ks) @ bs\<rparr>)"
    using key_at_words [of as k "concat (map key_words ks) @ bs"] by simp
  have "whole_key (k\<lparr>ptr := ptr k @ concat (map key_words ks) @ bs\<rparr>) = k"
    using Cons.prems by (simp add: whole_key_def wf_key_def)
  moreover have "bkey_next ?d (length as) = Some (length as + length (key_words k))"
    using at len by (simp add: bkey_next_def bkey_u64s_def)
  moreover have "bkey_walk ?d (length as + length (key_words k) + length (concat (map key_words ks)))
      (length as + length (key_words k)) = Some ks"
    using Cons.IH [of "as @ key_words k"] Cons.prems by simp
  moreover have "length as < length as + length (key_words k) + length (concat (map key_words ks))"
    by (simp add: key_words_def)
  ultimately show ?case using at by (subst bkey_walk.simps) (simp add: add.assoc)
qed

section \<open>Theorems\<close>

text \<open>
  The fields of a key: whatever stores are made into its fields, a field holds what was put into
  it last, cut to its width, or what it held before; no store touches another field.
\<close>

theorem bkey_fields_kept:
  "key_get f (fold (\<lambda>(g, v) k. key_put g k v) ps k)
    = (case map_of (rev ps) f of None \<Rightarrow> key_get f k | Some v \<Rightarrow> take_bit (key_width f) v)"
  by (rule key_fields.get_puts) auto



text \<open>
  A pointer that \<open>MAKE_PTR\<close> packs from a generation, an offset and a device of their widths is read
  back by the three accessors, and replacing one of the parts leaves the other two.
\<close>

theorem make_ptr_roundtrip:
  assumes "gen < 2 ^ 8" "offset < 2 ^ 43" "dev < 2 ^ 12" "i < length (ptr k)" "ptr k ! i = MAKE_PTR gen offset dev"
  shows "PTR_GEN k i = Some gen \<and> PTR_OFFSET k i = Some offset \<and> PTR_DEV k i = Some dev
    \<and> (\<exists>k'. SET_PTR_GEN k i v = Some k' \<and> PTR_GEN k' i = Some (take_bit 8 v) \<and> PTR_OFFSET k' i = Some offset
        \<and> PTR_DEV k' i = Some dev)"
proof -
  have bits: "bit gen n \<Longrightarrow> n < 8" "bit offset n \<Longrightarrow> n < 43" "bit dev n \<Longrightarrow> n < 12" for n
    using word_bit_less [OF assms(1)] word_bit_less [OF assms(2)] word_bit_less [OF assms(3)] by blast+
  have "bitmask_get 0 8 (MAKE_PTR gen offset dev) = gen" "bitmask_get 8 43 (MAKE_PTR gen offset dev) = offset"
    "bitmask_get 51 12 (MAKE_PTR gen offset dev) = dev"
    by (rule bit_word_eqI; use bits in \<open>fastforce simp: bit_bitmask_get MAKE_PTR_def bit_simps\<close>)+
  then show ?thesis using assms(4,5)
    by (simp add: PTR_GEN_def PTR_OFFSET_def PTR_DEV_def SET_PTR_GEN_def ptr_field_def set_ptr_field_def field_laws)
qed

theorem make_ptr_roundtrip_witness:
  "PTR_OFFSET (ZERO_KEY\<lparr>ptr := [MAKE_PTR 3 1000 7]\<rparr>) 0 = Some 1000"
  using make_ptr_roundtrip [of 3 1000 7 0 "ZERO_KEY\<lparr>ptr := [MAKE_PTR 3 1000 7]\<rparr>"] by simp

text \<open>
  A key has between 2 and 9 words, and a \<open>BKEY_PADDED\<close> of 8 words takes a copy of it exactly when it
  has at most 6 pointers.
\<close>

theorem bkey_padded_fits:
  "2 \<le> unat (bkey_u64s k) \<and> unat (bkey_u64s k) \<le> 9 \<and> unat (bkey_bytes k) = 8 * unat (bkey_u64s k)
    \<and> (unat (bkey_bytes k) \<le> 8 * 8 \<longleftrightarrow> unat (KEY_PTRS k) \<le> 6)"
proof -
  have "unat (bkey_bytes k) = 8 * unat (bkey_u64s k)"
    using unat_KEY_PTRS [of k] unat_bkey_u64s [of k] unfolding bkey_bytes_def by (subst unat_word_ariths) simp
  then show ?thesis using unat_KEY_PTRS [of k] unat_bkey_u64s [of k] by auto
qed


end
