(* ===== verification/Usb.thy ===== *)
theory Usb
  imports Prelude "HOL-Library.Monad_Syntax"
begin

unbundle bit_operations_syntax

text \<open>
  The inline functions of \<open>include/linux/usb/ch9.h\<close> on endpoint descriptors and of \<open>include/linux/usb/audio.h\<close> on
  the descriptors of audio units. An audio descriptor is the list of its bytes, since where its fields are
  depends on the number of inputs and on the version of the audio class; reading behind its end is \<open>None\<close>.
\<close>

section \<open>Endpoints\<close>

record usb_endpoint_descriptor =
  bEndpointAddress :: u8
  bmAttributes :: u8
  wMaxPacketSize :: u16

definition usb_endpoint_num :: "usb_endpoint_descriptor \<Rightarrow> u32" where
  "usb_endpoint_num epd = i8 (bEndpointAddress epd) AND 0x0f"

definition usb_endpoint_type :: "usb_endpoint_descriptor \<Rightarrow> u32" where
  "usb_endpoint_type epd = i8 (bmAttributes epd) AND 0x03"

definition usb_endpoint_dir_in :: "usb_endpoint_descriptor \<Rightarrow> bool" where
  "usb_endpoint_dir_in epd \<longleftrightarrow> i8 (bEndpointAddress epd) AND 0x80 = 0x80"

definition usb_endpoint_dir_out :: "usb_endpoint_descriptor \<Rightarrow> bool" where
  "usb_endpoint_dir_out epd \<longleftrightarrow> i8 (bEndpointAddress epd) AND 0x80 = 0"

definition usb_endpoint_xfer_bulk :: "usb_endpoint_descriptor \<Rightarrow> bool" where
  "usb_endpoint_xfer_bulk epd \<longleftrightarrow> i8 (bmAttributes epd) AND 0x03 = 2"

definition usb_endpoint_xfer_control :: "usb_endpoint_descriptor \<Rightarrow> bool" where
  "usb_endpoint_xfer_control epd \<longleftrightarrow> i8 (bmAttributes epd) AND 0x03 = 0"

definition usb_endpoint_xfer_int :: "usb_endpoint_descriptor \<Rightarrow> bool" where
  "usb_endpoint_xfer_int epd \<longleftrightarrow> i8 (bmAttributes epd) AND 0x03 = 3"

definition usb_endpoint_xfer_isoc :: "usb_endpoint_descriptor \<Rightarrow> bool" where
  "usb_endpoint_xfer_isoc epd \<longleftrightarrow> i8 (bmAttributes epd) AND 0x03 = 1"

definition usb_endpoint_is_bulk_in :: "usb_endpoint_descriptor \<Rightarrow> bool" where
  "usb_endpoint_is_bulk_in epd \<longleftrightarrow> usb_endpoint_xfer_bulk epd \<and> usb_endpoint_dir_in epd"

definition usb_endpoint_is_bulk_out :: "usb_endpoint_descriptor \<Rightarrow> bool" where
  "usb_endpoint_is_bulk_out epd \<longleftrightarrow> usb_endpoint_xfer_bulk epd \<and> usb_endpoint_dir_out epd"

definition usb_endpoint_is_int_in :: "usb_endpoint_descriptor \<Rightarrow> bool" where
  "usb_endpoint_is_int_in epd \<longleftrightarrow> usb_endpoint_xfer_int epd \<and> usb_endpoint_dir_in epd"

definition usb_endpoint_is_int_out :: "usb_endpoint_descriptor \<Rightarrow> bool" where
  "usb_endpoint_is_int_out epd \<longleftrightarrow> usb_endpoint_xfer_int epd \<and> usb_endpoint_dir_out epd"

definition usb_endpoint_is_isoc_in :: "usb_endpoint_descriptor \<Rightarrow> bool" where
  "usb_endpoint_is_isoc_in epd \<longleftrightarrow> usb_endpoint_xfer_isoc epd \<and> usb_endpoint_dir_in epd"

definition usb_endpoint_is_isoc_out :: "usb_endpoint_descriptor \<Rightarrow> bool" where
  "usb_endpoint_is_isoc_out epd \<longleftrightarrow> usb_endpoint_xfer_isoc epd \<and> usb_endpoint_dir_out epd"

text \<open>The host is little endian: \<open>__le16_to_cpu\<close> changes nothing.\<close>

definition usb_endpoint_maxp :: "usb_endpoint_descriptor \<Rightarrow> u32" where
  "usb_endpoint_maxp epd = i16 (wMaxPacketSize epd) AND 0x07ff"

definition USB_EP_MAXP_MULT :: "u32 \<Rightarrow> u32" where
  "USB_EP_MAXP_MULT m = drop_bit 11 (m AND push_bit 11 3)"

definition usb_endpoint_maxp_mult :: "usb_endpoint_descriptor \<Rightarrow> u32" where
  "usb_endpoint_maxp_mult epd = (let maxp = i16 (wMaxPacketSize epd) in USB_EP_MAXP_MULT maxp + 1)"

definition usb_endpoint_interrupt_type :: "usb_endpoint_descriptor \<Rightarrow> u32" where
  "usb_endpoint_interrupt_type epd = i8 (bmAttributes epd) AND 0x30"

text \<open>
  The argument is the attribute byte of the companion descriptor, \<open>None\<close> for a null pointer. The shift is on
  \<open>int\<close>: \<open>None\<close> is its overflow.
\<close>

definition usb_ss_max_streams :: "u8 option \<Rightarrow> int option" where
  "usb_ss_max_streams companion =
     (case companion of
        None \<Rightarrow> Some 0
      | Some attributes \<Rightarrow>
          let max_streams = uint (i8 attributes AND 0x1f)
          in if max_streams = 0 then Some 0
             else if max_streams < 31 then Some (push_bit (nat max_streams) 1) else None)"

section \<open>Audio units\<close>

definition byte_at :: "u8 list \<Rightarrow> nat \<Rightarrow> u8 option" where
  "byte_at desc i = (if i < length desc then Some (desc ! i) else None)"

abbreviation (input) UAC_VERSION_1 :: int where "UAC_VERSION_1 \<equiv> 0x00"
abbreviation (input) UAC_VERSION_2 :: int where "UAC_VERSION_2 \<equiv> 0x20"
abbreviation (input) UAC_VERSION_3 :: int where "UAC_VERSION_3 \<equiv> 0x30"

text \<open>
  Mixer and selector units: \<open>bLength\<close> is byte 0, \<open>bNrInPins\<close> byte 4, \<open>baSourceID\<close> starts at byte 5. Pointers are
  offsets; \<open>Some None\<close> is a null pointer that is returned.
\<close>

definition mixer_source :: "u8 list \<Rightarrow> nat \<Rightarrow> u8 option" where
  "mixer_source desc i = do { n \<leftarrow> byte_at desc 4; byte_at desc (5 + unat n + i) }"

definition uac_mixer_unit_bNrChannels :: "u8 list \<Rightarrow> u8 option" where
  "uac_mixer_unit_bNrChannels desc = mixer_source desc 0"

definition uac_mixer_unit_wChannelConfig :: "u8 list \<Rightarrow> int \<Rightarrow> u32 option" where
  "uac_mixer_unit_wChannelConfig desc protocol =
     (if protocol = UAC_VERSION_1 then do {
        b2 \<leftarrow> mixer_source desc 2; b1 \<leftarrow> mixer_source desc 1;
        Some (push_bit 8 (i8 b2) OR i8 b1)
      } else do {
        b4 \<leftarrow> mixer_source desc 4; b3 \<leftarrow> mixer_source desc 3; b2 \<leftarrow> mixer_source desc 2; b1 \<leftarrow> mixer_source desc 1;
        Some (push_bit 24 (i8 b4) OR push_bit 16 (i8 b3) OR push_bit 8 (i8 b2) OR i8 b1)
      })"

definition uac_mixer_unit_iChannelNames :: "u8 list \<Rightarrow> int \<Rightarrow> u8 option" where
  "uac_mixer_unit_iChannelNames desc protocol =
     (if protocol = UAC_VERSION_1 then mixer_source desc 3 else mixer_source desc 5)"

definition uac_mixer_unit_bmControls :: "u8 list \<Rightarrow> int \<Rightarrow> nat option option" where
  "uac_mixer_unit_bmControls desc protocol =
     (if protocol = UAC_VERSION_1 then do { n \<leftarrow> byte_at desc 4; Some (Some (5 + unat n + 4)) }
      else if protocol = UAC_VERSION_2 then do { n \<leftarrow> byte_at desc 4; Some (Some (5 + unat n + 6)) }
      else if protocol = UAC_VERSION_3 then do { n \<leftarrow> byte_at desc 4; Some (Some (5 + unat n + 2)) }
      else Some None)"

definition uac3_mixer_unit_wClusterDescrID :: "u8 list \<Rightarrow> u16 option" where
  "uac3_mixer_unit_wClusterDescrID desc = do {
     b1 \<leftarrow> mixer_source desc 1; b0 \<leftarrow> mixer_source desc 0;
     Some (to_u16 (push_bit 8 (i8 b1) OR i8 b0))
   }"

text \<open>The last byte of a descriptor; one with a length of 0 has none.\<close>

definition last_raw :: "u8 list \<Rightarrow> u8 option" where
  "last_raw desc = do { bLength \<leftarrow> byte_at desc 0; if bLength = 0 then None else byte_at desc (unat bLength - 1) }"

definition uac_mixer_unit_iMixer :: "u8 list \<Rightarrow> u8 option" where
  "uac_mixer_unit_iMixer desc = last_raw desc"

definition uac_selector_unit_iSelector :: "u8 list \<Rightarrow> u8 option" where
  "uac_selector_unit_iSelector desc = last_raw desc"

definition uac_feature_unit_iFeature :: "u8 list \<Rightarrow> u8 option" where
  "uac_feature_unit_iFeature desc = last_raw desc"

text \<open>Processing and extension units: \<open>bNrInPins\<close> is byte 6 and \<open>baSourceID\<close> starts at byte 7.\<close>

definition proc_source :: "u8 list \<Rightarrow> nat \<Rightarrow> u8 option" where
  "proc_source desc i = do { n \<leftarrow> byte_at desc 6; byte_at desc (7 + unat n + i) }"

definition uac_processing_unit_bNrChannels :: "u8 list \<Rightarrow> u8 option" where
  "uac_processing_unit_bNrChannels desc = proc_source desc 0"

definition uac_processing_unit_wChannelConfig :: "u8 list \<Rightarrow> int \<Rightarrow> u32 option" where
  "uac_processing_unit_wChannelConfig desc protocol =
     (if protocol = UAC_VERSION_1 then do {
        b2 \<leftarrow> proc_source desc 2; b1 \<leftarrow> proc_source desc 1;
        Some (push_bit 8 (i8 b2) OR i8 b1)
      } else do {
        b4 \<leftarrow> proc_source desc 4; b3 \<leftarrow> proc_source desc 3; b2 \<leftarrow> proc_source desc 2; b1 \<leftarrow> proc_source desc 1;
        Some (push_bit 24 (i8 b4) OR push_bit 16 (i8 b3) OR push_bit 8 (i8 b2) OR i8 b1)
      })"

definition uac_processing_unit_iChannelNames :: "u8 list \<Rightarrow> int \<Rightarrow> u8 option" where
  "uac_processing_unit_iChannelNames desc protocol =
     (if protocol = UAC_VERSION_1 then proc_source desc 3 else proc_source desc 5)"

definition uac_processing_unit_bControlSize :: "u8 list \<Rightarrow> int \<Rightarrow> u8 option" where
  "uac_processing_unit_bControlSize desc protocol =
     (if protocol = UAC_VERSION_1 then proc_source desc 4
      else if protocol = UAC_VERSION_2 then Some 2
      else if protocol = UAC_VERSION_3 then Some 4
      else Some 1)"

definition uac_processing_unit_bmControls :: "u8 list \<Rightarrow> int \<Rightarrow> nat option option" where
  "uac_processing_unit_bmControls desc protocol =
     (if protocol = UAC_VERSION_1 then do { n \<leftarrow> byte_at desc 6; Some (Some (7 + unat n + 5)) }
      else if protocol = UAC_VERSION_2 then do { n \<leftarrow> byte_at desc 6; Some (Some (7 + unat n + 6)) }
      else if protocol = UAC_VERSION_3 then do { n \<leftarrow> byte_at desc 6; Some (Some (7 + unat n + 2)) }
      else Some None)"

definition uac_processing_unit_iProcessing :: "u8 list \<Rightarrow> int \<Rightarrow> u8 option" where
  "uac_processing_unit_iProcessing desc protocol = do {
     control_size \<leftarrow> uac_processing_unit_bControlSize desc protocol;
     if protocol = UAC_VERSION_3 then Some 0
     else do {
       controls \<leftarrow> uac_processing_unit_bmControls desc protocol;
       p \<leftarrow> controls;
       byte_at desc (p + unat control_size)
     }
   }"

definition uac_processing_unit_specific :: "u8 list \<Rightarrow> int \<Rightarrow> nat option" where
  "uac_processing_unit_specific desc protocol = do {
     control_size \<leftarrow> uac_processing_unit_bControlSize desc protocol;
     controls \<leftarrow> uac_processing_unit_bmControls desc protocol;
     p \<leftarrow> controls;
     Some (if protocol = UAC_VERSION_3 then p + unat control_size else p + unat control_size + 1)
   }"

definition uac_extension_unit_bControlSize :: "u8 list \<Rightarrow> int \<Rightarrow> u8 option" where
  "uac_extension_unit_bControlSize desc protocol =
     (if protocol = UAC_VERSION_1 then proc_source desc 4
      else if protocol = UAC_VERSION_2 then Some 1
      else if protocol = UAC_VERSION_3 then Some 4
      else Some 1)"

definition uac_extension_unit_iExtension :: "u8 list \<Rightarrow> int \<Rightarrow> u8 option" where
  "uac_extension_unit_iExtension desc protocol = do {
     control_size \<leftarrow> uac_extension_unit_bControlSize desc protocol;
     if protocol = UAC_VERSION_3 then Some 0
     else do {
       controls \<leftarrow> uac_processing_unit_bmControls desc protocol;
       p \<leftarrow> controls;
       byte_at desc (p + unat control_size)
     }
   }"

section \<open>Types of endpoints\<close>

lemma and_3_cases: "i8 a AND 3 \<in> {0, 1, 2, 3}" for a :: u8
proof -
  have "unat (i8 a AND 3) < 4"
    by (simp only: and_masks unsigned_take_bit_eq) (simp add: take_bit_eq_mod)
  then have "unat (i8 a AND 3) \<in> {0, 1, 2, 3}" by auto
  then show ?thesis by (auto simp: word_unat_eq_iff)
qed

lemma and_80_cases: "i8 a AND 0x80 \<in> {0, 0x80}" for a :: u8
proof -
  have "i8 a AND 0x80 = (if bit a 7 then 0x80 else 0)"
  proof (rule bit_word_eqI)
    fix n
    have "bit (0x80 :: u32) n \<longleftrightarrow> n = 7" using bit_exp_iff [where ?'a = "32 word", of 7 n] by auto
    then show "bit (i8 a AND 0x80) n = bit (if bit a 7 then 0x80 else 0 :: u32) n" by (auto simp: bit_simps)
  qed
  then show ?thesis by simp
qed


lemma and_masks_le:
  fixes x :: u32
  shows "x AND 0x0f \<le> 15" "x AND 0x07ff \<le> 2047" "drop_bit 11 (x AND push_bit 11 3) \<le> 3"
proof -
  show "x AND 0x0f \<le> 15" "x AND 0x07ff \<le> 2047" by (rule word_and_le1)+
  have "drop_bit 11 (x AND push_bit 11 3) = drop_bit 11 x AND 3"
    by (rule bit_word_eqI) (auto simp: bit_simps)
  then show "drop_bit 11 (x AND push_bit 11 3) \<le> 3" by (simp only: word_and_le1)
qed

lemmas endpoint_defs = usb_endpoint_is_bulk_in_def usb_endpoint_is_bulk_out_def usb_endpoint_is_int_in_def
  usb_endpoint_is_int_out_def usb_endpoint_is_isoc_in_def usb_endpoint_is_isoc_out_def usb_endpoint_type_def
  usb_endpoint_xfer_bulk_def usb_endpoint_xfer_int_def usb_endpoint_xfer_isoc_def


text \<open>The number of streams is a power of two, but the largest exponent of the field overflows.\<close>

lemma max_streams_cases:
  "usb_ss_max_streams (Some a) = None \<longleftrightarrow> i8 a AND 0x1f = 31"
  "usb_ss_max_streams (Some a) = Some n \<Longrightarrow> n = 0 \<or> (\<exists>k. 0 < k \<and> k < 31 \<and> n = 2 ^ k)"
proof -
  have le: "i8 a AND 0x1f \<le> 31" by (rule word_and_le1)
  show "usb_ss_max_streams (Some a) = None \<longleftrightarrow> i8 a AND 0x1f = 31"
    using le by (auto simp: usb_ss_max_streams_def Let_def word_le_def word_uint_eq_iff)
  assume "usb_ss_max_streams (Some a) = Some n"
  then have "n = 0 \<or> 0 < uint (i8 a AND 0x1f) \<and> uint (i8 a AND 0x1f) < 31 \<and> n = 2 ^ nat (uint (i8 a AND 0x1f))"
    by (auto simp: usb_ss_max_streams_def Let_def push_bit_eq_mult order.not_eq_order_implies_strict split: if_splits)
  then show "n = 0 \<or> (\<exists>k. 0 < k \<and> k < 31 \<and> n = 2 ^ k)"
  proof
    assume u: "0 < uint (i8 a AND 0x1f) \<and> uint (i8 a AND 0x1f) < 31 \<and> n = 2 ^ nat (uint (i8 a AND 0x1f))"
    then have "0 < nat (uint (i8 a AND 0x1f))" "nat (uint (i8 a AND 0x1f)) < 31" by linarith+
    with u show ?thesis by blast
  qed simp
qed

section \<open>The layout of audio units\<close>

lemma byte_at_append [simp]:
  "byte_at (xs @ ys) i = (if i < length xs then byte_at xs i else byte_at ys (i - length xs))"
  by (auto simp: byte_at_def nth_append)

lemma byte_at_Cons: "byte_at (x # xs) k = (if k = 0 then Some x else byte_at xs (k - 1))"
  by (cases k) (simp_all add: byte_at_def)

lemma unat_byte: "n < 256 \<Longrightarrow> unat (word_of_nat n :: u8) = n"
  by (simp add: unat_of_nat take_bit_nat_eq_self)

text \<open>A processing unit in front of \<open>bNrInPins\<close>, and with its inputs.\<close>

definition proc_unit :: "u8 list \<Rightarrow> u8 list \<Rightarrow> u8 list \<Rightarrow> u8 list" where
  "proc_unit hdr sources body = hdr @ [word_of_nat (length sources)] @ sources @ body"

lemma proc_unit_at:
  assumes "length hdr = 6" "length sources < 256"
  shows "byte_at (proc_unit hdr sources body) 6 = Some (word_of_nat (length sources))"
    and "proc_source (proc_unit hdr sources body) i = byte_at body i"
    and "7 + length sources \<le> k \<Longrightarrow> byte_at (proc_unit hdr sources body) k = byte_at body (k - 7 - length sources)"
    and "7 + length sources \<le> k \<Longrightarrow> drop k (proc_unit hdr sources body) = drop (k - 7 - length sources) body"
proof -
  have k: "drop (7 + length sources + i) (proc_unit hdr sources body) = drop i body"
    "byte_at (proc_unit hdr sources body) (7 + length sources + i) = byte_at body i" for i
    using assms(1) by (simp_all add: proc_unit_def byte_at_Cons drop_Cons')
  show six: "byte_at (proc_unit hdr sources body) 6 = Some (word_of_nat (length sources))"
    using assms by (simp add: proc_unit_def byte_at_Cons)
  show "proc_source (proc_unit hdr sources body) i = byte_at body i"
    using assms k(2) by (simp add: proc_source_def six unat_byte)
  assume "7 + length sources \<le> k"
  then obtain i where "k = 7 + length sources + i" using le_Suc_ex by blast
  then show "byte_at (proc_unit hdr sources body) k = byte_at body (k - 7 - length sources)"
    "drop k (proc_unit hdr sources body) = drop (k - 7 - length sources) body" using k by simp_all
qed

lemmas uac_processing_defs = uac_processing_unit_bNrChannels_def uac_processing_unit_wChannelConfig_def
  uac_processing_unit_iChannelNames_def uac_processing_unit_iProcessing_def uac_processing_unit_bControlSize_def
  uac_processing_unit_bmControls_def uac_processing_unit_specific_def

text \<open>What is read of a unit: the string index, where the controls are, and what comes behind them.\<close>

definition unit_reads :: "u8 list \<Rightarrow> int \<Rightarrow> u8 list \<Rightarrow> u8 \<Rightarrow> u8 list \<Rightarrow> bool" where
  "unit_reads d protocol controls str rest \<longleftrightarrow> uac_processing_unit_iProcessing d protocol = Some str
     \<and> (\<exists>p. uac_processing_unit_bmControls d protocol = Some (Some p) \<and> take (length controls) (drop p d) = controls)
     \<and> (\<exists>p. uac_processing_unit_specific d protocol = Some p \<and> drop p d = rest)"

lemma processing_unit_v1:
  assumes "length hdr = 6" "length sources < 256" "length controls < 256"
  shows "unit_reads (proc_unit hdr sources ([ch, lo, hi, names, word_of_nat (length controls)] @ controls @ [str] @ rest))
    0 controls str rest"
  using assms by (simp add: unit_reads_def proc_unit_at uac_processing_defs unat_byte byte_at_Cons drop_Cons')

lemma processing_unit_v2:
  assumes "length hdr = 6" "length sources < 256" "length controls = 2"
  shows "unit_reads (proc_unit hdr sources ([ch, b0, b1, b2, b3, names] @ controls @ [str] @ rest)) 0x20 controls str rest"
  using assms by (simp add: unit_reads_def proc_unit_at uac_processing_defs unat_byte byte_at_Cons drop_Cons')

lemma processing_unit_v3:
  assumes "length hdr = 6" "length sources < 256" "length controls = 4"
  shows "unit_reads (proc_unit hdr sources ([lo, hi] @ controls @ rest)) 0x30 controls 0 rest"
  using assms by (simp add: unit_reads_def proc_unit_at uac_processing_defs unat_byte byte_at_Cons drop_Cons')

text \<open>
  A processing unit laid out as its version of the audio class says is read back: in version 1 the size of the
  controls is a field, in the versions 2 and 3 it is 2 and 4; the string index behind the controls, which version 3 does not
  have, and the part that depends on the process are found where they are, for any number of inputs.
\<close>

theorem processing_unit_layout:
  assumes "length hdr = 6" "length sources < 256" "length c1 < 256" "length c2 = 2" "length c3 = 4"
  shows "unit_reads (proc_unit hdr sources ([ch, lo, hi, names, word_of_nat (length c1)] @ c1 @ [str] @ rest)) 0 c1 str rest
    \<and> unit_reads (proc_unit hdr sources ([ch, b0, b1, b2, b3, names] @ c2 @ [str] @ rest)) 0x20 c2 str rest
    \<and> unit_reads (proc_unit hdr sources ([lo, hi] @ c3 @ rest)) 0x30 c3 0 rest"
  by (intro conjI processing_unit_v1 processing_unit_v2 processing_unit_v3 assms)

theorem processing_unit_layout_witness:
  "unit_reads [14, 36, 7, 1, 2, 0, 1, 9, 2, 3, 0, 0, 1, 255, 6] 0 [255] 6 []"
  using processing_unit_layout [of "[14, 36, 7, 1, 2, 0]" "[9]" "[255]" "[1, 1]" "[1, 1, 1, 1]" 2 3 0 0 6 "[]" 0 0 0 0]
  by (simp add: proc_unit_def)

text \<open>
  For a version that is none of the three, \<open>uac_processing_unit_bmControls\<close> returns a null pointer,
  which the functions that return the string index follow, although they have a case for such versions; the pointer to
  the rest is computed from the null pointer.
\<close>

theorem unknown_version_follows_null:
  assumes "protocol \<notin> {0, 0x20, 0x30}"
  shows "uac_processing_unit_bControlSize d protocol = Some 1 \<and> uac_extension_unit_bControlSize d protocol = Some 1
    \<and> uac_processing_unit_iProcessing d protocol = None \<and> uac_extension_unit_iExtension d protocol = None
    \<and> uac_processing_unit_specific d protocol = None"
  using assms
  by (simp add: uac_processing_defs uac_extension_unit_bControlSize_def uac_extension_unit_iExtension_def)

theorem unknown_version_follows_null_witness:
  "uac_processing_unit_iProcessing [14, 36, 7, 1, 2, 0, 1, 9, 2, 3, 0, 0, 1, 255, 6] 0x10 = None"
  using unknown_version_follows_null [of "0x10"] by simp

end
