(* ===== verification/Swab.thy ===== *)
theory Swab
  imports Prelude
begin

unbundle bit_operations_syntax

text \<open>
  Byte swapping: \<open>include/linux/swab.h\<close>, \<open>include/asm/swab.h\<close> for x86 and \<open>include/bits/byteswap.h\<close>. Which variant
  is compiled depends on macros of the architecture and of the compiler; the instructions \<open>bswapl\<close> and \<open>bswapq\<close> and the builtins
  of the compiler are parameters.
\<close>

section \<open>Constants\<close>

definition constant_swab16 :: "u16 \<Rightarrow> u16" where
  "constant_swab16 x = to_u16 (push_bit 8 (i16 (x AND 0x00ff)) OR drop_bit 8 (i16 (x AND 0xff00)))"

definition constant_swab32 :: "u32 \<Rightarrow> u32" where
  "constant_swab32 x =
     push_bit 24 (x AND 0x000000ff) OR push_bit 8 (x AND 0x0000ff00) OR
     drop_bit 8 (x AND 0x00ff0000) OR drop_bit 24 (x AND 0xff000000)"

definition constant_swab64 :: "u64 \<Rightarrow> u64" where
  "constant_swab64 x =
     push_bit 56 (x AND 0x00000000000000ff) OR push_bit 40 (x AND 0x000000000000ff00) OR
     push_bit 24 (x AND 0x0000000000ff0000) OR push_bit 8 (x AND 0x00000000ff000000) OR
     drop_bit 8 (x AND 0x000000ff00000000) OR drop_bit 24 (x AND 0x0000ff0000000000) OR
     drop_bit 40 (x AND 0x00ff000000000000) OR drop_bit 56 (x AND 0xff00000000000000)"

definition constant_swahw32 :: "u32 \<Rightarrow> u32" where
  "constant_swahw32 x = push_bit 16 (x AND 0x0000ffff) OR drop_bit 16 (x AND 0xffff0000)"

definition constant_swahb32 :: "u32 \<Rightarrow> u32" where
  "constant_swahb32 x = push_bit 8 (x AND 0x00ff00ff) OR drop_bit 8 (x AND 0xff00ff00)"

definition bswap_constant_16 :: "u16 \<Rightarrow> u16" where
  "bswap_constant_16 x = to_u16 ((drop_bit 8 (i16 x) AND 0xff) OR push_bit 8 (i16 x AND 0xff))"

definition bswap_constant_32 :: "u32 \<Rightarrow> u32" where
  "bswap_constant_32 x =
     drop_bit 24 (x AND 0xff000000) OR drop_bit 8 (x AND 0x00ff0000) OR
     push_bit 8 (x AND 0x0000ff00) OR push_bit 24 (x AND 0x000000ff)"

definition bswap_constant_64 :: "u64 \<Rightarrow> u64" where
  "bswap_constant_64 x =
     drop_bit 56 (x AND 0xff00000000000000) OR drop_bit 40 (x AND 0x00ff000000000000) OR
     drop_bit 24 (x AND 0x0000ff0000000000) OR drop_bit 8 (x AND 0x000000ff00000000) OR
     push_bit 8 (x AND 0x00000000ff000000) OR push_bit 24 (x AND 0x0000000000ff0000) OR
     push_bit 40 (x AND 0x000000000000ff00) OR push_bit 56 (x AND 0x00000000000000ff)"

section \<open>Variants\<close>

text \<open>
  What is compiled: the functions of the architecture and the builtins where there are any, and whether
  \<open>__SWAB_64_THRU_32__\<close> is defined.
\<close>

record swab_build =
  arch_swab16 :: "(u16 \<Rightarrow> u16) option"
  arch_swab32 :: "(u32 \<Rightarrow> u32) option"
  arch_swab64 :: "(u64 \<Rightarrow> u64) option"
  builtin_bswap16 :: "(u16 \<Rightarrow> u16) option"
  builtin_bswap32 :: "(u32 \<Rightarrow> u32) option"
  builtin_bswap64 :: "(u64 \<Rightarrow> u64) option"
  swab_64_thru_32 :: bool
  long_64 :: bool

definition fswab16 :: "swab_build \<Rightarrow> u16 \<Rightarrow> u16" where
  "fswab16 b val = (case arch_swab16 b of Some f \<Rightarrow> f val | None \<Rightarrow> constant_swab16 val)"

definition fswab32 :: "swab_build \<Rightarrow> u32 \<Rightarrow> u32" where
  "fswab32 b val = (case arch_swab32 b of Some f \<Rightarrow> f val | None \<Rightarrow> constant_swab32 val)"

definition fswab64 :: "swab_build \<Rightarrow> u64 \<Rightarrow> u64" where
  "fswab64 b val =
     (case arch_swab64 b of
        Some f \<Rightarrow> f val
      | None \<Rightarrow>
          if swab_64_thru_32 b then
            let h = ucast (drop_bit 32 val) :: u32;
                l = ucast (val AND (push_bit 32 1 - 1)) :: u32
            in push_bit 32 (ucast (fswab32 b l)) OR ucast (fswab32 b h)
          else constant_swab64 val)"

text \<open>No header here defines \<open>__arch_swahw32\<close> or \<open>__arch_swahb32\<close>.\<close>

definition fswahw32 :: "u32 \<Rightarrow> u32" where
  "fswahw32 val = constant_swahw32 val"

definition fswahb32 :: "u32 \<Rightarrow> u32" where
  "fswahb32 val = constant_swahb32 val"

text \<open>\<open>const\<close> is \<open>__builtin_constant_p\<close> of the argument.\<close>

definition swab16 :: "swab_build \<Rightarrow> bool \<Rightarrow> u16 \<Rightarrow> u16" where
  "swab16 b const x =
     (case builtin_bswap16 b of Some f \<Rightarrow> f x | None \<Rightarrow> if const then constant_swab16 x else fswab16 b x)"

definition swab32 :: "swab_build \<Rightarrow> bool \<Rightarrow> u32 \<Rightarrow> u32" where
  "swab32 b const x =
     (case builtin_bswap32 b of Some f \<Rightarrow> f x | None \<Rightarrow> if const then constant_swab32 x else fswab32 b x)"

definition swab64 :: "swab_build \<Rightarrow> bool \<Rightarrow> u64 \<Rightarrow> u64" where
  "swab64 b const x =
     (case builtin_bswap64 b of Some f \<Rightarrow> f x | None \<Rightarrow> if const then constant_swab64 x else fswab64 b x)"

text \<open>\<open>unsigned long\<close> in 64 bits; with 32 of them the high half is not there.\<close>

definition swab :: "swab_build \<Rightarrow> u64 \<Rightarrow> u64" where
  "swab b y = (if long_64 b then swab64 b False y else ucast (swab32 b False (ucast y)))"

definition swahw32 :: "bool \<Rightarrow> u32 \<Rightarrow> u32" where
  "swahw32 const x = (if const then constant_swahw32 x else fswahw32 x)"

definition swahb32 :: "bool \<Rightarrow> u32 \<Rightarrow> u32" where
  "swahb32 const x = (if const then constant_swahb32 x else fswahb32 x)"

text \<open>Through a pointer, and in place. The architecture has no variants of these.\<close>

definition swab16p :: "swab_build \<Rightarrow> (nat \<rightharpoonup> u16) \<Rightarrow> nat \<Rightarrow> u16 option" where
  "swab16p b m p = map_option (swab16 b False) (m p)"

definition swab32p :: "swab_build \<Rightarrow> (nat \<rightharpoonup> u32) \<Rightarrow> nat \<Rightarrow> u32 option" where
  "swab32p b m p = map_option (swab32 b False) (m p)"

definition swab64p :: "swab_build \<Rightarrow> (nat \<rightharpoonup> u64) \<Rightarrow> nat \<Rightarrow> u64 option" where
  "swab64p b m p = map_option (swab64 b False) (m p)"

definition swahw32p :: "(nat \<rightharpoonup> u32) \<Rightarrow> nat \<Rightarrow> u32 option" where
  "swahw32p m p = map_option (swahw32 False) (m p)"

definition swahb32p :: "(nat \<rightharpoonup> u32) \<Rightarrow> nat \<Rightarrow> u32 option" where
  "swahb32p m p = map_option (swahb32 False) (m p)"

definition swab16s :: "swab_build \<Rightarrow> (nat \<rightharpoonup> u16) \<Rightarrow> nat \<Rightarrow> (nat \<rightharpoonup> u16) option" where
  "swab16s b m p = map_option (\<lambda>v. m(p \<mapsto> v)) (swab16p b m p)"

definition swab32s :: "swab_build \<Rightarrow> (nat \<rightharpoonup> u32) \<Rightarrow> nat \<Rightarrow> (nat \<rightharpoonup> u32) option" where
  "swab32s b m p = map_option (\<lambda>v. m(p \<mapsto> v)) (swab32p b m p)"

definition swab64s :: "swab_build \<Rightarrow> (nat \<rightharpoonup> u64) \<Rightarrow> nat \<Rightarrow> (nat \<rightharpoonup> u64) option" where
  "swab64s b m p = map_option (\<lambda>v. m(p \<mapsto> v)) (swab64p b m p)"

definition swahw32s :: "(nat \<rightharpoonup> u32) \<Rightarrow> nat \<Rightarrow> (nat \<rightharpoonup> u32) option" where
  "swahw32s m p = map_option (\<lambda>v. m(p \<mapsto> v)) (swahw32p m p)"

definition swahb32s :: "(nat \<rightharpoonup> u32) \<Rightarrow> nat \<Rightarrow> (nat \<rightharpoonup> u32) option" where
  "swahb32s m p = map_option (\<lambda>v. m(p \<mapsto> v)) (swahb32p m p)"

text \<open>x86: the 32-bit processor swaps the halves of a union and exchanges them.\<close>

definition x86_swab32 :: "(u32 \<Rightarrow> u32) \<Rightarrow> u32 \<Rightarrow> u32" where
  "x86_swab32 bswapl val = bswapl val"

definition i386_swab64 :: "(u32 \<Rightarrow> u32) \<Rightarrow> u64 \<Rightarrow> u64" where
  "i386_swab64 bswapl val =
     (let a = ucast val :: u32; b = ucast (drop_bit 32 val) :: u32;
          a = bswapl a; b = bswapl b;
          (a, b) = (b, a)
      in ucast a OR push_bit 32 (ucast b))"

definition x86_64_swab64 :: "(u64 \<Rightarrow> u64) \<Rightarrow> u64 \<Rightarrow> u64" where
  "x86_64_swab64 bswapq val = bswapq val"

text \<open>The functions of the C library; \<open>builtin\<close> with a compiler that has one.\<close>

definition bswap_16 :: "(u16 \<Rightarrow> u16) option \<Rightarrow> u16 \<Rightarrow> u16" where
  "bswap_16 builtin bsx = (case builtin of Some f \<Rightarrow> f bsx | None \<Rightarrow> bswap_constant_16 bsx)"

definition bswap_32 :: "(u32 \<Rightarrow> u32) option \<Rightarrow> u32 \<Rightarrow> u32" where
  "bswap_32 builtin bsx = (case builtin of Some f \<Rightarrow> f bsx | None \<Rightarrow> bswap_constant_32 bsx)"

definition bswap_64 :: "(u64 \<Rightarrow> u64) option \<Rightarrow> u64 \<Rightarrow> u64" where
  "bswap_64 builtin bsx = (case builtin of Some f \<Rightarrow> f bsx | None \<Rightarrow> bswap_constant_64 bsx)"

section \<open>Reversal of bytes\<close>

text \<open>The reference: bit \<open>n\<close> of the result is the bit at the same place of the mirrored byte, of \<open>k\<close> bytes.\<close>

definition mirrored :: "nat \<Rightarrow> nat \<Rightarrow> nat" where
  "mirrored k n = 8 * (k - 1 - n div 8) + n mod 8"

definition reverses :: "nat \<Rightarrow> ('a::len word \<Rightarrow> 'a word) \<Rightarrow> bool" where
  "reverses k f \<longleftrightarrow> (\<forall>x n. n < 8 * k \<longrightarrow> bit (f x) n = bit x (mirrored k n))"

lemma less_8_cases: "n < 8 * k \<Longrightarrow> (\<And>j i. j < k \<Longrightarrow> i < 8 \<Longrightarrow> n = 8 * j + i \<Longrightarrow> P) \<Longrightarrow> P" for n k :: nat
  by (metis div_less_iff_less_mult div_mult_mod_eq mod_less_divisor mult.commute zero_less_numeral)

lemma reverses_unique:
  assumes "reverses k f" "reverses k g" "LENGTH('a::len) = 8 * k"
  shows "f = (g :: 'a word \<Rightarrow> 'a word)"
proof
  fix x
  show "f x = g x" by (rule bit_word_eqI) (use assms in \<open>simp add: reverses_def\<close>)
qed


text \<open>A byte of a word, moved up or down by whole bytes.\<close>

lemma masks_32:
  "(0xff00 :: u32) = push_bit 8 (mask 8)" "(0xff0000 :: u32) = push_bit 16 (mask 8)"
  "(0xff000000 :: u32) = push_bit 24 (mask 8)" "(0xff :: u32) = push_bit 0 (mask 8)"
  by (simp_all add: mask_eq_exp_minus_1)

lemma masks_64:
  "(0xff00 :: u64) = push_bit 8 (mask 8)" "(0xff0000 :: u64) = push_bit 16 (mask 8)"
  "(0xff000000 :: u64) = push_bit 24 (mask 8)" "(0xff00000000 :: u64) = push_bit 32 (mask 8)"
  "(0xff0000000000 :: u64) = push_bit 40 (mask 8)" "(0xff000000000000 :: u64) = push_bit 48 (mask 8)"
  "(0xff00000000000000 :: u64) = push_bit 56 (mask 8)" "(0xff :: u64) = push_bit 0 (mask 8)"
  by (simp_all add: mask_eq_exp_minus_1)

lemma bit_moved:
  fixes x :: "'a::len word"
  shows "bit (push_bit d (x AND push_bit k (mask 8))) n \<longleftrightarrow> d + k \<le> n \<and> n < d + k + 8 \<and> n < LENGTH('a) \<and> bit x (n - d)"
    and "bit (drop_bit d (x AND push_bit k (mask 8))) n \<longleftrightarrow> k \<le> d + n \<and> d + n < k + 8 \<and> d + n < LENGTH('a) \<and> bit x (d + n)"
  by (auto simp: bit_simps)

lemma mirrored_at: "i < 8 \<Longrightarrow> mirrored k (8 * j + i) = 8 * (k - 1 - j) + i"
  by (simp add: mirrored_def)

lemma constant_swab32_reverses: "reverses 4 constant_swab32" "reverses 4 bswap_constant_32"
proof -
  have cases: "j = 0 \<or> j = 1 \<or> j = 2 \<or> j = 3" if "j < 4" for j :: nat using that by auto
  have "bit (constant_swab32 x) n = bit x (mirrored 4 n)" "bit (bswap_constant_32 x) n = bit x (mirrored 4 n)"
    if n: "n < 8 * 4" for x n
  proof -
    obtain j i where j: "j < 4" and i: "i < 8" and n': "n = 8 * j + i" using less_8_cases [OF n] by blast
    show "bit (constant_swab32 x) n = bit x (mirrored 4 n)" "bit (bswap_constant_32 x) n = bit x (mirrored 4 n)"
      unfolding n' mirrored_at [OF i] constant_swab32_def bswap_constant_32_def masks_32 bit_or_iff bit_moved
      using cases [OF j] i by (elim disjE; simp)+
  qed
  then show "reverses 4 constant_swab32" "reverses 4 bswap_constant_32" by (simp_all add: reverses_def)
qed

lemma constant_swab64_reverses: "reverses 8 constant_swab64" "reverses 8 bswap_constant_64"
proof -
  have cases: "j = 0 \<or> j = 1 \<or> j = 2 \<or> j = 3 \<or> j = 4 \<or> j = 5 \<or> j = 6 \<or> j = 7" if "j < 8" for j :: nat using that by auto
  have "bit (constant_swab64 x) n = bit x (mirrored 8 n)" "bit (bswap_constant_64 x) n = bit x (mirrored 8 n)"
    if n: "n < 8 * 8" for x n
  proof -
    obtain j i where j: "j < 8" and i: "i < 8" and n': "n = 8 * j + i" using less_8_cases [OF n] by blast
    show "bit (constant_swab64 x) n = bit x (mirrored 8 n)" "bit (bswap_constant_64 x) n = bit x (mirrored 8 n)"
      unfolding n' mirrored_at [OF i] constant_swab64_def bswap_constant_64_def masks_64 bit_or_iff bit_moved
      using cases [OF j] i by (elim disjE; simp)+
  qed
  then show "reverses 8 constant_swab64" "reverses 8 bswap_constant_64" by (simp_all add: reverses_def)
qed


lemma constant_swab16_reverses: "reverses 2 constant_swab16" "reverses 2 bswap_constant_16"
proof -
  have m: "(0xff00 :: u16) = push_bit 8 (mask 8)" "(0xff :: u16) = mask 8" "(0x00ff :: u32) = mask 8"
    by (simp_all add: mask_eq_exp_minus_1)
  have "bit (constant_swab16 x) n = bit x (mirrored 2 n)" "bit (bswap_constant_16 x) n = bit x (mirrored 2 n)"
    if n: "n < 8 * 2" for x n
  proof -
    obtain j i where j: "j < 2" and i: "i < 8" and n': "n = 8 * j + i" using less_8_cases [OF n] by blast
    have "bit (constant_swab16 x) n \<longleftrightarrow> (if n < 8 then bit x (n + 8) else bit x (n - 8))"
      "bit (bswap_constant_16 x) n \<longleftrightarrow> (if n < 8 then bit x (n + 8) else bit x (n - 8))"
      unfolding constant_swab16_def bswap_constant_16_def m using n by (auto simp: bit_simps ac_simps)
    moreover have "mirrored 2 n = (if n < 8 then n + 8 else n - 8)"
      unfolding n' mirrored_at [OF i] using i j by (cases j) auto
    ultimately show "bit (constant_swab16 x) n = bit x (mirrored 2 n)" "bit (bswap_constant_16 x) n = bit x (mirrored 2 n)"
      by simp_all
  qed
  then show "reverses 2 constant_swab16" "reverses 2 bswap_constant_16" by (simp_all add: reverses_def)
qed

lemma halves_reverse:
  assumes "reverses 4 f"
  shows "reverses 8 (\<lambda>x :: u64. push_bit 32 (ucast (f (ucast x :: u32))) OR ucast (f (ucast (drop_bit 32 x) :: u32)))"
  unfolding reverses_def
proof (intro allI impI)
  fix x :: u64 and n :: nat assume n: "n < 8 * 8"
  obtain j i where j: "j < 8" and i: "i < 8" and n': "n = 8 * j + i" using less_8_cases [OF n] by blast
  have f: "k < 32 \<Longrightarrow> bit (f y) k = bit y (mirrored 4 k)" for y k using assms by (simp add: reverses_def)
  show "bit (push_bit 32 (ucast (f (ucast x :: u32))) OR ucast (f (ucast (drop_bit 32 x) :: u32)) :: u64) n = bit x (mirrored 8 n)"
  proof (cases "j < 4")
    case True
    have "bit (push_bit 32 (ucast (f (ucast x :: u32))) OR ucast (f (ucast (drop_bit 32 x) :: u32)) :: u64) n
        = bit (f (ucast (drop_bit 32 x) :: u32)) n"
      using True i n' by (simp add: bit_simps)
    also have "\<dots> = bit (drop_bit 32 x) (8 * (3 - j) + i)"
    proof -
      have "8 * (3 - j) + i < 32" using i by linarith
      then show ?thesis using True i n' by (simp add: f mirrored_at bit_simps)
    qed
    also have "\<dots> = bit x (8 * (7 - j) + i)"
    proof -
      have "32 + (8 * (3 - j) + i) = 8 * (7 - j) + i" using True by simp
      then show ?thesis by (simp only: bit_drop_bit_eq o_def)
    qed
    finally show ?thesis using i n' by (simp add: mirrored_at)
  next
    case False
    then have d: "n - 32 = 8 * (j - 4) + i" "3 - (j - 4) = 7 - j" using n' j by auto
    have "bit (push_bit 32 (ucast (f (ucast x :: u32))) OR ucast (f (ucast (drop_bit 32 x) :: u32)) :: u64) n
        = bit (f (ucast x :: u32)) (n - 32)"
      using False i j n' by (auto simp: bit_simps dest: bit_imp_le_length)
    also have "\<dots> = bit x (8 * (7 - j) + i)"
    proof -
      have "8 * (7 - j) + i < 32" using False i j by linarith
      then show ?thesis using False i j d by (simp add: f mirrored_at bit_simps)
    qed
    finally show ?thesis using i n' by (simp add: mirrored_at)
  qed
qed

lemma reverses_involution:
  assumes "reverses k f" "LENGTH('a::len) = 8 * k"
  shows "f (f x) = (x :: 'a word)"
proof (rule bit_word_eqI)
  fix n assume "n < LENGTH('a)"
  then have n: "n < 8 * k" using assms(2) by simp
  obtain j i where ji: "j < k" "i < 8" "n = 8 * j + i" using less_8_cases [OF n] by blast
  have "mirrored k n = 8 * (k - 1 - j) + i" using ji by (simp add: mirrored_at)
  moreover have "8 * (k - 1 - j) + i < 8 * k" using ji by linarith
  moreover have "k - 1 - (k - 1 - j) = j" using ji(1) by simp
  ultimately show "bit (f (f x)) n = bit x n" using assms(1) n ji by (simp add: reverses_def mirrored_at)
qed

section \<open>Theorems\<close>

text \<open>
  What the documentation of the processor and of the compiler promises: the instructions and builtins
  that a build uses reverse the bytes.
\<close>

definition good_build :: "swab_build \<Rightarrow> bool" where
  "good_build b \<longleftrightarrow> pred_option (reverses 2) (arch_swab16 b) \<and> pred_option (reverses 4) (arch_swab32 b)
     \<and> pred_option (reverses 8) (arch_swab64 b) \<and> pred_option (reverses 2) (builtin_bswap16 b)
     \<and> pred_option (reverses 4) (builtin_bswap32 b) \<and> pred_option (reverses 8) (builtin_bswap64 b)"

lemma fswab_reverses:
  assumes "good_build b"
  shows "reverses 2 (fswab16 b)" "reverses 4 (fswab32 b)" "reverses 8 (fswab64 b)"
proof -
  show "reverses 2 (fswab16 b)"
    using assms constant_swab16_reverses(1) by (cases "arch_swab16 b") (simp_all add: good_build_def fswab16_def reverses_def)
  show r4: "reverses 4 (fswab32 b)"
    using assms constant_swab32_reverses(1) by (cases "arch_swab32 b") (simp_all add: good_build_def fswab32_def reverses_def)
  have l: "ucast (x AND (push_bit 32 1 - 1)) = (ucast x :: u32)" for x :: u64
  proof -
    have m: "(push_bit 32 1 - 1 :: u64) = mask 32" by (simp add: mask_eq_exp_minus_1)
    show ?thesis unfolding m by (rule bit_word_eqI) (auto simp: bit_simps)
  qed
  show "reverses 8 (fswab64 b)"
  proof (cases "arch_swab64 b")
    case None
    then have "fswab64 b = (if swab_64_thru_32 b
        then (\<lambda>x. push_bit 32 (ucast (fswab32 b (ucast x))) OR ucast (fswab32 b (ucast (drop_bit 32 x)))) else constant_swab64)"
      unfolding fswab64_def [abs_def] Let_def l by auto
    then show ?thesis using halves_reverse [OF r4] constant_swab64_reverses(1) by simp
  next
    case (Some f)
    then show ?thesis using assms by (simp add: good_build_def fswab64_def reverses_def)
  qed
qed

lemma reverses_constant:
  "reverses 2 f16 \<Longrightarrow> f16 = constant_swab16" "reverses 4 f32 \<Longrightarrow> f32 = constant_swab32" "reverses 8 f64 \<Longrightarrow> f64 = constant_swab64"
  using constant_swab16_reverses(1) constant_swab32_reverses(1) constant_swab64_reverses(1)
  by (auto intro: reverses_unique)

lemma swab_all:
  assumes "good_build b"
  shows "swab16 b const = constant_swab16" "swab32 b const = constant_swab32" "swab64 b const = constant_swab64"
proof -
  note fs = reverses_constant(1) [OF fswab_reverses(1) [OF assms]] reverses_constant(2) [OF fswab_reverses(2) [OF assms]]
    reverses_constant(3) [OF fswab_reverses(3) [OF assms]]
  have "builtin_bswap16 b = Some f \<Longrightarrow> f = constant_swab16" "builtin_bswap32 b = Some g \<Longrightarrow> g = constant_swab32"
    "builtin_bswap64 b = Some h \<Longrightarrow> h = constant_swab64" for f g h
    using assms by (auto simp: good_build_def intro: reverses_constant)
  then show "swab16 b const = constant_swab16" "swab32 b const = constant_swab32" "swab64 b const = constant_swab64"
    by (auto simp: fun_eq_iff swab16_def swab32_def swab64_def fs split: option.split)
qed

lemma halfwords: "constant_swahw32 (constant_swahb32 x) = constant_swab32 x"
proof (rule bit_word_eqI)
  fix n assume "n < LENGTH(32)"
  then have n: "n < 8 * 4" by simp
  obtain j i where j: "j < 4" and i: "i < 8" and n': "n = 8 * j + i" using less_8_cases [OF n] by blast
  have m: "(0xffff :: u32) = mask 16" "(0xffff0000 :: u32) = push_bit 16 (mask 16)"
    "(0x00ff00ff :: u32) = mask 8 OR push_bit 16 (mask 8)" "(0xff00ff00 :: u32) = push_bit 8 (mask 8) OR push_bit 24 (mask 8)"
    by (simp_all add: mask_eq_exp_minus_1)
  have hw: "bit (constant_swahw32 y) k \<longleftrightarrow> (if k < 16 then bit y (k + 16) else bit y (k - 16))" if "k < 32" for y k
    unfolding constant_swahw32_def m using that by (auto simp: bit_simps ac_simps)
  have hb: "bit (constant_swahb32 x) (8 * l + i) \<longleftrightarrow> bit x (8 * (if even l then l + 1 else l - 1) + i)" if "l < 4" for l
  proof -
    have "l = 0 \<or> l = 1 \<or> l = 2 \<or> l = 3" using that by auto
    then show ?thesis unfolding constant_swahb32_def m using i
      by (elim disjE) (auto simp: bit_simps)
  qed
  have "bit (constant_swab32 x) n = bit x (8 * (3 - j) + i)"
    using constant_swab32_reverses(1) n i by (simp add: reverses_def n' mirrored_at)
  moreover have "j = 0 \<or> j = 1 \<or> j = 2 \<or> j = 3" using j by auto
  ultimately show "bit (constant_swahw32 (constant_swahb32 x)) n = bit (constant_swab32 x) n"
    using n i hb [of 0] hb [of 1] hb [of 2] hb [of 3] by (elim disjE) (auto simp: hw n' ac_simps)
qed



text \<open>
  Swapping twice gives the number back, through a pointer and in place as well, and the swap of 32 bits is the
  swap of its halves after the swap of the bytes in each half.
\<close>

theorem swab_involutive:
  assumes "good_build b" "m p = Some x"
  shows "swab64 b c (swab64 b c y) = y \<and> swahw32 c (swahb32 c x) = constant_swab32 x
    \<and> (\<exists>m'. swab32s b m p = Some m' \<and> m' p = Some (constant_swab32 x) \<and> swab32s b m' p = Some m)"
proof -
  have s64: "swab64 b c = constant_swab64" and s32: "swab32 b False = constant_swab32"
    using swab_all [OF assms(1)] by simp_all
  have "constant_swab64 (constant_swab64 y) = y" "constant_swab32 (constant_swab32 x) = x"
    using reverses_involution [OF constant_swab64_reverses(1)] reverses_involution [OF constant_swab32_reverses(1)] by simp_all
  moreover have "swahw32 c (swahb32 c x) = constant_swab32 x"
    by (simp add: swahw32_def swahb32_def fswahw32_def fswahb32_def halfwords)
  moreover have "m(p \<mapsto> x) = m" using assms(2) by auto
  ultimately show ?thesis using assms(2) s64 s32 by (simp add: swab32s_def swab32p_def)
qed


theorem swab_involutive_witness:
  "\<exists>m'. swab32s \<lparr>arch_swab16 = None, arch_swab32 = None, arch_swab64 = None, builtin_bswap16 = None,
     builtin_bswap32 = None, builtin_bswap64 = None, swab_64_thru_32 = False, long_64 = True\<rparr> [3 \<mapsto> 0x11223344] 3 = Some m'
    \<and> m' 3 = Some (constant_swab32 0x11223344)"
  using swab_involutive [of "\<lparr>arch_swab16 = None, arch_swab32 = None, arch_swab64 = None, builtin_bswap16 = None,
     builtin_bswap32 = None, builtin_bswap64 = None, swab_64_thru_32 = False, long_64 = True\<rparr>" "[3 \<mapsto> 0x11223344]" 3 "0x11223344" False 0]
  by (auto simp: good_build_def)

end
