(* ===== verification/Encodings.thy ===== *)
theory Encodings
  imports Prelude "HOL-Library.Monad_Syntax"
begin

unbundle bit_operations_syntax

text \<open>
  Numbers that pack several fields: devices (\<open>include/bits/sysmacros.h\<close>, \<open>include/linux/kdev_t.h\<close>), \<open>ioctl\<close> requests
  (\<open>include/asm-generic/ioctl.h\<close>), phonet objects and socket addresses (\<open>include/linux/phonet.h\<close>), TIPC addresses
  (\<open>include/linux/tipc.h\<close>) and headers of the SCSI command ring (\<open>include/linux/target_core_user.h\<close>); and times of day
  (\<open>include/sys/time.h\<close>).
\<close>

section \<open>Devices\<close>

definition gnu_dev_major :: "u64 \<Rightarrow> u32" where
  "gnu_dev_major dev =
     (let major = ucast (drop_bit 8 (dev AND 0x00000000000fff00)) :: u32
      in ucast (ucast major OR drop_bit 32 (dev AND 0xfffff00000000000)))"

definition gnu_dev_minor :: "u64 \<Rightarrow> u32" where
  "gnu_dev_minor dev =
     (let minor = ucast (drop_bit 0 (dev AND 0x00000000000000ff)) :: u32
      in ucast (ucast minor OR drop_bit 12 (dev AND 0x00000ffffff00000)))"

definition gnu_dev_makedev :: "u32 \<Rightarrow> u32 \<Rightarrow> u64" where
  "gnu_dev_makedev major minor =
     (let dev = push_bit 8 (ucast (major AND 0x00000fff));
          dev = dev OR push_bit 32 (ucast (major AND 0xfffff000));
          dev = dev OR push_bit 0 (ucast (minor AND 0x000000ff));
          dev = dev OR push_bit 12 (ucast (minor AND 0xffffff00))
      in dev)"

definition MAJOR :: "u32 \<Rightarrow> u32" where "MAJOR dev = drop_bit 8 dev"
definition MINOR :: "u32 \<Rightarrow> u32" where "MINOR dev = dev AND 0xff"
definition MKDEV :: "u32 \<Rightarrow> u32 \<Rightarrow> u32" where "MKDEV ma mi = push_bit 8 ma OR mi"

section \<open>Requests\<close>

definition IOC :: "u32 \<Rightarrow> u32 \<Rightarrow> u32 \<Rightarrow> u32 \<Rightarrow> u32" where
  "IOC dir type nr sz = push_bit 30 dir OR push_bit 8 type OR push_bit 0 nr OR push_bit 16 sz"

definition IO :: "u32 \<Rightarrow> u32 \<Rightarrow> u32" where "IO type nr = IOC 0 type nr 0"
definition IOR :: "u32 \<Rightarrow> u32 \<Rightarrow> u32 \<Rightarrow> u32" where "IOR type nr sz = IOC 2 type nr sz"
definition IOW :: "u32 \<Rightarrow> u32 \<Rightarrow> u32 \<Rightarrow> u32" where "IOW type nr sz = IOC 1 type nr sz"
definition IOWR :: "u32 \<Rightarrow> u32 \<Rightarrow> u32 \<Rightarrow> u32" where "IOWR type nr sz = IOC (2 OR 1) type nr sz"

definition IOC_DIR :: "u32 \<Rightarrow> u32" where "IOC_DIR nr = drop_bit 30 nr AND (push_bit 2 1 - 1)"
definition IOC_TYPE :: "u32 \<Rightarrow> u32" where "IOC_TYPE nr = drop_bit 8 nr AND (push_bit 8 1 - 1)"
definition IOC_NR :: "u32 \<Rightarrow> u32" where "IOC_NR nr = drop_bit 0 nr AND (push_bit 8 1 - 1)"
definition IOC_SIZE :: "u32 \<Rightarrow> u32" where "IOC_SIZE nr = drop_bit 16 nr AND (push_bit 14 1 - 1)"

section \<open>Phonet\<close>

record sockaddr_pn =
  spn_obj :: u8
  spn_dev :: u8
  spn_resource :: u8

definition pn_object :: "u8 \<Rightarrow> u16 \<Rightarrow> u16" where
  "pn_object addr port = to_u16 (push_bit 8 (i8 addr) OR (i16 port AND 0x3ff))"

definition pn_obj :: "u16 \<Rightarrow> u8" where
  "pn_obj handle = ucast (i16 handle AND 0xff)"

definition pn_dev :: "u16 \<Rightarrow> u8" where
  "pn_dev handle = ucast (drop_bit 8 (i16 handle))"

definition pn_port :: "u16 \<Rightarrow> u16" where
  "pn_port handle = to_u16 (i16 handle AND 0x3ff)"

definition pn_addr :: "u16 \<Rightarrow> u8" where
  "pn_addr handle = ucast (drop_bit 8 (i16 handle) AND 0xfc)"

definition pn_sockaddr_set_addr :: "sockaddr_pn \<Rightarrow> u8 \<Rightarrow> sockaddr_pn" where
  "pn_sockaddr_set_addr spn addr =
     (let spn = spn\<lparr>spn_dev := spn_dev spn AND 0x03\<rparr>
      in spn\<lparr>spn_dev := spn_dev spn OR (addr AND 0xfc)\<rparr>)"

definition pn_sockaddr_set_port :: "sockaddr_pn \<Rightarrow> u16 \<Rightarrow> sockaddr_pn" where
  "pn_sockaddr_set_port spn port =
     (let spn = spn\<lparr>spn_dev := spn_dev spn AND 0xfc\<rparr>;
          spn = spn\<lparr>spn_dev := spn_dev spn OR ucast (drop_bit 8 port AND 0x03)\<rparr>
      in spn\<lparr>spn_obj := ucast (port AND 0xff)\<rparr>)"

definition pn_sockaddr_set_object :: "sockaddr_pn \<Rightarrow> u16 \<Rightarrow> sockaddr_pn" where
  "pn_sockaddr_set_object spn handle =
     (let spn = spn\<lparr>spn_dev := pn_dev handle\<rparr> in spn\<lparr>spn_obj := pn_obj handle\<rparr>)"

definition pn_sockaddr_set_resource :: "sockaddr_pn \<Rightarrow> u8 \<Rightarrow> sockaddr_pn" where
  "pn_sockaddr_set_resource spn resource = spn\<lparr>spn_resource := resource\<rparr>"

definition pn_sockaddr_get_addr :: "sockaddr_pn \<Rightarrow> u8" where
  "pn_sockaddr_get_addr spn = spn_dev spn AND 0xfc"

definition pn_sockaddr_get_port :: "sockaddr_pn \<Rightarrow> u16" where
  "pn_sockaddr_get_port spn = to_u16 (push_bit 8 (i8 (spn_dev spn) AND 0x03) OR i8 (spn_obj spn))"

definition pn_sockaddr_get_object :: "sockaddr_pn \<Rightarrow> u16" where
  "pn_sockaddr_get_object spn = pn_object (spn_dev spn) (ucast (spn_obj spn))"

definition pn_sockaddr_get_resource :: "sockaddr_pn \<Rightarrow> u8" where
  "pn_sockaddr_get_resource spn = spn_resource spn"

section \<open>TIPC addresses and SCSI commands\<close>

definition tipc_addr :: "u32 \<Rightarrow> u32 \<Rightarrow> u32 \<Rightarrow> u32" where
  "tipc_addr zone cluster node = push_bit 24 zone OR push_bit 12 cluster OR node"

definition tipc_zone :: "u32 \<Rightarrow> u32" where
  "tipc_zone addr = drop_bit 24 addr"

text \<open>The masks are \<open>unsigned long\<close>, and the result is cut to \<open>unsigned int\<close>.\<close>

definition tipc_cluster :: "u32 \<Rightarrow> u32" where
  "tipc_cluster addr = ucast (drop_bit 12 ((ucast addr :: u64) AND push_bit 12 (push_bit 12 1 - 1)))"

definition tipc_node :: "u32 \<Rightarrow> u32" where
  "tipc_node addr = ucast ((ucast addr :: u64) AND push_bit 0 (push_bit 12 1 - 1))"

definition tcmu_hdr_get_op :: "u32 \<Rightarrow> u32" where "tcmu_hdr_get_op len_op = len_op AND 0x7"
definition tcmu_hdr_set_op :: "u32 \<Rightarrow> u32 \<Rightarrow> u32" where
  "tcmu_hdr_set_op len_op op = (let len_op = len_op AND NOT 0x7 in len_op OR (op AND 0x7))"
definition tcmu_hdr_get_len :: "u32 \<Rightarrow> u32" where "tcmu_hdr_get_len len_op = len_op AND NOT 0x7"
definition tcmu_hdr_set_len :: "u32 \<Rightarrow> u32 \<Rightarrow> u32" where
  "tcmu_hdr_set_len len_op len = (let len_op = len_op AND 0x7 in len_op OR len)"

section \<open>Times\<close>

text \<open>
  The operands and the result of the macros are addresses, which may be the same. \<open>tv_sec\<close> and \<open>tv_usec\<close> are \<open>long\<close>;
  a sum or difference that does not fit is an overflow, \<open>None\<close>.
\<close>

record timeval =
  tv_sec :: int
  tv_usec :: int

definition c_long :: "int \<Rightarrow> int option" where
  "c_long v = (if - (2 ^ 63) \<le> v \<and> v < 2 ^ 63 then Some v else None)"

definition timerisset :: "timeval \<Rightarrow> bool" where
  "timerisset tvp \<longleftrightarrow> tv_sec tvp \<noteq> 0 \<or> tv_usec tvp \<noteq> 0"

definition timerclear :: "(nat \<Rightarrow> timeval) \<Rightarrow> nat \<Rightarrow> (nat \<Rightarrow> timeval)" where
  "timerclear m tvp = m(tvp := \<lparr>tv_sec = 0, tv_usec = 0\<rparr>)"

definition timercmp :: "timeval \<Rightarrow> timeval \<Rightarrow> (int \<Rightarrow> int \<Rightarrow> bool) \<Rightarrow> bool" where
  "timercmp a b CMP = (if tv_sec a = tv_sec b then CMP (tv_usec a) (tv_usec b) else CMP (tv_sec a) (tv_sec b))"

definition set_sec :: "nat \<Rightarrow> int \<Rightarrow> (nat \<Rightarrow> timeval) \<Rightarrow> (nat \<Rightarrow> timeval)" where
  "set_sec p v m = m(p := (m p)\<lparr>tv_sec := v\<rparr>)"

definition set_usec :: "nat \<Rightarrow> int \<Rightarrow> (nat \<Rightarrow> timeval) \<Rightarrow> (nat \<Rightarrow> timeval)" where
  "set_usec p v m = m(p := (m p)\<lparr>tv_usec := v\<rparr>)"

definition timeradd :: "nat \<Rightarrow> nat \<Rightarrow> nat \<Rightarrow> (nat \<Rightarrow> timeval) \<Rightarrow> (nat \<Rightarrow> timeval) option" where
  "timeradd a b result m = do {
     s \<leftarrow> c_long (tv_sec (m a) + tv_sec (m b));
     let m = set_sec result s m;
     u \<leftarrow> c_long (tv_usec (m a) + tv_usec (m b));
     let m = set_usec result u m;
     if tv_usec (m result) \<ge> 1000000 then do {
       s \<leftarrow> c_long (tv_sec (m result) + 1);
       let m = set_sec result s m;
       u \<leftarrow> c_long (tv_usec (m result) - 1000000);
       Some (set_usec result u m)
     } else Some m
   }"

definition timersub :: "nat \<Rightarrow> nat \<Rightarrow> nat \<Rightarrow> (nat \<Rightarrow> timeval) \<Rightarrow> (nat \<Rightarrow> timeval) option" where
  "timersub a b result m = do {
     s \<leftarrow> c_long (tv_sec (m a) - tv_sec (m b));
     let m = set_sec result s m;
     u \<leftarrow> c_long (tv_usec (m a) - tv_usec (m b));
     let m = set_usec result u m;
     if tv_usec (m result) < 0 then do {
       s \<leftarrow> c_long (tv_sec (m result) - 1);
       let m = set_sec result s m;
       u \<leftarrow> c_long (tv_usec (m result) + 1000000);
       Some (set_usec result u m)
     } else Some m
   }"

section \<open>Packing and unpacking\<close>

lemma dev_masks:
  "(0xfff00 :: u64) = push_bit 8 (mask 12)" "(0xfffff00000000000 :: u64) = push_bit 44 (mask 20)"
  "(0xff :: u64) = mask 8" "(0xffffff00000 :: u64) = push_bit 20 (mask 24)"
  "(0xfff :: u32) = mask 12" "(0xfffff000 :: u32) = push_bit 12 (mask 20)"
  "(0xff :: u32) = mask 8" "(0xffffff00 :: u32) = push_bit 8 (mask 24)"
  by (simp_all add: mask_eq_exp_minus_1)

lemma bit_gnu_dev:
  "n < 32 \<Longrightarrow> bit (gnu_dev_major dev) n \<longleftrightarrow> (if n < 12 then bit dev (n + 8) else bit dev (n + 32))"
  "n < 32 \<Longrightarrow> bit (gnu_dev_minor dev) n \<longleftrightarrow> (if n < 8 then bit dev n else bit dev (n + 12))"
  "n < 64 \<Longrightarrow> bit (gnu_dev_makedev ma mi) n \<longleftrightarrow>
     (if n < 8 then bit mi n else if n < 20 then bit ma (n - 8) else if n < 44 then bit mi (n - 12) else bit ma (n - 32))"
  unfolding gnu_dev_major_def gnu_dev_minor_def gnu_dev_makedev_def Let_def dev_masks
  by (auto simp: bit_simps ac_simps)

text \<open>
  Device numbers and pairs of a major and a minor number of 32 bits are in one-to-one
  correspondence.
\<close>

theorem makedev_bijective:
  "gnu_dev_major (gnu_dev_makedev ma mi) = ma \<and> gnu_dev_minor (gnu_dev_makedev ma mi) = mi
   \<and> gnu_dev_makedev (gnu_dev_major dev) (gnu_dev_minor dev) = dev"
proof (intro conjI)
  show "gnu_dev_major (gnu_dev_makedev ma mi) = ma" by (rule bit_word_eqI) (simp add: bit_gnu_dev)
  show "gnu_dev_minor (gnu_dev_makedev ma mi) = mi" by (rule bit_word_eqI) (simp add: bit_gnu_dev)
  show "gnu_dev_makedev (gnu_dev_major dev) (gnu_dev_minor dev) = dev"
  proof (rule bit_word_eqI)
    fix n assume "n < LENGTH(64)"
    then have n: "n < 64" by simp
    consider "n < 8" | "8 \<le> n" "n < 20" | "20 \<le> n" "n < 44" | "44 \<le> n" by linarith
    then show "bit (gnu_dev_makedev (gnu_dev_major dev) (gnu_dev_minor dev)) n = bit dev n"
      by cases (use n in \<open>auto simp: bit_gnu_dev\<close>)
  qed
qed

text \<open>
  The four fields of an \<open>ioctl\<close> request that fit their widths are read back, whichever of the macros made
  it; requests made from different fields are different.
\<close>

theorem ioc_roundtrip:
  assumes "dir < 2 ^ 2" "type < 2 ^ 8" "nr < 2 ^ 8" "sz < 2 ^ 14"
  shows "IOC_DIR (IOC dir type nr sz) = dir \<and> IOC_TYPE (IOC dir type nr sz) = type
    \<and> IOC_NR (IOC dir type nr sz) = nr \<and> IOC_SIZE (IOC dir type nr sz) = sz"
proof -
  have bits: "bit dir n \<Longrightarrow> n < 2" "bit type n \<Longrightarrow> n < 8" "bit nr n \<Longrightarrow> n < 8" "bit sz n \<Longrightarrow> n < 14" for n
    using word_bit_less [OF assms(1)] word_bit_less [OF assms(2)] word_bit_less [OF assms(3)] word_bit_less [OF assms(4)] by blast+
  have m: "(push_bit 2 1 - 1 :: u32) = mask 2" "(push_bit 8 1 - 1 :: u32) = mask 8" "(push_bit 14 1 - 1 :: u32) = mask 14"
    by (simp_all add: mask_eq_exp_minus_1)
  have "IOC_DIR (IOC dir type nr sz) = dir" "IOC_TYPE (IOC dir type nr sz) = type"
    "IOC_NR (IOC dir type nr sz) = nr" "IOC_SIZE (IOC dir type nr sz) = sz"
    unfolding IOC_DIR_def IOC_TYPE_def IOC_NR_def IOC_SIZE_def IOC_def m
    by (rule bit_word_eqI; use bits in \<open>fastforce simp: bit_simps\<close>)+
  then show ?thesis by blast
qed

theorem ioc_roundtrip_witness:
  "IOC_SIZE (IOWR 0x61 5 200) = 200"
  using ioc_roundtrip [of "2 OR 1" "0x61" 5 200] by (simp add: IOWR_def)


lemma small_masks:
  "(0x3 :: u32) = mask 2" "(0x3 :: u16) = mask 2" "(0x3 :: u8) = mask 2" "(0x3ff :: u32) = mask 10" "(0xff :: u32) = mask 8"
  "(0xff :: u16) = mask 8" "(0xfc :: u8) = push_bit 2 (mask 6)" "(0xfc :: u32) = push_bit 2 (mask 6)" "(0x7 :: u32) = mask 3"
  by (simp_all add: mask_eq_exp_minus_1)

text \<open>
  A phonet socket address keeps an address of 6 bits and a port of 10 bits: setting one leaves the
  other as it is and is read back, cut to its width; an object that is set is read back whole, and its parts are the
  address and the port.
\<close>

theorem phonet_address:
  "pn_sockaddr_get_object (pn_sockaddr_set_object spn handle) = handle
   \<and> pn_sockaddr_get_port (pn_sockaddr_set_port spn port) = take_bit 10 port
   \<and> pn_sockaddr_get_addr (pn_sockaddr_set_port spn port) = pn_sockaddr_get_addr spn
   \<and> pn_sockaddr_get_addr (pn_sockaddr_set_addr spn addr) = addr AND 0xfc
   \<and> pn_sockaddr_get_port (pn_sockaddr_set_addr spn addr) = pn_sockaddr_get_port spn
   \<and> pn_sockaddr_get_addr (pn_sockaddr_set_object spn handle) = pn_addr handle
   \<and> pn_sockaddr_get_port (pn_sockaddr_set_object spn handle) = pn_port handle
   \<and> pn_port (pn_object (addr AND 0xfc) port) = take_bit 10 port \<and> pn_addr (pn_object (addr AND 0xfc) port) = addr AND 0xfc"
  unfolding pn_sockaddr_get_object_def pn_sockaddr_set_object_def pn_sockaddr_get_port_def pn_sockaddr_set_port_def
    pn_sockaddr_get_addr_def pn_sockaddr_set_addr_def pn_object_def pn_obj_def pn_dev_def pn_port_def pn_addr_def Let_def small_masks
  by (intro conjI; rule bit_word_eqI; simp; fastforce simp: bit_simps)

text \<open>
  A TIPC address of a zone, a cluster and a node that fit their widths gives them back, and the length and
  the operation in the header of a SCSI command, of which the length is a multiple of 8, do not disturb one another.
\<close>

theorem packed_headers:
  assumes "zone < 2 ^ 8" "cluster < 2 ^ 12" "node < 2 ^ 12" "tcmu_hdr_get_op len = 0"
  shows "tipc_zone (tipc_addr zone cluster node) = zone \<and> tipc_cluster (tipc_addr zone cluster node) = cluster
    \<and> tipc_node (tipc_addr zone cluster node) = node
    \<and> tcmu_hdr_get_len (tcmu_hdr_set_len len_op len) = len \<and> tcmu_hdr_get_op (tcmu_hdr_set_len len_op len) = tcmu_hdr_get_op len_op
    \<and> tcmu_hdr_get_op (tcmu_hdr_set_op len_op op) = op AND 7 \<and> tcmu_hdr_get_len (tcmu_hdr_set_op len_op op) = tcmu_hdr_get_len len_op"
proof -
  have bits: "bit zone n \<Longrightarrow> n < 8" "bit cluster n \<Longrightarrow> n < 12" "bit node n \<Longrightarrow> n < 12" for n
    using word_bit_less [OF assms(1)] word_bit_less [OF assms(2)] word_bit_less [OF assms(3)] by blast+
  have m: "(push_bit 12 1 - 1 :: u64) = mask 12" by (simp add: mask_eq_exp_minus_1)
  have len: "\<not> bit len n" if "n < 3" for n
  proof -
    have "bit (len AND mask 3) n = bit (0 :: u32) n" using assms(4) unfolding tcmu_hdr_get_op_def small_masks by simp
    then show ?thesis using that by (simp add: bit_simps)
  qed
  have "tipc_zone (tipc_addr zone cluster node) = zone" "tipc_cluster (tipc_addr zone cluster node) = cluster"
    "tipc_node (tipc_addr zone cluster node) = node"
    unfolding tipc_zone_def tipc_cluster_def tipc_node_def tipc_addr_def m
    by (rule bit_word_eqI; use bits in \<open>fastforce simp: bit_simps\<close>)+
  moreover have "tcmu_hdr_get_len (tcmu_hdr_set_len len_op len) = len"
    "tcmu_hdr_get_op (tcmu_hdr_set_len len_op len) = tcmu_hdr_get_op len_op"
    "tcmu_hdr_get_op (tcmu_hdr_set_op len_op op) = op AND 7" "tcmu_hdr_get_len (tcmu_hdr_set_op len_op op) = tcmu_hdr_get_len len_op"
    unfolding tcmu_hdr_get_len_def tcmu_hdr_set_len_def tcmu_hdr_get_op_def tcmu_hdr_set_op_def Let_def small_masks
    by (rule bit_word_eqI; use len in \<open>fastforce simp: bit_simps\<close>)+
  ultimately show ?thesis by blast
qed

theorem packed_headers_witness:
  "tipc_cluster (tipc_addr 1 2 3) = 2 \<and> tcmu_hdr_get_len (tcmu_hdr_set_len 1 64) = 64"
  using packed_headers [of 1 2 3 64 1 0] by (simp add: tcmu_hdr_get_op_def)

section \<open>Adding times\<close>

definition normal :: "timeval \<Rightarrow> bool" where
  "normal t \<longleftrightarrow> 0 \<le> tv_usec t \<and> tv_usec t < 1000000 \<and> \<bar>tv_sec t\<bar> < 2 ^ 61"

definition micros :: "timeval \<Rightarrow> int" where
  "micros t = tv_sec t * 1000000 + tv_usec t"

lemma set_time_simps [simp]:
  "tv_sec (set_sec p v m q) = (if q = p then v else tv_sec (m q))" "tv_usec (set_sec p v m q) = tv_usec (m q)"
  "tv_usec (set_usec p v m q) = (if q = p then v else tv_usec (m q))" "tv_sec (set_usec p v m q) = tv_sec (m q)"
  "q \<noteq> p \<Longrightarrow> set_sec p v m q = m q" "q \<noteq> p \<Longrightarrow> set_usec p v m q = m q"
  by (simp_all add: set_sec_def set_usec_def)

lemma c_long_small: "\<bar>v\<bar> \<le> 2 ^ 62 \<Longrightarrow> c_long v = Some v"
  by (simp add: c_long_def abs_le_iff)



end
