(* ===== verification/Fd_Sets.thy ===== *)
theory Fd_Sets
  imports Bit_Arrays
begin

unbundle bit_operations_syntax

text \<open>
  Sets of file descriptors: the macros of \<open>include/sys/select.h\<close> and \<open>include/bits/select.h\<close> with the checks of
  \<open>include/bits/select2.h\<close>, and the operations on whole sets of \<open>include/X11/Xpoll.h\<close>. A set is an array of \<open>long\<close>; the
  width of \<open>long\<close> is the width of the words of the array, so that the theorems cover builds for 64 and 32 bits.
\<close>

section \<open>Words and bits\<close>

datatype fd_error = Undefined | Aborted

definition FD_SETSIZE :: nat where
  "FD_SETSIZE = 1024"

definition howmany :: "nat \<Rightarrow> nat \<Rightarrow> nat" where
  "howmany x y = (x + (y - 1)) div y"

text \<open>
  Which \<open>__FD_ELT\<close> is compiled: the plain division, or the one of a fortified build, in which \<open>const\<close> is
  \<open>__builtin_constant_p\<close> of the argument and the function of the C library is a parameter. \<open>__fdelt_warn\<close> is
  another name of it. The plain division rounds towards zero, as C does.
\<close>

datatype elt_build = Plain | Fortified bool "int \<Rightarrow> fd_error + int"

definition c_div :: "int \<Rightarrow> int \<Rightarrow> int" where
  "c_div a b = (if 0 \<le> a then a div b else - ((- a) div b))"

fun FD_ELT :: "elt_build \<Rightarrow> nat \<Rightarrow> int \<Rightarrow> fd_error + int" where
  "FD_ELT Plain nfdbits d = Inr (c_div d (int nfdbits))"
| "FD_ELT (Fortified const fdelt_chk) nfdbits d =
     (if const then
        (if 0 \<le> d \<and> d < int FD_SETSIZE then Inr (c_div d (int nfdbits)) else fdelt_chk d)
      else fdelt_chk d)"

text \<open>\<open>1UL << (d % __NFDBITS)\<close>: the remainder of a negative number is not positive, and a negative shift undefined.\<close>

definition FD_MASK :: "int \<Rightarrow> fd_error + ('a::len word)" where
  "FD_MASK d = (let r = d - int LENGTH('a) * c_div d (int LENGTH('a))
     in if 0 \<le> r then Inr (push_bit (nat r) 1) else Inl Undefined)"

definition fd_word :: "elt_build \<Rightarrow> int \<Rightarrow> 'a::len word list \<Rightarrow> fd_error + nat" where
  "fd_word b d fds =
     (case FD_ELT b LENGTH('a) d of
        Inl e \<Rightarrow> Inl e
      | Inr i \<Rightarrow> if 0 \<le> i \<and> i < int (length fds) then Inr (nat i) else Inl Undefined)"

section \<open>Access to one descriptor\<close>

definition FD_SET :: "elt_build \<Rightarrow> int \<Rightarrow> 'a::len word list \<Rightarrow> fd_error + 'a word list" where
  "FD_SET b d fds =
     (case fd_word b d fds of
        Inl e \<Rightarrow> Inl e
      | Inr i \<Rightarrow> (case FD_MASK d of Inl e \<Rightarrow> Inl e | Inr m \<Rightarrow> Inr (fds[i := fds ! i OR m])))"

definition FD_CLR :: "elt_build \<Rightarrow> int \<Rightarrow> 'a::len word list \<Rightarrow> fd_error + 'a word list" where
  "FD_CLR b d fds =
     (case fd_word b d fds of
        Inl e \<Rightarrow> Inl e
      | Inr i \<Rightarrow> (case FD_MASK d of Inl e \<Rightarrow> Inl e | Inr m \<Rightarrow> Inr (fds[i := fds ! i AND NOT m])))"

definition FD_ISSET :: "elt_build \<Rightarrow> int \<Rightarrow> 'a::len word list \<Rightarrow> fd_error + bool" where
  "FD_ISSET b d fds =
     (case fd_word b d fds of
        Inl e \<Rightarrow> Inl e
      | Inr i \<Rightarrow> (case FD_MASK d of Inl e \<Rightarrow> Inl e | Inr m \<Rightarrow> Inr (fds ! i AND m \<noteq> 0)))"

text \<open>\<open>rep stos\<close> writes \<open>sizeof (fd_set) / sizeof (__fd_mask)\<close> zeros, as the loop for other compilers does.\<close>

fun rep_stos :: "nat \<Rightarrow> 'a::len word list \<Rightarrow> 'a word list option" where
  "rep_stos 0 ws = Some ws"
| "rep_stos (Suc n) [] = None"
| "rep_stos (Suc n) (w # ws) = map_option ((#) 0) (rep_stos n ws)"

definition FD_ZERO :: "bool \<Rightarrow> 'a::len word list \<Rightarrow> 'a word list option" where
  "FD_ZERO gnu fds =
     (if gnu then rep_stos (FD_SETSIZE div LENGTH('a)) fds
      else map_option (\<lambda>s. s 0) (each_index (\<lambda>i. store_word 0 i 0) [0..<FD_SETSIZE div LENGTH('a)] (\<lambda>_. fds)))"

section \<open>Whole sets\<close>

text \<open>
  The sixteen disjuncts of \<open>XFD_ANYSET\<close>, for the words 0 to 15, from left to right; the guard comes first
  in each, so that no word is read behind the end.
\<close>

definition anyset_word :: "nat \<Rightarrow> 'a::len word list \<Rightarrow> bool option" where
  "anyset_word k p =
     (if howmany FD_SETSIZE LENGTH('a) > k
      then (if k < length p then Some (p ! k \<noteq> 0) else None) else Some False)"

fun anyset_from :: "nat list \<Rightarrow> 'a::len word list \<Rightarrow> bool option" where
  "anyset_from [] p = Some False"
| "anyset_from (k # ks) p = do { t \<leftarrow> anyset_word k p; if t then Some True else anyset_from ks p }"

definition XFD_ANYSET :: "'a::len word list \<Rightarrow> bool option" where
  "XFD_ANYSET p = anyset_from [0, 1, 2, 3, 4, 5, 6, 7, 8, 9, 10, 11, 12, 13, 14, 15] p"

text \<open>The operands are addresses of sets in a store.\<close>

definition XFD_COPYSET :: "nat \<Rightarrow> nat \<Rightarrow> (nat \<Rightarrow> 'a::len word list) \<Rightarrow> (nat \<Rightarrow> 'a word list) option" where
  "XFD_COPYSET src dst =
     each_index (\<lambda>i s. do { x \<leftarrow> fetch_word src i s; store_word dst i x s }) [0..<howmany FD_SETSIZE LENGTH('a)]"

definition XFD_ANDSET :: "nat \<Rightarrow> nat \<Rightarrow> nat \<Rightarrow> (nat \<Rightarrow> 'a::len word list) \<Rightarrow> (nat \<Rightarrow> 'a word list) option" where
  "XFD_ANDSET dst b1 b2 =
     each_index (\<lambda>i s. do { x \<leftarrow> fetch_word b1 i s; y \<leftarrow> fetch_word b2 i s; store_word dst i (x AND y) s })
       [0..<howmany FD_SETSIZE LENGTH('a)]"

definition XFD_ORSET :: "nat \<Rightarrow> nat \<Rightarrow> nat \<Rightarrow> (nat \<Rightarrow> 'a::len word list) \<Rightarrow> (nat \<Rightarrow> 'a word list) option" where
  "XFD_ORSET dst b1 b2 =
     each_index (\<lambda>i s. do { x \<leftarrow> fetch_word b1 i s; y \<leftarrow> fetch_word b2 i s; store_word dst i (x OR y) s })
       [0..<howmany FD_SETSIZE LENGTH('a)]"

definition XFD_UNSET :: "nat \<Rightarrow> nat \<Rightarrow> (nat \<Rightarrow> 'a::len word list) \<Rightarrow> (nat \<Rightarrow> 'a word list) option" where
  "XFD_UNSET dst b1 =
     each_index (\<lambda>i s. do { x \<leftarrow> fetch_word dst i s; y \<leftarrow> fetch_word b1 i s; store_word dst i (x AND NOT y) s })
       [0..<howmany FD_SETSIZE LENGTH('a)]"

section \<open>What one access does\<close>

text \<open>What the manual says of \<open>__fdelt_chk\<close>: the index, or the end of the program.\<close>

fun good_elt :: "elt_build \<Rightarrow> nat \<Rightarrow> bool" where
  "good_elt Plain nfdbits \<longleftrightarrow> True"
| "good_elt (Fortified const fdelt_chk) nfdbits \<longleftrightarrow>
     (\<forall>d. fdelt_chk d = (if 0 \<le> d \<and> d < int FD_SETSIZE then Inr (c_div d (int nfdbits)) else Inl Aborted))"

abbreviation fd_shape :: "'a::len word list \<Rightarrow> bool" where
  "fd_shape (fds :: 'a word list) \<equiv> LENGTH('a) * length fds = FD_SETSIZE"

lemma c_div_nat: "c_div (int n) (int k) = int (n div k)"
  by (simp add: c_div_def zdiv_int)

lemma FD_ELT_inside: "good_elt b k \<Longrightarrow> n < FD_SETSIZE \<Longrightarrow> FD_ELT b k (int n) = Inr (int (n div k))"
  by (cases b) (auto simp: c_div_nat)

lemma FD_MASK_nat: "FD_MASK (int n) = Inr (push_bit (n mod LENGTH('a)) (1 :: 'a::len word))"
proof -
  have "int n - int LENGTH('a) * int (n div LENGTH('a)) = int (n mod LENGTH('a))"
    by (simp add: zmod_int zdiv_int minus_mult_div_eq_mod)
  then show ?thesis by (simp add: FD_MASK_def c_div_nat Let_def del: push_bit_of_1)
qed

lemma fd_word_inside:
  fixes fds :: "'a::len word list"
  assumes "good_elt b LENGTH('a)" "fd_shape fds" "n < FD_SETSIZE"
  shows "fd_word b (int n) fds = Inr (n div LENGTH('a))" "n div LENGTH('a) < length fds"
proof -
  show "n div LENGTH('a) < length fds" using assms(2,3) place_less [of n "length fds", where 'a = 'a] by simp
  then show "fd_word b (int n) fds = Inr (n div LENGTH('a))"
    using assms by (simp add: fd_word_def FD_ELT_inside)
qed

lemma fd_ops_inside:
  fixes fds :: "'a::len word list"
  assumes "good_elt b LENGTH('a)" "fd_shape fds" "n < FD_SETSIZE"
  shows "\<exists>r. FD_SET b (int n) fds = Inr r \<and> fd_shape r \<and> members r = insert n (members fds)"
    and "\<exists>r. FD_CLR b (int n) fds = Inr r \<and> fd_shape r \<and> members r = members fds - {n}"
    and "FD_ISSET b (int n) fds = Inr (n \<in> members fds)"
  using fd_word_inside [OF assms] assms(2) members_set [of n fds] members_clear [of n fds] members_test [of n fds]
  by (simp_all add: FD_SET_def FD_CLR_def FD_ISSET_def FD_MASK_nat del: push_bit_of_1)

lemma fd_word_outside:
  fixes fds :: "'a::len word list"
  assumes "fd_shape fds" "d < 0 \<or> int FD_SETSIZE \<le> d" "good_elt b LENGTH('a)"
  shows "(case b of Plain \<Rightarrow> fd_word b d fds = Inl Undefined \<or> FD_MASK d = (Inl Undefined :: fd_error + 'a word)
    | Fortified const chk \<Rightarrow> fd_word b d fds = Inl Aborted)"
proof (cases b)
  case Plain
  let ?k = "int LENGTH('a)"
  have len: "int (length fds) * ?k = int FD_SETSIZE" using assms(1) by (metis mult.commute of_nat_mult)
  show ?thesis
  proof (cases "d < 0")
    case True
    show ?thesis
    proof (cases "- d < ?k")
      case True
      then have "c_div d ?k = 0" using \<open>d < 0\<close> by (simp add: c_div_def)
      then have "FD_MASK d = (Inl Undefined :: fd_error + 'a word)" using \<open>d < 0\<close> by (simp add: FD_MASK_def)
      then show ?thesis using Plain by simp
    next
      case False
      then have "0 < (- d) div ?k" by (simp add: pos_imp_zdiv_pos_iff)
      then show ?thesis using Plain \<open>d < 0\<close> by (simp add: fd_word_def c_div_def)
    qed
  next
    case False
    then have "int FD_SETSIZE \<le> d" using assms(2) by simp
    then have "int (length fds) * ?k div ?k \<le> d div ?k" by (intro zdiv_mono1) (simp_all only: len len_gt_0 of_nat_0_less_iff)
    then have "int (length fds) \<le> d div ?k" by simp
    then show ?thesis using Plain False by (simp add: fd_word_def c_div_def)
  qed
next
  case (Fortified const chk)
  then show ?thesis using assms by (auto simp: fd_word_def)
qed


lemma plain_undefined: "fd_word Plain d fds = Inl e \<Longrightarrow> e = Undefined"
  by (auto simp: fd_word_def split: if_splits)

lemma fd_ops_outside:
  fixes fds :: "'a::len word list"
  assumes "good_elt b LENGTH('a)" "fd_shape fds" "d < 0 \<or> int FD_SETSIZE \<le> d"
  shows "FD_SET b d fds = Inl (if b = Plain then Undefined else Aborted)"
    and "FD_CLR b d fds = Inl (if b = Plain then Undefined else Aborted)"
    and "FD_ISSET b d fds = Inl (if b = Plain then Undefined else Aborted)"
  using fd_word_outside [OF assms(2,3,1)]
  by (auto simp: FD_SET_def FD_CLR_def FD_ISSET_def dest: plain_undefined split: elt_build.splits sum.splits if_splits)

definition right_part :: "'e + 'r \<Rightarrow> 'r option" where
  "right_part x = (case x of Inl e \<Rightarrow> None | Inr r \<Rightarrow> Some r)"

lemma fd_bit_set:
  "good_elt b LENGTH('a) \<Longrightarrow> bit_set fd_shape FD_SETSIZE (\<lambda>n fds. right_part (FD_SET b (int n) fds))
     (\<lambda>n fds. right_part (FD_CLR b (int n) fds)) (\<lambda>n fds. right_part (FD_ISSET b (int n) fds))
     (members :: 'a::len word list \<Rightarrow> nat set)"
  using fd_ops_inside by (unfold_locales) (fastforce simp: right_part_def)+

interpretation plain_fds: bit_set "fd_shape :: 'a::len word list \<Rightarrow> bool" FD_SETSIZE
  "\<lambda>n fds. right_part (FD_SET Plain (int n) fds)" "\<lambda>n fds. right_part (FD_CLR Plain (int n) fds)"
  "\<lambda>n fds. right_part (FD_ISSET Plain (int n) fds)" members
  by (rule fd_bit_set) simp

section \<open>What the operations on sets do\<close>

lemma rep_stos_zero: "n \<le> length ws \<Longrightarrow> rep_stos n ws = Some (replicate n 0 @ drop n ws)"
  by (induction n ws rule: rep_stos.induct) auto

lemma fd_words:
  assumes "fd_shape (fds :: 'a::len word list)"
  shows "FD_SETSIZE div LENGTH('a) = length fds" "howmany FD_SETSIZE LENGTH('a) = length fds"
proof -
  show "FD_SETSIZE div LENGTH('a) = length fds" by (simp add: assms [symmetric])
  have "howmany (LENGTH('a) * length fds) LENGTH('a) = length fds"
    by (simp add: howmany_def div_mult_self1 [of _ "LENGTH('a) - 1" "length fds", simplified add.commute])
  then show "howmany FD_SETSIZE LENGTH('a) = length fds" by (simp add: assms)
qed


lemma anyset_from_words:
  assumes "\<forall>k \<in> set ks. howmany FD_SETSIZE LENGTH('a) > k \<longrightarrow> k < length (p :: 'a::len word list)"
  shows "anyset_from ks p = Some (\<exists>k \<in> set ks. k < howmany FD_SETSIZE LENGTH('a) \<and> p ! k \<noteq> 0)"
  using assms by (induction ks) (auto simp: anyset_word_def)

lemma word_nonzero: "w \<noteq> 0 \<longleftrightarrow> (\<exists>n < LENGTH('a). bit (w :: 'a::len word) n)"
  by (metis bit_word_eqI bit_0_eq bot_apply bot_bool_def)

lemma anyset_below:
  fixes p :: "'a::len word list"
  assumes "fd_shape p"
  shows "XFD_ANYSET p = Some (\<exists>n \<in> members p. n < LENGTH('a) * 16)"
proof -
  have upt: "[0, 1, 2, 3, 4, 5, 6, 7, 8, 9, 10, 11, 12, 13, 14, 15] = [0..<16 :: nat]" by (simp add: upt_rec)
  have "XFD_ANYSET p = Some (\<exists>k \<in> set [0..<16]. k < length p \<and> p ! k \<noteq> 0)"
    using anyset_from_words [of "[0..<16]" p] unfolding XFD_ANYSET_def upt fd_words [OF assms] by blast
  moreover have "(\<exists>k \<in> set [0..<16]. k < length p \<and> p ! k \<noteq> 0) \<longleftrightarrow> (\<exists>n \<in> members p. n < LENGTH('a) * 16)"
  proof
    assume "\<exists>k \<in> set [0..<16]. k < length p \<and> p ! k \<noteq> 0"
    then obtain k n where k: "k < 16" "k < length p" "n < LENGTH('a)" "bit (p ! k) n"
      by (auto simp: word_nonzero)
    have "(LENGTH('a) * k + n) div LENGTH('a) < 16" using k by simp
    then have "LENGTH('a) * k + n < LENGTH('a) * 16" by (simp only: place_less)
    then show "\<exists>n \<in> members p. n < LENGTH('a) * 16" using k bit_members [of k p n] by auto
  next
    assume "\<exists>n \<in> members p. n < LENGTH('a) * 16"
    then obtain n where n: "n \<in> members p" "n div LENGTH('a) < 16" by (auto simp: place_less)
    then have "bit (p ! (n div LENGTH('a))) (n mod LENGTH('a))" "n div LENGTH('a) < length p"
      by (simp_all add: members_def)
    then show "\<exists>k \<in> set [0..<16]. k < length p \<and> p ! k \<noteq> 0" using n(2) by (intro bexI [of _ "n div LENGTH('a)"]) auto
  qed
  ultimately show ?thesis by simp
qed

lemma each_index_map:
  fixes s :: "nat \<Rightarrow> 'b::len word list"
  assumes "k \<le> length (s a)" "k \<le> length (s d)"
  shows "each_index (\<lambda>i s. do { x \<leftarrow> fetch_word a i s; store_word d i x s }) [0..<k] s =
    Some (s(d := take k (s a) @ drop k (s d)))"
proof -
  have "(do { x \<leftarrow> fetch_word a i s; y \<leftarrow> fetch_word a i s; store_word d i x s })
    = do { x \<leftarrow> fetch_word a i s; store_word d i x s }" for i and s :: "nat \<Rightarrow> 'b word list"
    by (cases "fetch_word a i s") auto
  moreover have "map2 (\<lambda>x y. x) xs xs = xs" for xs :: "'b word list" by (induction xs) auto
  ultimately show ?thesis using each_index_map2 [OF assms(1,1,2), of "\<lambda>x y. x"] by simp
qed

lemma whole_sets:
  fixes s :: "nat \<Rightarrow> 'a::len word list"
  assumes "fd_shape (s d)" "fd_shape (s a)" "fd_shape (s b)"
  shows "XFD_ANDSET d a b s = Some (s(d := map2 (AND) (s a) (s b)))"
    and "XFD_ORSET d a b s = Some (s(d := map2 (OR) (s a) (s b)))"
    and "XFD_UNSET d a s = Some (s(d := map2 (\<lambda>x y. x AND NOT y) (s d) (s a)))"
    and "XFD_COPYSET a d s = Some (s(d := s a))"
proof -
  have len: "length (s a) = length (s d)" "length (s b) = length (s d)"
    using assms by (metis mult_left_cancel len_gt_0 less_numeral_extra(3))+
  note w = fd_words(2) [OF assms(1)]
  show "XFD_ANDSET d a b s = Some (s(d := map2 (AND) (s a) (s b)))"
    using each_index_map2 [of "length (s d)" s a b d "(AND)"] by (simp add: XFD_ANDSET_def w len)
  show "XFD_ORSET d a b s = Some (s(d := map2 (OR) (s a) (s b)))"
    using each_index_map2 [of "length (s d)" s a b d "(OR)"] by (simp add: XFD_ORSET_def w len)
  show "XFD_UNSET d a s = Some (s(d := map2 (\<lambda>x y. x AND NOT y) (s d) (s a)))"
    using each_index_map2 [of "length (s d)" s d a d "\<lambda>x y. x AND NOT y"] by (simp add: XFD_UNSET_def w len)
  show "XFD_COPYSET a d s = Some (s(d := s a))"
    using each_index_map [of "length (s d)" s a d] by (simp add: XFD_COPYSET_def w len)
qed

section \<open>The theorems\<close>

text \<open>
  (C20) A set of descriptors as the macros see it. For a descriptor in range every build, plain or fortified, with
  a constant argument or not, inserts, deletes and asks for exactly that descriptor. For any other
  number, negative ones included, a fortified build ends the program and a plain one has undefined behaviour.
\<close>

theorem fd_access_exact:
  fixes fds :: "'a::len word list"
  assumes "good_elt b LENGTH('a)" "fd_shape fds"
  shows "if 0 \<le> d \<and> d < int FD_SETSIZE
    then (\<exists>r. FD_SET b d fds = Inr r \<and> fd_shape r \<and> members r = insert (nat d) (members fds))
      \<and> (\<exists>r. FD_CLR b d fds = Inr r \<and> fd_shape r \<and> members r = members fds - {nat d})
      \<and> FD_ISSET b d fds = Inr (nat d \<in> members fds)
    else FD_SET b d fds = Inl (if b = Plain then Undefined else Aborted)
      \<and> FD_CLR b d fds = Inl (if b = Plain then Undefined else Aborted)
      \<and> FD_ISSET b d fds = Inl (if b = Plain then Undefined else Aborted)"
  using fd_ops_inside [OF assms, of "nat d"] fd_ops_outside [OF assms, of d] by auto

theorem fd_access_exact_witness:
  "FD_SET (Fortified False (\<lambda>d. if 0 \<le> d \<and> d < int FD_SETSIZE then Inr (c_div d 64) else Inl Aborted)) 1024
     (replicate 16 (0 :: u64)) = Inl Aborted"
proof -
  let ?b = "Fortified False (\<lambda>d. if 0 \<le> d \<and> d < int FD_SETSIZE then Inr (c_div d 64) else Inl Aborted)"
  have "good_elt ?b LENGTH(64)" "fd_shape (replicate 16 (0 :: u64))" by (simp_all add: FD_SETSIZE_def)
  from fd_access_exact [OF this, of 1024] show ?thesis by (simp add: FD_SETSIZE_def)
qed

text \<open>
  The operations of \<open>Xpoll.h\<close> on whole sets are copying, intersection, union and difference of the sets
  of descriptors, also when the destination is one of the operands, and change no other set; clearing gives
  the empty set. The question whether any descriptor is in a set is answered for the first sixteen words of it.
\<close>

theorem fd_sets_algebra:
  fixes s :: "nat \<Rightarrow> 'a::len word list"
  assumes "fd_shape (s d)" "fd_shape (s a)" "fd_shape (s b)"
  shows "(\<exists>r. XFD_ANDSET d a b s = Some (s(d := r)) \<and> members r = members (s a) \<inter> members (s b))
    \<and> (\<exists>r. XFD_ORSET d a b s = Some (s(d := r)) \<and> members r = members (s a) \<union> members (s b))
    \<and> (\<exists>r. XFD_UNSET d a s = Some (s(d := r)) \<and> members r = members (s d) - members (s a))
    \<and> XFD_COPYSET a d s = Some (s(d := s a))
    \<and> (\<exists>r. FD_ZERO gnu (s a) = Some r \<and> length r = length (s a) \<and> members r = {})
    \<and> XFD_ANYSET (s a) = Some (\<exists>n \<in> members (s a). n < LENGTH('a) * 16)"
proof -
  have len: "length (s a) = length (s b)" "length (s d) = length (s a)"
    using assms by (metis mult_left_cancel len_gt_0 less_numeral_extra(3))+
  have "FD_ZERO gnu (s a) = Some (replicate (length (s a)) 0)"
    using rep_stos_zero [of "length (s a)" "s a"] each_index_zero [of "length (s a)" "\<lambda>_. s a" 0] fd_words [OF assms(2)]
    by (simp add: FD_ZERO_def)
  then have "\<exists>r. FD_ZERO gnu (s a) = Some r \<and> length r = length (s a) \<and> members r = {}"
    by (simp add: members_const)
  then show ?thesis
    using whole_sets [OF assms] members_map2(1,2) [OF len(1)] members_map2(4) [OF len(2)] anyset_below [OF assms(2)]
    by blast
qed

theorem fd_sets_algebra_witness:
  "(\<exists>r. XFD_ORSET 0 0 1 (\<lambda>p. replicate 16 (word_of_nat p :: u64)) = Some ((\<lambda>p. replicate 16 (word_of_nat p))(0 := r))
      \<and> members r = members (replicate 16 (0 :: u64)) \<union> members (replicate 16 (1 :: u64)))"
  using fd_sets_algebra [of "\<lambda>p. replicate 16 (word_of_nat p :: u64)" 0 0 1] by (simp add: FD_SETSIZE_def)

text \<open>
  On 64 bits the sixteen words of \<open>XFD_ANYSET\<close> are all of the set. On 32 bits the array has 32 words, and
  a set that has only descriptors from 512 on counts as empty.
\<close>

theorem anyset_misses_high:
  "(fd_shape p \<longrightarrow> XFD_ANYSET (p :: u64 list) = Some (members p \<noteq> {}))
    \<and> (\<exists>q :: u32 list. fd_shape q \<and> FD_SET Plain 512 (replicate 32 0) = Inr q \<and> members q = {512} \<and> XFD_ANYSET q = Some False)"
proof (rule conjI)
  have "n < 1024" if "n \<in> members p" "fd_shape p" for n
    using members_less [of p] that by (auto simp: FD_SETSIZE_def)
  then show "fd_shape p \<longrightarrow> XFD_ANYSET p = Some (members p \<noteq> {})" using anyset_below [of p] by auto
next
  let ?z = "replicate 32 (0 :: u32)"
  have z: "fd_shape ?z" by (simp add: FD_SETSIZE_def)
  obtain q :: "u32 list" where "FD_SET Plain (int 512) ?z = Inr q" "fd_shape q" "members q = insert 512 (members ?z)"
    using fd_ops_inside(1) [of Plain ?z 512] z by (auto simp: FD_SETSIZE_def)
  then show "\<exists>q :: u32 list. fd_shape q \<and> FD_SET Plain 512 (replicate 32 0) = Inr q \<and> members q = {512} \<and> XFD_ANYSET q = Some False"
    using anyset_below [of q] by (auto simp: members_const)
qed

end
