(* ===== verification/Cpu_Sets.thy ===== *)
theory Cpu_Sets
  imports Bit_Arrays
begin

unbundle bit_operations_syntax

text \<open>
  Sets of processors: \<open>include/bits/cpu-set.h\<close> and the names that \<open>include/sched.h\<close> gives to its macros. A set is an
  array of \<open>__cpu_mask\<close>, which has 64 bits; its size in bytes is an argument of the macros whose names end in
  \<open>_S\<close>. An access outside of the array is \<open>None\<close>. Counting, allocating and freeing are functions of the library.
\<close>

section \<open>The macros\<close>

definition CPUELT :: "nat \<Rightarrow> nat" where
  "CPUELT cpu = cpu div 64"

definition CPUMASK :: "nat \<Rightarrow> u64" where
  "CPUMASK cpu = push_bit (cpu mod 64) 1"

text \<open>\<open>size_t __cpu = (cpu)\<close>.\<close>

definition to_size :: "int \<Rightarrow> nat" where
  "to_size cpu = unat (word_of_int cpu :: u64)"

text \<open>The value of the expression comes with the set: the new word, or 0 for a processor that is not covered.\<close>

definition CPU_SET_S :: "int \<Rightarrow> nat \<Rightarrow> u64 list \<Rightarrow> (u64 \<times> u64 list) option" where
  "CPU_SET_S cpu setsize bits =
     (let cpu = to_size cpu
      in if cpu div 8 < setsize
         then (if CPUELT cpu < length bits
               then Some (let w = bits ! CPUELT cpu OR CPUMASK cpu in (w, bits[CPUELT cpu := w])) else None)
         else Some (0, bits))"

definition CPU_CLR_S :: "int \<Rightarrow> nat \<Rightarrow> u64 list \<Rightarrow> (u64 \<times> u64 list) option" where
  "CPU_CLR_S cpu setsize bits =
     (let cpu = to_size cpu
      in if cpu div 8 < setsize
         then (if CPUELT cpu < length bits
               then Some (let w = bits ! CPUELT cpu AND NOT (CPUMASK cpu) in (w, bits[CPUELT cpu := w])) else None)
         else Some (0, bits))"

definition CPU_ISSET_S :: "int \<Rightarrow> nat \<Rightarrow> u64 list \<Rightarrow> bool option" where
  "CPU_ISSET_S cpu setsize bits =
     (let cpu = to_size cpu
      in if cpu div 8 < setsize
         then (if CPUELT cpu < length bits then Some (bits ! CPUELT cpu AND CPUMASK cpu \<noteq> 0) else None)
         else Some False)"

text \<open>
  Clearing and comparing are \<open>memset\<close> and \<open>memcmp\<close> on \<open>setsize\<close> bytes for GCC, which may end within a word, of
  which the low bytes come first; for other compilers they are loops over whole words.
\<close>

fun memset_zero :: "nat \<Rightarrow> u64 list \<Rightarrow> u64 list option" where
  "memset_zero 0 ws = Some ws"
| "memset_zero (Suc k) [] = None"
| "memset_zero (Suc k) (w # ws) =
     (if Suc k < 8 then Some (push_bit (8 * Suc k) (drop_bit (8 * Suc k) w) # ws)
      else map_option ((#) 0) (memset_zero (Suc k - 8) ws))"

fun memcmp_equal :: "nat \<Rightarrow> u64 list \<Rightarrow> u64 list \<Rightarrow> bool option" where
  "memcmp_equal 0 as bs = Some True"
| "memcmp_equal (Suc k) (a # as) (b # bs) =
     (if Suc k < 8 then Some (take_bit (8 * Suc k) a = take_bit (8 * Suc k) b)
      else do { r \<leftarrow> memcmp_equal (Suc k - 8) as bs; Some (a = b \<and> r) })"
| "memcmp_equal (Suc k) as bs = None"

definition CPU_ZERO_S :: "bool \<Rightarrow> nat \<Rightarrow> u64 list \<Rightarrow> u64 list option" where
  "CPU_ZERO_S gnu setsize bits =
     (if gnu then memset_zero setsize bits
      else map_option (\<lambda>s. s 0) (each_index (\<lambda>i. store_word 0 i 0) [0..<setsize div 8] (\<lambda>_. bits)))"

text \<open>The index at which the loop stops: that of the first difference, or the end.\<close>

fun equal_loop :: "nat list \<Rightarrow> nat \<Rightarrow> u64 list \<Rightarrow> u64 list \<Rightarrow> nat option" where
  "equal_loop [] imax arr1 arr2 = Some imax"
| "equal_loop (i # is) imax arr1 arr2 =
     (if i < length arr1 \<and> i < length arr2
      then (if arr1 ! i \<noteq> arr2 ! i then Some i else equal_loop is imax arr1 arr2) else None)"

definition CPU_EQUAL_S :: "bool \<Rightarrow> nat \<Rightarrow> u64 list \<Rightarrow> u64 list \<Rightarrow> bool option" where
  "CPU_EQUAL_S gnu setsize arr1 arr2 =
     (if gnu then memcmp_equal setsize arr1 arr2
      else (let imax = setsize div 8 in map_option (\<lambda>i. i = imax) (equal_loop [0..<imax] imax arr1 arr2)))"

definition CPU_OP_S :: "nat \<Rightarrow> nat \<Rightarrow> nat \<Rightarrow> nat \<Rightarrow> (u64 \<Rightarrow> u64 \<Rightarrow> u64) \<Rightarrow> (nat \<Rightarrow> u64 list) \<Rightarrow> (nat \<Rightarrow> u64 list) option" where
  "CPU_OP_S setsize destset srcset1 srcset2 f =
     each_index (\<lambda>i s. do { x \<leftarrow> fetch_word srcset1 i s; y \<leftarrow> fetch_word srcset2 i s; store_word destset i (f x y) s })
       [0..<setsize div 8]"

definition CPU_ALLOC_SIZE :: "u64 \<Rightarrow> u64" where
  "CPU_ALLOC_SIZE count = ((count + 64 - 1) div 64) * 8"

text \<open>The macros of \<open>sched.h\<close> for sets of the default size, 1024 processors in 128 bytes.\<close>

definition CPU_SET :: "int \<Rightarrow> u64 list \<Rightarrow> (u64 \<times> u64 list) option" where
  "CPU_SET cpu = CPU_SET_S cpu 128"

definition CPU_CLR :: "int \<Rightarrow> u64 list \<Rightarrow> (u64 \<times> u64 list) option" where
  "CPU_CLR cpu = CPU_CLR_S cpu 128"

definition CPU_ISSET :: "int \<Rightarrow> u64 list \<Rightarrow> bool option" where
  "CPU_ISSET cpu = CPU_ISSET_S cpu 128"

definition CPU_ZERO :: "bool \<Rightarrow> u64 list \<Rightarrow> u64 list option" where
  "CPU_ZERO gnu = CPU_ZERO_S gnu 128"

definition CPU_EQUAL :: "bool \<Rightarrow> u64 list \<Rightarrow> u64 list \<Rightarrow> bool option" where
  "CPU_EQUAL gnu = CPU_EQUAL_S gnu 128"

definition CPU_AND :: "nat \<Rightarrow> nat \<Rightarrow> nat \<Rightarrow> (nat \<Rightarrow> u64 list) \<Rightarrow> (nat \<Rightarrow> u64 list) option" where
  "CPU_AND destset srcset1 srcset2 = CPU_OP_S 128 destset srcset1 srcset2 (AND)"

definition CPU_OR :: "nat \<Rightarrow> nat \<Rightarrow> nat \<Rightarrow> (nat \<Rightarrow> u64 list) \<Rightarrow> (nat \<Rightarrow> u64 list) option" where
  "CPU_OR destset srcset1 srcset2 = CPU_OP_S 128 destset srcset1 srcset2 (OR)"

definition CPU_XOR :: "nat \<Rightarrow> nat \<Rightarrow> nat \<Rightarrow> (nat \<Rightarrow> u64 list) \<Rightarrow> (nat \<Rightarrow> u64 list) option" where
  "CPU_XOR destset srcset1 srcset2 = CPU_OP_S 128 destset srcset1 srcset2 (XOR)"

section \<open>What they do\<close>

text \<open>The processors in the first \<open>setsize\<close> bytes of a set.\<close>

definition cpus :: "nat \<Rightarrow> u64 list \<Rightarrow> nat set" where
  "cpus setsize bits = members (take (setsize div 8) bits)"

text \<open>A size that is made of whole words and is in the array.\<close>

definition covered :: "nat \<Rightarrow> u64 list \<Rightarrow> bool" where
  "covered setsize bits \<longleftrightarrow> 8 dvd setsize \<and> setsize div 8 \<le> length bits"

lemma cpu_place: "8 dvd setsize \<Longrightarrow> cpu div 8 < setsize \<longleftrightarrow> CPUELT cpu < setsize div 8"
  by (auto simp: CPUELT_def elim!: dvdE)

lemma take_update_other: "k \<le> i \<Longrightarrow> take k (xs[i := v]) = take k xs" "i < k \<Longrightarrow> drop k (xs[i := v]) = drop k xs"
  by (simp_all add: take_update_cancel drop_update_cancel)

lemma cpu_set_one:
  assumes "covered setsize bits"
  shows "\<exists>v r. CPU_SET_S cpu setsize bits = Some (v, r) \<and> length r = length bits
      \<and> cpus setsize r = (if to_size cpu < 8 * setsize then insert (to_size cpu) (cpus setsize bits) else cpus setsize bits)
      \<and> drop (setsize div 8) r = drop (setsize div 8) bits" (is ?set)
    and "\<exists>v r. CPU_CLR_S cpu setsize bits = Some (v, r) \<and> length r = length bits
      \<and> cpus setsize r = (if to_size cpu < 8 * setsize then cpus setsize bits - {to_size cpu} else cpus setsize bits)
      \<and> drop (setsize div 8) r = drop (setsize div 8) bits" (is ?clr)
    and "CPU_ISSET_S cpu setsize bits = Some (to_size cpu \<in> cpus setsize bits)" (is ?isset)
proof -
  let ?c = "to_size cpu" and ?k = "setsize div 8"
  let ?ws = "take ?k bits"
  have d: "8 dvd setsize" "?k \<le> length bits" using assms by (simp_all add: covered_def)
  have in_iff: "?c div 8 < setsize \<longleftrightarrow> ?c < 8 * setsize" by (simp add: div_less_iff_less_mult mult.commute)
  have "?set \<and> ?clr \<and> ?isset"
  proof (cases "?c < 8 * setsize")
    case True
    then have e: "CPUELT ?c < ?k" using cpu_place [OF d(1)] in_iff by simp
    then have w: "?c div LENGTH(64) < length ?ws" using d(2) by (simp add: CPUELT_def)
    have nth: "?ws ! CPUELT ?c = bits ! CPUELT ?c" using e by simp
    show ?thesis
      using True e d(2) in_iff members_set [OF w] members_clear [OF w] members_test [OF w] nth
      by (simp add: CPU_SET_S_def CPU_CLR_S_def CPU_ISSET_S_def Let_def cpus_def CPUELT_def CPUMASK_def take_update_swap
          drop_update_cancel)
  next
    case False
    moreover have "?c \<notin> cpus setsize bits"
      using members_less [of ?ws] d False by (auto simp: cpus_def elim!: dvdE)
    ultimately show ?thesis
      using in_iff by (simp add: CPU_SET_S_def CPU_CLR_S_def CPU_ISSET_S_def Let_def)
  qed
  then show ?set ?clr ?isset by simp_all
qed

lemma memset_zero_words: "k \<le> length ws \<Longrightarrow> memset_zero (8 * k) ws = Some (replicate k 0 @ drop k ws)"
proof (induction k arbitrary: ws)
  case (Suc k)
  then obtain w us where ws: "ws = w # us" "k \<le> length us" by (cases ws) auto
  have "memset_zero (8 * Suc k) (w # us) = map_option ((#) 0) (memset_zero (8 * k) us)"
    using memset_zero.simps(3) [of "8 * k + 7" w us] by simp
  then show ?case using Suc.IH [OF ws(2)] ws(1) by simp
qed simp

lemma memcmp_words:
  "k \<le> length as \<Longrightarrow> k \<le> length bs \<Longrightarrow> memcmp_equal (8 * k) as bs = Some (take k as = take k bs)"
proof (induction k arbitrary: as bs)
  case (Suc k)
  then obtain a us b vs where ws: "as = a # us" "bs = b # vs" "k \<le> length us" "k \<le> length vs"
    by (cases as; cases bs) auto
  have "memcmp_equal (8 * Suc k) (a # us) (b # vs) = do { r \<leftarrow> memcmp_equal (8 * k) us vs; Some (a = b \<and> r) }"
    using memcmp_equal.simps(2) [of "8 * k + 7" a us b vs] by simp
  then show ?case using Suc.IH [OF ws(3,4)] ws(1,2) by simp
qed simp

lemma equal_loop_words:
  "\<forall>i \<in> set is. i < length as \<and> i < length bs \<and> i < k \<Longrightarrow>
    map_option (\<lambda>i. i = k) (equal_loop is k as bs) = Some (\<forall>i \<in> set is. as ! i = bs ! i)"
  by (induction "is") auto

lemma cpu_whole:
  assumes "covered setsize as" "covered setsize bs"
  shows "CPU_ZERO_S gnu setsize as = Some (replicate (setsize div 8) 0 @ drop (setsize div 8) as)"
    and "CPU_EQUAL_S gnu setsize as bs = Some (cpus setsize as = cpus setsize bs)"
proof -
  let ?k = "setsize div 8"
  have d: "8 * ?k = setsize" "?k \<le> length as" "?k \<le> length bs" using assms by (simp_all add: covered_def)
  show "CPU_ZERO_S gnu setsize as = Some (replicate ?k 0 @ drop ?k as)"
    using memset_zero_words [OF d(2)] each_index_zero [of ?k "\<lambda>_. as" 0] d by (simp add: CPU_ZERO_S_def)
  have "CPU_EQUAL_S gnu setsize as bs = Some (take ?k as = take ?k bs)"
    using memcmp_words [OF d(2,3)] equal_loop_words [of "[0..<?k]" as bs ?k] d
    by (auto simp: CPU_EQUAL_S_def Let_def list_eq_iff_nth_eq)
  then show "CPU_EQUAL_S gnu setsize as bs = Some (cpus setsize as = cpus setsize bs)"
    using members_inject [of "take ?k as" "take ?k bs"] d by (simp add: cpus_def)
qed

lemma cpu_ops:
  assumes "covered setsize (s d)" "covered setsize (s a)" "covered setsize (s b)"
  shows "\<exists>r. CPU_OP_S setsize d a b f s = Some (s(d := r)) \<and> drop (setsize div 8) r = drop (setsize div 8) (s d)
    \<and> cpus setsize r = members (map2 f (take (setsize div 8) (s a)) (take (setsize div 8) (s b)))"
  using each_index_map2 [of "setsize div 8" s a b d f] assms
  by (auto simp: CPU_OP_S_def covered_def cpus_def min_def)

lemma to_size_small: "to_size (int n) = n" if "n < 2 ^ 64"
  using that by (simp add: to_size_def unat_of_nat)

lemma to_size_negative: "- (2 ^ 63) \<le> cpu \<Longrightarrow> cpu < 0 \<Longrightarrow> 2 ^ 63 \<le> to_size cpu"
proof -
  assume "- (2 ^ 63) \<le> cpu" "cpu < 0"
  then have "(cpu + 2 ^ 64) mod 2 ^ 64 = cpu + 2 ^ 64" by (intro mod_pos_pos_trivial) simp_all
  then have "cpu mod 2 ^ 64 = cpu + 2 ^ 64" by simp
  then show ?thesis using \<open>- (2 ^ 63) \<le> cpu\<close> by (simp add: to_size_def unat_eq_nat_uint uint_word_of_int)
qed

lemma cpus_default: "length bits = 16 \<Longrightarrow> covered 128 bits \<and> cpus 128 bits = members bits"
  by (simp add: covered_def cpus_def)

interpretation default_cpus: bit_set "\<lambda>bits. length bits = 16" 1024 "\<lambda>n bits. map_option snd (CPU_SET (int n) bits)"
  "\<lambda>n bits. map_option snd (CPU_CLR (int n) bits)" "\<lambda>n bits. CPU_ISSET (int n) bits" members
proof
  fix bits :: "u64 list" and n :: nat
  assume len: "length bits = 16" and n: "n < 1024"
  note c = cpus_default [OF len] and n' = to_size_small [of n]
  show "\<exists>r. map_option snd (CPU_SET (int n) bits) = Some r \<and> length r = 16 \<and> members r = insert n (members bits)"
    using cpu_set_one(1) [of 128 bits "int n"] c n n' len cpus_default by (auto simp: CPU_SET_def)
  show "\<exists>r. map_option snd (CPU_CLR (int n) bits) = Some r \<and> length r = 16 \<and> members r = members bits - {n}"
    using cpu_set_one(2) [of 128 bits "int n"] c n n' len cpus_default by (auto simp: CPU_CLR_def)
  show "CPU_ISSET (int n) bits = Some (n \<in> members bits)"
    using cpu_set_one(3) [of 128 bits "int n"] c n n' by (simp add: CPU_ISSET_def)
qed

section \<open>The theorems\<close>

text \<open>
  (C34) For a set of whole words, inserting, deleting and asking concern exactly the processor that is named when it
  is covered by the size; any other number, in particular every negative one, changes nothing and is not
  in the set. What is behind the size in the array is not touched.
\<close>

theorem cpu_access_exact:
  assumes "covered setsize bits"
  shows "(\<exists>v r. CPU_SET_S cpu setsize bits = Some (v, r) \<and> length r = length bits
      \<and> cpus setsize r = (if to_size cpu < 8 * setsize then insert (to_size cpu) (cpus setsize bits) else cpus setsize bits)
      \<and> drop (setsize div 8) r = drop (setsize div 8) bits)
    \<and> (\<exists>v r. CPU_CLR_S cpu setsize bits = Some (v, r) \<and> length r = length bits
      \<and> cpus setsize r = (if to_size cpu < 8 * setsize then cpus setsize bits - {to_size cpu} else cpus setsize bits)
      \<and> drop (setsize div 8) r = drop (setsize div 8) bits)
    \<and> CPU_ISSET_S cpu setsize bits = Some (to_size cpu \<in> cpus setsize bits)
    \<and> (- (2 ^ 63) \<le> cpu \<and> cpu < 0 \<and> setsize < 2 ^ 60 \<longrightarrow> CPU_ISSET_S cpu setsize bits = Some False
        \<and> CPU_SET_S cpu setsize bits = Some (0, bits) \<and> CPU_CLR_S cpu setsize bits = Some (0, bits))"
proof -
  have "CPU_ISSET_S cpu setsize bits = Some False \<and> CPU_SET_S cpu setsize bits = Some (0, bits)
    \<and> CPU_CLR_S cpu setsize bits = Some (0, bits)" if "- (2 ^ 63) \<le> cpu" "cpu < 0" "setsize < 2 ^ 60"
  proof -
    have "\<not> to_size cpu div 8 < setsize" using to_size_negative [OF that(1,2)] that(3) by simp
    then show ?thesis by (simp add: CPU_SET_S_def CPU_CLR_S_def CPU_ISSET_S_def Let_def)
  qed
  then show ?thesis using cpu_set_one [OF assms, of cpu] by blast
qed

theorem cpu_access_exact_witness:
  "CPU_SET_S (- 1) 16 [5, 0, 7] = Some (0, [5, 0, 7])"
  using cpu_access_exact [of 16 "[5, 0, 7]" "- 1"] by (simp add: covered_def)

text \<open>
  (C26) On whole sets the macros are the operations on sets of processors: the bytewise and the wordwise variants
  of clearing and comparing agree, and intersection, union and symmetric difference are right also when the
  destination is an operand; no other set, and nothing behind the size, is changed.
\<close>

theorem cpu_sets_algebra:
  assumes "covered setsize (s d)" "covered setsize (s a)" "covered setsize (s b)"
  shows "(\<exists>r. CPU_OP_S setsize d a b (AND) s = Some (s(d := r)) \<and> cpus setsize r = cpus setsize (s a) \<inter> cpus setsize (s b)
      \<and> drop (setsize div 8) r = drop (setsize div 8) (s d))
    \<and> (\<exists>r. CPU_OP_S setsize d a b (OR) s = Some (s(d := r)) \<and> cpus setsize r = cpus setsize (s a) \<union> cpus setsize (s b)
      \<and> drop (setsize div 8) r = drop (setsize div 8) (s d))
    \<and> (\<exists>r. CPU_OP_S setsize d a b (XOR) s = Some (s(d := r))
      \<and> cpus setsize r = (cpus setsize (s a) - cpus setsize (s b)) \<union> (cpus setsize (s b) - cpus setsize (s a))
      \<and> drop (setsize div 8) r = drop (setsize div 8) (s d))
    \<and> CPU_EQUAL_S gnu setsize (s a) (s b) = Some (cpus setsize (s a) = cpus setsize (s b))
    \<and> (\<exists>r. CPU_ZERO_S gnu setsize (s a) = Some r \<and> cpus setsize r = {} \<and> drop (setsize div 8) r = drop (setsize div 8) (s a))"
proof -
  have len: "length (take (setsize div 8) (s a)) = length (take (setsize div 8) (s b))"
    using assms by (simp add: covered_def)
  note ops = cpu_ops [OF assms, unfolded cpus_def] and m = members_map2(1,2,3) [OF len]
  have "\<exists>r. CPU_ZERO_S gnu setsize (s a) = Some r \<and> cpus setsize r = {} \<and> drop (setsize div 8) r = drop (setsize div 8) (s a)"
    using cpu_whole(1) [OF assms(2,2)] by (simp add: cpus_def members_const)
  then show ?thesis
    using ops [of "(AND)"] ops [of "(OR)"] ops [of "(XOR)"] m cpu_whole(2) [OF assms(2,3)] unfolding cpus_def by metis
qed

theorem cpu_sets_algebra_witness:
  "CPU_EQUAL_S True 16 [3, 0, 7] [3, 0, 8] = Some (cpus 16 [3, 0, 7] = cpus 16 [3, 0, 8])"
  using cpu_sets_algebra [of 16 "\<lambda>p. if p = 0 then [3, 0, 7] else [3, 0, 8]" 0 0 1 True] by (simp add: covered_def)

text \<open>
  The size for a number of processors is made of whole words, is less than a word more than what they need,
  and covers each of them, unless the number is so large that the sum wraps around.
\<close>

theorem cpu_alloc_size_covers:
  assumes "unat count \<le> 2 ^ 64 - 64"
  shows "8 dvd unat (CPU_ALLOC_SIZE count) \<and> unat count \<le> 8 * unat (CPU_ALLOC_SIZE count)
    \<and> 8 * unat (CPU_ALLOC_SIZE count) < unat count + 64
    \<and> (\<forall>cpu < unat count. cpu div 8 < unat (CPU_ALLOC_SIZE count))"
proof -
  have c: "unat (count + 63) = unat count + 63" using assms unat_add_lem [of count 63] by simp
  have q: "unat ((count + 63) div 64) = (unat count + 63) div 64" by (simp add: unat_div c)
  have "unat ((count + 63) div 64) * unat (8 :: u64) < 2 ^ LENGTH(64)" unfolding q using assms by simp
  then have "unat ((count + 63) div 64 * 8) = unat ((count + 63) div 64) * unat (8 :: u64)" by (simp only: unat_mult_lem)
  then have "unat ((count + 63) div 64 * 8) = (unat count + 63) div 64 * 8" unfolding q by simp
  moreover have "CPU_ALLOC_SIZE count = (count + 63) div 64 * 8" by (simp add: CPU_ALLOC_SIZE_def add.commute)
  ultimately have e: "unat (CPU_ALLOC_SIZE count) = (unat count + 63) div 64 * 8" by (simp only:)
  show ?thesis unfolding e by (intro conjI allI impI dvd_triv_right) linarith+
qed

theorem cpu_alloc_size_covers_witness: "8 dvd unat (CPU_ALLOC_SIZE 65) \<and> 65 \<le> 8 * unat (CPU_ALLOC_SIZE 65)"
  using cpu_alloc_size_covers [of 65] by simp

end
