(* ===== verification/Search.thy ===== *)
theory Search
  imports Prelude
begin

text \<open>
  Binary search: the inline \<open>bsearch\<close> of \<open>include/bits/stdlib-bsearch.h\<close>. Indices and addresses are \<open>size_t\<close> and wrap around; the
  comparison is a function of the address of an element, the key being fixed. The loop is a
  \<open>partial_function (option)\<close>; that it ends is part of the theorem.
\<close>

partial_function (option) bsearch_loop :: "(u64 \<Rightarrow> int) \<Rightarrow> u64 \<Rightarrow> u64 \<Rightarrow> u64 \<Rightarrow> u64 \<Rightarrow> u64 option option" where
  "bsearch_loop compar base sz l u =
     (if l < u then
        (let idx = (l + u) div 2;
             p = base + idx * sz;
             comparison = compar p
         in if comparison < 0 then bsearch_loop compar base sz l idx
            else if comparison > 0 then bsearch_loop compar base sz (idx + 1) u
            else Some (Some p))
      else Some None)"

definition bsearch :: "u64 \<Rightarrow> u64 \<Rightarrow> u64 \<Rightarrow> (u64 \<Rightarrow> int) \<Rightarrow> u64 option option" where
  "bsearch base nmemb sz compar = bsearch_loop compar base sz 0 nmemb"

declare bsearch_loop.simps [code]

text \<open>The address of an element.\<close>

definition elem_at :: "u64 \<Rightarrow> u64 \<Rightarrow> nat \<Rightarrow> u64" where
  "elem_at base sz i = base + word_of_nat i * sz"

text \<open>The key comes before the elements that it is less than: the sign of the comparison does not rise along the array.\<close>

definition ordered_for :: "(nat \<Rightarrow> int) \<Rightarrow> nat \<Rightarrow> bool" where
  "ordered_for c n \<longleftrightarrow> (\<forall>i j. i < j \<and> j < n \<longrightarrow> sgn (c j) \<le> sgn (c i))"

lemma middle:
  fixes l u :: u64
  assumes "l < u" "unat u \<le> 2 ^ 63"
  shows "unat ((l + u) div 2) = (unat l + unat u) div 2" "unat l \<le> unat ((l + u) div 2)" "unat ((l + u) div 2) < unat u"
    "unat ((l + u) div 2 + 1) = unat ((l + u) div 2) + 1"
proof -
  have lu: "unat l < unat u" using assms(1) by (simp add: word_less_nat_alt)
  then have "unat (l + u) = unat l + unat u" using assms(2) by (intro unat_add_lem [THEN iffD1]) simp
  then show m: "unat ((l + u) div 2) = (unat l + unat u) div 2" by (simp add: unat_div)
  show "unat l \<le> unat ((l + u) div 2)" "unat ((l + u) div 2) < unat u" unfolding m using lu by simp_all
  then show "unat ((l + u) div 2 + 1) = unat ((l + u) div 2) + 1"
    using assms(2) unat_add_lem [of "(l + u) div 2" 1] by simp
qed

text \<open>A comparison rules out one side of the middle.\<close>

lemma narrows:
  assumes "ordered_for c n" "m < n" "i < n" "c i = 0"
  shows "c m < 0 \<Longrightarrow> i < m" "c m > 0 \<Longrightarrow> m < i"
proof -
  have ord: "\<And>i j. i < j \<Longrightarrow> j < n \<Longrightarrow> sgn (c j) \<le> sgn (c i)" using assms(1) by (simp add: ordered_for_def)
  show "i < m" if "c m < 0" using ord [of m i] assms(3,4) that by (cases i m rule: linorder_cases) auto
  show "m < i" if "c m > 0" using ord [of i m] assms(2,4) that by (cases i m rule: linorder_cases) auto
qed

text \<open>The loop keeps the indices at which the comparison can be 0 between \<open>l\<close> and \<open>u\<close>.\<close>

lemma bsearch_loop_exact:
  fixes l u :: u64
  assumes "unat u \<le> 2 ^ 63" "unat u \<le> n" "ordered_for (\<lambda>i. compar (elem_at base sz i)) n"
    "\<And>i. i < n \<Longrightarrow> compar (elem_at base sz i) = 0 \<Longrightarrow> unat l \<le> i \<and> i < unat u"
  shows "(\<exists>i < n. compar (elem_at base sz i) = 0 \<and> bsearch_loop compar base sz l u = Some (Some (elem_at base sz i)))
    \<or> (\<forall>i < n. compar (elem_at base sz i) \<noteq> 0) \<and> bsearch_loop compar base sz l u = Some None"
    (is "?found l u")
  using assms
proof (induction "unat u - unat l" arbitrary: l u rule: less_induct)
  case less
  let ?c = "\<lambda>i. compar (elem_at base sz i)"
  show ?case
  proof (cases "l < u")
    case True
    let ?m = "(l + u) div 2"
    note m = middle [OF True less.prems(1)]
    have in_n: "unat ?m < n" using m(3) less.prems(2) by simp
    have p: "base + ?m * sz = elem_at base sz (unat ?m)" by (simp add: elem_at_def)
    consider "?c (unat ?m) < 0" | "?c (unat ?m) > 0" | "?c (unat ?m) = 0" by linarith
    then show ?thesis
    proof cases
      case 1
      have b: "unat l \<le> i \<and> i < unat ?m" if "i < n" "?c i = 0" for i
        using less.prems(4) [OF that] narrows(1) [OF less.prems(3) in_n that 1] by simp
      have "bsearch_loop compar base sz l u = bsearch_loop compar base sz l ?m"
        using True 1 by (subst bsearch_loop.simps) (simp add: Let_def p)
      moreover have "unat ?m - unat l < unat u - unat l" "unat ?m \<le> 2 ^ 63" "unat ?m \<le> n"
        using m(2,3) less.prems(1,2) by linarith+
      then have "?found l ?m" using b by (rule less.hyps [OF _ _ _ less.prems(3)])
      ultimately show ?thesis by (simp only:)
    next
      case 2
      have b: "unat (?m + 1) \<le> i \<and> i < unat u" if "i < n" "?c i = 0" for i
        using less.prems(4) [OF that] narrows(2) [OF less.prems(3) in_n that 2] m(4) by simp
      have "bsearch_loop compar base sz l u = bsearch_loop compar base sz (?m + 1) u"
        using True 2 by (subst bsearch_loop.simps) (simp add: Let_def p)
      moreover have "unat u - unat (?m + 1) < unat u - unat l" using m(2,3,4) by linarith
      then have "?found (?m + 1) u" using b by (rule less.hyps [OF _ less.prems(1,2,3)])
      ultimately show ?thesis by (simp only:)
    next
      case 3
      then have "bsearch_loop compar base sz l u = Some (Some (elem_at base sz (unat ?m)))"
        using True by (subst bsearch_loop.simps) (simp add: Let_def p)
      then show ?thesis using 3 in_n by blast
    qed
  next
    case False
    then have "unat u \<le> unat l" by (simp add: word_less_nat_alt)
    then have "\<forall>i < n. ?c i \<noteq> 0" using less.prems(4) by fastforce
    then show ?thesis using False by (subst bsearch_loop.simps) simp
  qed
qed

text \<open>
  (C14) A search in an array of at most \<open>2\<^sup>6\<^sup>3\<close> elements, more than memory has, whose elements are ordered for the key,
  returns: an element that compares equal if there is one, whichever it is, and a null pointer if and only if there is none.
\<close>

theorem bsearch_exact:
  assumes "unat nmemb \<le> 2 ^ 63" "ordered_for (\<lambda>i. compar (elem_at base sz i)) (unat nmemb)"
  shows "\<exists>r. bsearch base nmemb sz compar = Some r
    \<and> (case r of
         Some p \<Rightarrow> \<exists>i < unat nmemb. p = elem_at base sz i \<and> compar p = 0
       | None \<Rightarrow> \<forall>i < unat nmemb. compar (elem_at base sz i) \<noteq> 0)"
  using bsearch_loop_exact [OF assms(1) order_refl assms(2), of 0] by (auto simp: bsearch_def)

theorem bsearch_exact_witness:
  "\<exists>r. bsearch 1000 3 8 (\<lambda>p. 1008 - uint p) = Some (Some r) \<and> 1008 - uint r = 0"
proof -
  have unat_numeral_3: "unat (3 :: u64) = 3" by simp
  have "ordered_for (\<lambda>i. 1008 - uint (elem_at 1000 8 i)) 3"
    by (auto simp: ordered_for_def elem_at_def numeral_3_eq_3 less_Suc_eq)
  then have "\<exists>r. bsearch 1000 3 8 (\<lambda>p. 1008 - uint p) = Some r
    \<and> (case r of Some p \<Rightarrow> \<exists>i < 3. p = elem_at 1000 8 i \<and> 1008 - uint p = 0
       | None \<Rightarrow> \<forall>i < 3. 1008 - uint (elem_at 1000 8 i) \<noteq> 0)"
    using bsearch_exact [of 3 "\<lambda>p. 1008 - uint p" 1000 8] unfolding unat_numeral_3 by simp
  moreover have "1008 - uint (elem_at 1000 8 1) = 0" by (simp add: elem_at_def)
  ultimately show ?thesis by (force split: option.splits)
qed

end
