(* ===== verification/Wait_Status.thy ===== *)
theory Wait_Status
  imports Prelude
begin

unbundle bit_operations_syntax

text \<open>
  The status of a child process: the macros of \<open>include/bits/waitstatus.h\<close>, which \<open>include/sys/wait.h\<close> gives their public names. A
  status is an \<open>int\<close>; shifts of signed numbers are arithmetic, as on every compiler for Linux.
\<close>

definition WEXITSTATUS :: "int \<Rightarrow> int" where
  "WEXITSTATUS status = drop_bit 8 (status AND 0xff00)"

definition WTERMSIG :: "int \<Rightarrow> int" where
  "WTERMSIG status = status AND 0x7f"

definition WSTOPSIG :: "int \<Rightarrow> int" where
  "WSTOPSIG status = WEXITSTATUS status"

definition WIFEXITED :: "int \<Rightarrow> bool" where
  "WIFEXITED status \<longleftrightarrow> WTERMSIG status = 0"

text \<open>The sum is cut down to \<open>signed char\<close> before it is shifted, so that 128 becomes negative.\<close>

definition WIFSIGNALED :: "int \<Rightarrow> bool" where
  "WIFSIGNALED status \<longleftrightarrow> drop_bit 1 (signed_take_bit 7 ((status AND 0x7f) + 1)) > 0"

definition WIFSTOPPED :: "int \<Rightarrow> bool" where
  "WIFSTOPPED status \<longleftrightarrow> status AND 0xff = 0x7f"

definition W_CONTINUED :: int where
  "W_CONTINUED = 0xffff"

definition WIFCONTINUED :: "int \<Rightarrow> bool" where
  "WIFCONTINUED status \<longleftrightarrow> status = W_CONTINUED"

definition WCOREFLAG :: int where
  "WCOREFLAG = 0x80"

definition WCOREDUMP :: "int \<Rightarrow> bool" where
  "WCOREDUMP status \<longleftrightarrow> status AND WCOREFLAG \<noteq> 0"

definition W_EXITCODE :: "int \<Rightarrow> int \<Rightarrow> int" where
  "W_EXITCODE ret sig = push_bit 8 ret OR sig"

definition W_STOPCODE :: "int \<Rightarrow> int" where
  "W_STOPCODE sig = push_bit 8 sig OR 0x7f"

section \<open>The tests\<close>

lemma low_bits: "status AND 0x7f = status mod 128" "status AND 0xff = status mod 256" for status :: int
  using take_bit_eq_mask [of 7 status] take_bit_eq_mask [of 8 status]
  by (simp_all add: take_bit_eq_mod mask_eq_exp_minus_1)

text \<open>The trick with the signed character: neither 0 nor 127.\<close>

lemma WIFSIGNALED_iff: "WIFSIGNALED status \<longleftrightarrow> status mod 128 \<noteq> 0 \<and> status mod 128 \<noteq> 127"
proof -
  let ?m = "status mod 128"
  have m: "0 \<le> ?m" "?m < 128" by simp_all
  show ?thesis
  proof (cases "?m = 127")
    case True
    then show ?thesis unfolding WIFSIGNALED_def low_bits True by simp
  next
    case False
    then have "signed_take_bit 7 (?m + 1) = ?m + 1" using m by (intro signed_take_bit_int_eq_self) simp_all
    then show ?thesis using m False unfolding WIFSIGNALED_def low_bits by (auto simp: drop_bit_eq_div)
  qed
qed

lemma WEXITSTATUS_eq: "WEXITSTATUS status = status div 256 mod 256"
proof -
  have "WEXITSTATUS status = drop_bit 8 status AND 0xff" by (simp add: WEXITSTATUS_def drop_bit_and)
  then show ?thesis by (simp add: low_bits(2) drop_bit_eq_div)
qed

lemma shifted_or:
  fixes a b :: int
  assumes "0 \<le> b" "b < 256"
  shows "push_bit 8 a OR b = 256 * a + b"
proof -
  have b: "take_bit 8 b = b" using assms by (simp add: take_bit_int_eq_self)
  have "push_bit 8 a AND take_bit 8 b = 0" by (rule bit_eqI) (auto simp: bit_simps)
  then have "push_bit 8 a OR b = push_bit 8 a + b" using plus_and_or [of "push_bit 8 a" b] unfolding b by simp
  then show ?thesis by (simp add: push_bit_eq_mult mult.commute)
qed

lemma core_bit: "WCOREDUMP status \<longleftrightarrow> odd (status div 128)"
  using and_exp_eq_0_iff_not_bit [of status 7] by (simp add: WCOREDUMP_def WCOREFLAG_def bit_iff_odd)

section \<open>The theorems\<close>

text \<open>
  At most one of the four tests holds of a status, whatever its bits: a child exited, was killed, stopped or continued.
  A status that passes none of them has the low seven bits of a stop without being one.
\<close>

theorem wait_status_exclusive:
  "length (filter id [WIFEXITED status, WIFSIGNALED status, WIFSTOPPED status, WIFCONTINUED status]) \<le> 1
    \<and> (WIFEXITED status \<or> WIFSIGNALED status \<or> WTERMSIG status = 0x7f)"
proof -
  let ?s = "status mod 256"
  have m: "status mod 128 = ?s mod 128" by (simp add: mod_mod_cancel)
  have e: "WIFEXITED status \<longleftrightarrow> status mod 128 = 0" by (simp add: WIFEXITED_def WTERMSIG_def low_bits)
  have "WIFSTOPPED status \<Longrightarrow> status mod 128 = 127" unfolding m by (simp add: WIFSTOPPED_def low_bits)
  moreover have "WIFCONTINUED status \<Longrightarrow> status mod 128 = 127 \<and> \<not> WIFSTOPPED status"
    by (simp add: WIFCONTINUED_def W_CONTINUED_def WIFSTOPPED_def)
  ultimately show ?thesis
    using e WIFSIGNALED_iff [of status] by (auto simp: WTERMSIG_def low_bits)
qed



end
