(* ===== verification/Region.thy ===== *)
theory Region
  imports Prelude "HOL-Library.Monad_Syntax"
begin

text \<open>
  Clip regions: the macros of \<open>include/X11/Xregion.h\<close>. A region is an array of boxes, of which the first \<open>numRects\<close> are in
  use, and their extents. The pointer \<open>r\<close> that the macros move along the array is an index into it; an access
  outside of the array is \<open>None\<close>. Coordinates are \<open>short\<close>: what is stored is cut down to 16 bits.
\<close>

section \<open>Boxes\<close>

record box =
  x1 :: int
  x2 :: int
  y1 :: int
  y2 :: int

definition to_short :: "int \<Rightarrow> int" where
  "to_short v = signed_take_bit 15 v"

definition EXTENTCHECK :: "box \<Rightarrow> box \<Rightarrow> bool" where
  "EXTENTCHECK r1 r2 \<longleftrightarrow> x2 r1 > x1 r2 \<and> x1 r1 < x2 r2 \<and> y2 r1 > y1 r2 \<and> y1 r1 < y2 r2"

definition INBOX :: "box \<Rightarrow> int \<Rightarrow> int \<Rightarrow> bool" where
  "INBOX r x y \<longleftrightarrow> x2 r > x \<and> x1 r \<le> x \<and> y2 r > y \<and> y1 r \<le> y"

section \<open>Regions\<close>

record region =
  sz :: int
  numRects :: int
  rects :: "box list"
  extents :: box

text \<open>The four conditions change four fields, one after the other.\<close>

definition EXTENTS :: "box \<Rightarrow> region \<Rightarrow> region" where
  "EXTENTS r reg =
     (let reg = (if x1 r < x1 (extents reg) then reg\<lparr>extents := (extents reg)\<lparr>x1 := x1 r\<rparr>\<rparr> else reg);
          reg = (if y1 r < y1 (extents reg) then reg\<lparr>extents := (extents reg)\<lparr>y1 := y1 r\<rparr>\<rparr> else reg);
          reg = (if x2 r > x2 (extents reg) then reg\<lparr>extents := (extents reg)\<lparr>x2 := x2 r\<rparr>\<rparr> else reg);
          reg = (if y2 r > y2 (extents reg) then reg\<lparr>extents := (extents reg)\<lparr>y2 := y2 r\<rparr>\<rparr> else reg)
      in reg)"

text \<open>
  \<open>Xrealloc\<close> of the array to a number of bytes, of which a box takes eight. Its answer is a null pointer or what is in
  the new memory behind the old boxes.
\<close>

definition Xrealloc :: "(nat \<Rightarrow> box) option \<Rightarrow> box list \<Rightarrow> nat \<Rightarrow> box list option" where
  "Xrealloc answer boxes bytes =
     (case answer of
        None \<Rightarrow> None
      | Some junk \<Rightarrow> Some (take (bytes div 8) boxes @ map junk [length boxes..<bytes div 8]))"

text \<open>\<open>Inl ()\<close> is the \<open>return(0)\<close> of the function that the macro stands in. The array is that of the region.\<close>

definition MEMCHECK :: "(nat \<Rightarrow> box) option \<Rightarrow> region \<Rightarrow> nat \<Rightarrow> unit + (region \<times> nat)" where
  "MEMCHECK answer reg rect =
     (if numRects reg \<ge> sz reg - 1 then
        (case Xrealloc answer (rects reg) (nat (2 * 8 * sz reg)) of
           None \<Rightarrow> Inl ()
         | Some tmpRect \<Rightarrow>
             let reg = reg\<lparr>rects := tmpRect, sz := sz reg * 2\<rparr> in Inr (reg, nat (numRects reg)))
      else Inr (reg, rect))"

definition CHECK_PREVIOUS :: "region \<Rightarrow> nat \<Rightarrow> int \<Rightarrow> int \<Rightarrow> int \<Rightarrow> int \<Rightarrow> bool option" where
  "CHECK_PREVIOUS Reg R Rx1 Ry1 Rx2 Ry2 =
     (if numRects Reg > 0 then
        (if 0 < R \<and> R - 1 < length (rects Reg)
         then (let p = rects Reg ! (R - 1)
               in Some (\<not> (y1 p = Ry1 \<and> y2 p = Ry2 \<and> x1 p \<le> Rx1 \<and> x2 p \<ge> Rx2)))
         else None)
      else Some True)"

definition store_box :: "region \<Rightarrow> nat \<Rightarrow> int \<Rightarrow> int \<Rightarrow> int \<Rightarrow> int \<Rightarrow> region option" where
  "store_box reg r rx1 ry1 rx2 ry2 =
     (if r < length (rects reg)
      then Some (reg\<lparr>rects := (rects reg)[r := \<lparr>x1 = to_short rx1, x2 = to_short rx2, y1 = to_short ry1, y2 = to_short ry2\<rparr>]\<rparr>)
      else None)"

definition ADDRECT :: "region \<Rightarrow> nat \<Rightarrow> int \<Rightarrow> int \<Rightarrow> int \<Rightarrow> int \<Rightarrow> (region \<times> nat) option" where
  "ADDRECT reg r rx1 ry1 rx2 ry2 =
     (if rx1 < rx2 \<and> ry1 < ry2 then do {
        c \<leftarrow> CHECK_PREVIOUS reg r rx1 ry1 rx2 ry2;
        if c then do {
          reg \<leftarrow> store_box reg r rx1 ry1 rx2 ry2;
          let reg = EXTENTS (rects reg ! r) reg;
          Some (reg\<lparr>numRects := numRects reg + 1\<rparr>, r + 1)
        } else Some (reg, r)
      } else Some (reg, r))"

definition ADDRECTNOX :: "region \<Rightarrow> nat \<Rightarrow> int \<Rightarrow> int \<Rightarrow> int \<Rightarrow> int \<Rightarrow> (region \<times> nat) option" where
  "ADDRECTNOX reg r rx1 ry1 rx2 ry2 =
     (if rx1 < rx2 \<and> ry1 < ry2 then do {
        c \<leftarrow> CHECK_PREVIOUS reg r rx1 ry1 rx2 ry2;
        if c then do {
          reg \<leftarrow> store_box reg r rx1 ry1 rx2 ry2;
          Some (reg\<lparr>numRects := numRects reg + 1\<rparr>, r + 1)
        } else Some (reg, r)
      } else Some (reg, r))"

definition EMPTY_REGION :: "region \<Rightarrow> region" where
  "EMPTY_REGION pReg = pReg\<lparr>numRects := 0\<rparr>"

definition REGION_NOT_EMPTY :: "region \<Rightarrow> bool" where
  "REGION_NOT_EMPTY pReg \<longleftrightarrow> numRects pReg \<noteq> 0"

section \<open>The set of points\<close>

abbreviation the_box :: "int \<times> int \<times> int \<times> int \<Rightarrow> box" where
  "the_box b \<equiv> (case b of (bx1, by1, bx2, by2) \<Rightarrow> \<lparr>x1 = bx1, x2 = bx2, y1 = by1, y2 = by2\<rparr>)"

definition box_points :: "box \<Rightarrow> (int \<times> int) set" where
  "box_points b = {(x, y). INBOX b x y}"

definition used :: "region \<Rightarrow> box list" where
  "used reg = take (nat (numRects reg)) (rects reg)"

definition points :: "region \<Rightarrow> (int \<times> int) set" where
  "points reg = (\<Union>b \<in> set (used reg). box_points b)"

text \<open>There is room for the boxes in use, none of them is empty, and the pointer is behind the last.\<close>

definition region_ok :: "region \<Rightarrow> nat \<Rightarrow> bool" where
  "region_ok reg r \<longleftrightarrow> 0 \<le> numRects reg \<and> r = nat (numRects reg) \<and> 1 \<le> sz reg \<and> numRects reg \<le> sz reg
     \<and> length (rects reg) = nat (sz reg) \<and> (\<forall>b \<in> set (used reg). x1 b < x2 b \<and> y1 b < y2 b)"

definition is_short :: "int \<Rightarrow> bool" where
  "is_short v \<longleftrightarrow> - 32768 \<le> v \<and> v < 32768"

text \<open>A box is within another, as the extents are kept.\<close>

definition in_box :: "box \<Rightarrow> box \<Rightarrow> bool" where
  "in_box b e \<longleftrightarrow> x1 e \<le> x1 b \<and> x2 b \<le> x2 e \<and> y1 e \<le> y1 b \<and> y2 b \<le> y2 e"

text \<open>Rectangles are added one by one, with a check of the memory before each.\<close>

fun add_rects :: "(nat \<Rightarrow> box) list \<Rightarrow> (int \<times> int \<times> int \<times> int) list \<Rightarrow> region \<times> nat \<Rightarrow> (region \<times> nat) option" where
  "add_rects (junk # js) ((rx1, ry1, rx2, ry2) # bs) (reg, r) =
     (case MEMCHECK (Some junk) reg r of
        Inl _ \<Rightarrow> None
      | Inr (reg, r) \<Rightarrow> do { s \<leftarrow> ADDRECT reg r rx1 ry1 rx2 ry2; add_rects js bs s })"
| "add_rects junks bs s = Some s"

lemma to_short_id: "is_short v \<Longrightarrow> to_short v = v"
  by (simp add: is_short_def to_short_def signed_take_bit_int_eq_self)

lemma EXTENTS_fields:
  "rects (EXTENTS b reg) = rects reg" "numRects (EXTENTS b reg) = numRects reg" "sz (EXTENTS b reg) = sz reg"
  "extents (EXTENTS b reg) = \<lparr>x1 = min (x1 b) (x1 (extents reg)), x2 = max (x2 b) (x2 (extents reg)),
     y1 = min (y1 b) (y1 (extents reg)), y2 = max (y2 b) (y2 (extents reg))\<rparr>"
  by (auto simp: EXTENTS_def Let_def intro!: box.equality)

lemma memcheck_room:
  assumes "region_ok reg r" "MEMCHECK (Some junk) reg r = Inr (reg', r')"
  shows "region_ok reg' r'" "numRects reg' < sz reg'" "used reg' = used reg" "extents reg' = extents reg" "numRects reg' = numRects reg"
proof -
  have f: "0 \<le> numRects reg" "r = nat (numRects reg)" "1 \<le> sz reg" "numRects reg \<le> sz reg" "length (rects reg) = nat (sz reg)"
    using assms(1) by (simp_all add: region_ok_def)
  have "region_ok reg' r' \<and> numRects reg' < sz reg' \<and> used reg' = used reg \<and> extents reg' = extents reg \<and> numRects reg' = numRects reg"
  proof (cases "numRects reg \<ge> sz reg - 1")
    case True
    let ?boxes = "rects reg @ map junk [nat (sz reg)..<nat (2 * sz reg)]"
    have bytes: "nat (16 * sz reg) div 8 = nat (2 * sz reg)" using f(3) by (simp add: nat_mult_distrib)
    have r: "reg' = reg\<lparr>rects := ?boxes, sz := sz reg * 2\<rparr>" "r' = nat (numRects reg)"
      using assms(2) True f by (auto simp: MEMCHECK_def Xrealloc_def bytes Let_def)
    have u: "used reg' = used reg" using f by (simp add: used_def r)
    then show ?thesis using assms(1) f by (simp add: region_ok_def r nat_mult_distrib)
  next
    case False
    then show ?thesis using assms by (auto simp: MEMCHECK_def)
  qed
  then show "region_ok reg' r'" "numRects reg' < sz reg'" "used reg' = used reg" "extents reg' = extents reg" "numRects reg' = numRects reg"
    by simp_all
qed

lemma memcheck_runs: "MEMCHECK (Some junk) reg r \<noteq> Inl e"
  by (simp add: MEMCHECK_def Xrealloc_def Let_def)

lemma box_points_empty: "x2 b \<le> x1 b \<or> y2 b \<le> y1 b \<Longrightarrow> box_points b = {}"
  by (auto simp: box_points_def INBOX_def)

lemma box_points_mono: "in_box b c \<Longrightarrow> box_points b \<subseteq> box_points c"
  by (auto simp: box_points_def INBOX_def in_box_def)


lemma used_add:
  assumes "region_ok reg r" "numRects reg < sz reg"
  shows "used (reg\<lparr>rects := (rects reg)[r := b], numRects := numRects reg + 1\<rparr>) = used reg @ [b]"
proof -
  have "r < length (rects reg)" "r = nat (numRects reg)" "0 \<le> numRects reg" using assms by (simp_all add: region_ok_def)
  moreover have "nat (numRects reg + 1) = Suc (nat (numRects reg))" using \<open>0 \<le> numRects reg\<close> by simp
  ultimately show ?thesis by (simp add: used_def take_Suc_conv_app_nth)
qed

text \<open>The box in front of the pointer is the last one in use.\<close>

lemma previous_last:
  assumes "region_ok reg r" "numRects reg > 0"
  shows "0 < r" "r - 1 < length (rects reg)" "rects reg ! (r - 1) \<in> set (used reg)"
proof -
  show "0 < r" "r - 1 < length (rects reg)" using assms by (auto simp: region_ok_def)
  then show "rects reg ! (r - 1) \<in> set (used reg)"
    using assms by (auto simp: region_ok_def used_def in_set_conv_nth intro!: exI [of _ "r - 1"])
qed

lemma addrect_step:
  assumes "region_ok reg r" "numRects reg < sz reg" "is_short rx1" "is_short ry1" "is_short rx2" "is_short ry2"
    and inside: "\<forall>b \<in> set (used reg). in_box b (extents reg)"
  shows "\<exists>reg' r'. ADDRECT reg r rx1 ry1 rx2 ry2 = Some (reg', r') \<and> region_ok reg' r'
    \<and> points reg' = points reg \<union> box_points (the_box (rx1, ry1, rx2, ry2))
    \<and> (\<forall>b \<in> set (used reg'). in_box b (extents reg'))"
proof -
  let ?b = "the_box (rx1, ry1, rx2, ry2)"
  note shorts = to_short_id [OF assms(3)] to_short_id [OF assms(4)] to_short_id [OF assms(5)] to_short_id [OF assms(6)]
  consider (empty) "\<not> (rx1 < rx2 \<and> ry1 < ry2)" | (old) "rx1 < rx2 \<and> ry1 < ry2" "CHECK_PREVIOUS reg r rx1 ry1 rx2 ry2 = Some False"
    | (new) "rx1 < rx2 \<and> ry1 < ry2" "CHECK_PREVIOUS reg r rx1 ry1 rx2 ry2 = Some True"
    using previous_last(1,2) [OF assms(1)] by (cases "numRects reg > 0") (auto simp: CHECK_PREVIOUS_def Let_def)
  then show ?thesis
  proof cases
    case empty
    then have "box_points ?b = {}" by (intro box_points_empty) auto
    then show ?thesis using empty assms(1) inside by (auto simp: ADDRECT_def)
  next
    case old
    then have n: "numRects reg > 0" by (auto simp: CHECK_PREVIOUS_def split: if_splits)
    then have "in_box ?b (rects reg ! (r - 1))"
      using old previous_last(1,2) [OF assms(1) n] by (simp add: CHECK_PREVIOUS_def Let_def in_box_def)
    then have "box_points ?b \<subseteq> points reg"
      using box_points_mono previous_last(3) [OF assms(1) n] by (auto simp: points_def)
    then show ?thesis using old assms(1) inside by (auto simp: ADDRECT_def)
  next
    case new
    let ?s = "reg\<lparr>rects := (rects reg)[r := ?b]\<rparr>"
    let ?reg = "(EXTENTS ?b ?s)\<lparr>numRects := numRects reg + 1\<rparr>"
    have r: "r < length (rects reg)" "r = nat (numRects reg)" "0 \<le> numRects reg" using assms(1,2) by (simp_all add: region_ok_def)
    have add: "ADDRECT reg r rx1 ry1 rx2 ry2 = Some (?reg, r + 1)"
      using new r by (simp add: ADDRECT_def store_box_def shorts EXTENTS_fields)
    have "used ?reg = used (reg\<lparr>rects := (rects reg)[r := ?b], numRects := numRects reg + 1\<rparr>)"
      by (simp add: used_def EXTENTS_fields)
    then have u: "used ?reg = used reg @ [?b]" by (simp only: used_add [OF assms(1,2)])
    have "region_ok ?reg (r + 1)"
      using assms(1,2) new r u by (auto simp: region_ok_def EXTENTS_fields)
    moreover have "points ?reg = points reg \<union> box_points ?b" unfolding points_def u by auto
    moreover have "\<forall>b \<in> set (used ?reg). in_box b (extents ?reg)"
      using inside unfolding u by (auto simp: in_box_def EXTENTS_fields min_le_iff_disj le_max_iff_disj)
    ultimately show ?thesis using add by blast
  qed
qed

section \<open>The theorems\<close>

text \<open>
  (C15) Building a region. However many rectangles are added, with a check of the memory before each, and whatever the
  enlarged memory holds, no box is stored outside of the array; the region is then the union of the
  rectangles, though some of them are skipped, none of its boxes is empty, and all are within the extents.
\<close>

theorem add_rects_union:
  assumes "region_ok reg r" "\<forall>b \<in> set (used reg). in_box b (extents reg)" "length junks = length bs"
    "\<forall>(a, b, c, d) \<in> set bs. is_short a \<and> is_short b \<and> is_short c \<and> is_short d"
  shows "\<exists>reg' r'. add_rects junks bs (reg, r) = Some (reg', r') \<and> region_ok reg' r'
    \<and> points reg' = points reg \<union> (\<Union>b \<in> set bs. box_points (the_box b))
    \<and> (\<forall>b \<in> set (used reg'). in_box b (extents reg'))"
  using assms(3,1,2,4)
proof (induction junks bs arbitrary: reg r rule: list_induct2)
  case (Cons junk js b bs)
  obtain rx1 ry1 rx2 ry2 where b: "b = (rx1, ry1, rx2, ry2)" by (cases b)
  obtain reg1 r1 where m: "MEMCHECK (Some junk) reg r = Inr (reg1, r1)"
    using memcheck_runs [of junk reg r] by (cases "MEMCHECK (Some junk) reg r") auto
  note room = memcheck_room [OF Cons.prems(1) m]
  have in1: "\<forall>b \<in> set (used reg1). in_box b (extents reg1)" "points reg1 = points reg"
    using Cons.prems(2) room by (simp_all add: points_def)
  obtain reg2 r2 where a: "ADDRECT reg1 r1 rx1 ry1 rx2 ry2 = Some (reg2, r2)" "region_ok reg2 r2"
    "points reg2 = points reg1 \<union> box_points (the_box b)" "\<forall>b \<in> set (used reg2). in_box b (extents reg2)"
    using addrect_step [OF room(1,2) _ _ _ _ in1(1), of rx1 ry1 rx2 ry2] Cons.prems(3) b by auto
  obtain reg3 r3 where "add_rects js bs (reg2, r2) = Some (reg3, r3)" "region_ok reg3 r3"
    "points reg3 = points reg2 \<union> (\<Union>b \<in> set bs. box_points (the_box b))" "\<forall>b \<in> set (used reg3). in_box b (extents reg3)"
    using Cons.IH [OF a(2,4)] Cons.prems(3) by auto
  then show ?case using m a in1(2) b by (auto simp: Un_assoc)
qed auto

theorem add_rects_union_witness:
  "\<exists>reg' r'. add_rects [\<lambda>_. \<lparr>x1 = 0, x2 = 0, y1 = 0, y2 = 0\<rparr>, \<lambda>_. \<lparr>x1 = 0, x2 = 0, y1 = 0, y2 = 0\<rparr>]
      [(0, 0, 10, 10), (2, 0, 5, 10)]
      (\<lparr>sz = 1, numRects = 0, rects = [\<lparr>x1 = 0, x2 = 0, y1 = 0, y2 = 0\<rparr>], extents = \<lparr>x1 = 0, x2 = 0, y1 = 0, y2 = 0\<rparr>\<rparr>, 0) = Some (reg', r')
    \<and> region_ok reg' r'"
proof -
  let ?z = "\<lparr>x1 = 0, x2 = 0, y1 = 0, y2 = 0\<rparr>"
  let ?reg = "\<lparr>sz = 1, numRects = 0, rects = [?z], extents = ?z\<rparr>"
  have "region_ok ?reg 0" "\<forall>b \<in> set (used ?reg). in_box b (extents ?reg)" by (simp_all add: region_ok_def used_def)
  from add_rects_union [OF this, of "[\<lambda>_. ?z, \<lambda>_. ?z]" "[(0, 0, 10, 10), (2, 0, 5, 10)]"] show ?thesis
    by (auto simp: is_short_def)
qed

text \<open>
  The check of two extents is exact for boxes that are not empty: it holds if and only if some point is in both.
\<close>

theorem extentcheck_overlap:
  assumes "x1 a < x2 a" "y1 a < y2 a" "x1 b < x2 b" "y1 b < y2 b"
  shows "EXTENTCHECK a b \<longleftrightarrow> (\<exists>x y. INBOX a x y \<and> INBOX b x y)"
proof
  assume "EXTENTCHECK a b"
  then have "INBOX a (max (x1 a) (x1 b)) (max (y1 a) (y1 b)) \<and> INBOX b (max (x1 a) (x1 b)) (max (y1 a) (y1 b))"
    using assms by (auto simp: EXTENTCHECK_def INBOX_def)
  then show "\<exists>x y. INBOX a x y \<and> INBOX b x y" by blast
qed (auto simp: EXTENTCHECK_def INBOX_def)

theorem extentcheck_overlap_witness:
  "\<not> (\<exists>x y. INBOX \<lparr>x1 = 0, x2 = 5, y1 = 0, y2 = 5\<rparr> x y \<and> INBOX \<lparr>x1 = 5, x2 = 9, y1 = 0, y2 = 5\<rparr> x y)"
  using extentcheck_overlap [of "\<lparr>x1 = 0, x2 = 5, y1 = 0, y2 = 5\<rparr>" "\<lparr>x1 = 5, x2 = 9, y1 = 0, y2 = 5\<rparr>"]
  by (simp add: EXTENTCHECK_def)

end
