(* ===== verification/Xlib_Requests.thy ===== *)
theory Xlib_Requests
  imports Tipc
begin

unbundle bit_operations_syntax

text \<open>
  The output buffer of a display: the macros of \<open>include/X11/Xlibint.h\<close> that put requests and data into it and set the
  length of a request. The buffer is a list of bytes and a pointer into it an offset; an access outside of it
  is \<open>None\<close>. The functions of Xlib that transmit the buffer are parameters. Numbers are stored as on x86, low bytes first.
\<close>

section \<open>The buffer\<close>

record display =
  obuf :: "u8 list"
  bufptr :: nat
  bufmax :: nat
  bigreq_size :: nat
  sent :: "u8 list"

text \<open>What the server has got and will get: the bytes that were transmitted and those in the buffer.\<close>

definition stream :: "display \<Rightarrow> u8 list" where
  "stream d = sent d @ take (bufptr d) (obuf d)"

definition bytes16 :: "u16 \<Rightarrow> u8 list" where
  "bytes16 v = [ucast v, ucast (drop_bit 8 v)]"

definition bytes32 :: "u32 \<Rightarrow> u8 list" where
  "bytes32 v = [ucast v, ucast (drop_bit 8 v), ucast (drop_bit 16 v), ucast (drop_bit 24 v)]"

definition load16 :: "u8 list \<Rightarrow> nat \<Rightarrow> u16 option" where
  "load16 m p = do { bs \<leftarrow> rd_mem m p 2; Some (ucast (bs ! 0) OR push_bit 8 (ucast (bs ! 1))) }"

definition load32 :: "u8 list \<Rightarrow> nat \<Rightarrow> u32 option" where
  "load32 m p = do { bs \<leftarrow> rd_mem m p 4;
     Some (ucast (bs ! 0) OR push_bit 8 (ucast (bs ! 1)) OR push_bit 16 (ucast (bs ! 2)) OR push_bit 24 (ucast (bs ! 3))) }"

definition pad4 :: "nat \<Rightarrow> nat" where
  "pad4 len = nat ((int len + 3) AND NOT 3)"

section \<open>The macros\<close>

definition Data :: "(display \<Rightarrow> u8 list \<Rightarrow> display) \<Rightarrow> display \<Rightarrow> u8 list \<Rightarrow> display option" where
  "Data xsend dpy bytes =
     (if bufptr dpy + length bytes \<le> bufmax dpy then do {
        m \<leftarrow> wr_mem (obuf dpy) (bufptr dpy) bytes;
        Some (dpy\<lparr>obuf := m, bufptr := bufptr dpy + pad4 (length bytes)\<rparr>)
      } else Some (xsend dpy bytes))"

text \<open>The offset is the value that \<open>ptr\<close> gets.\<close>

definition BufAlloc :: "(display \<Rightarrow> display) \<Rightarrow> nat \<Rightarrow> display \<Rightarrow> (nat \<times> display) option" where
  "BufAlloc xflush n dpy = do {
     let dpy = (if bufptr dpy + n > bufmax dpy then xflush dpy else dpy);
     let ptr = bufptr dpy;
     m \<leftarrow> wr_mem (obuf dpy) ptr (replicate n 0);
     Some (ptr, dpy\<lparr>obuf := m, bufptr := bufptr dpy + n\<rparr>)
   }"

text \<open>
  A request starts with its type, a byte of data and its \<open>CARD16\<close> length in words of four bytes. \<open>Data32\<close> is \<open>Data\<close>, or
  a function of Xlib where \<open>long\<close> has 64 bits: a parameter. The saved word is its four bytes.
\<close>

definition MakeBigReq :: "(display \<Rightarrow> u8 list \<Rightarrow> display option) \<Rightarrow> nat \<Rightarrow> nat \<Rightarrow> display \<Rightarrow> display option" where
  "MakeBigReq data32 req n dpy = do {
     len \<leftarrow> load16 (obuf dpy) (req + 2);
     let BRlen = (ucast len - 1 :: u32);
     m \<leftarrow> wr_mem (obuf dpy) (req + 2) (bytes16 0);
     BRdat \<leftarrow> rd_mem m (req + 4 * unat BRlen) 4;
     moved \<leftarrow> rd_mem m (req + 4) (unat (push_bit 2 (BRlen - 1)));
     m \<leftarrow> wr_mem m (req + 8) moved;
     m \<leftarrow> wr_mem m (req + 4) (bytes32 (BRlen + word_of_nat n + 2));
     data32 (dpy\<lparr>obuf := m\<rparr>) BRdat
   }"

text \<open>The macro may change the variable \<open>n\<close>, so its value is returned.\<close>

definition SetReqLen :: "(display \<Rightarrow> u8 list \<Rightarrow> display option) \<Rightarrow> nat \<Rightarrow> nat \<Rightarrow> nat \<Rightarrow> display \<Rightarrow> (nat \<times> display) option" where
  "SetReqLen data32 req n badlen dpy = do {
     len \<leftarrow> load16 (obuf dpy) (req + 2);
     if unat len + n > 65535 then
       (if bigreq_size dpy \<noteq> 0 then do { dpy \<leftarrow> MakeBigReq data32 req n dpy; Some (n, dpy) }
        else do {
          m \<leftarrow> wr_mem (obuf dpy) (req + 2) (bytes16 (len + word_of_nat badlen));
          Some (badlen, dpy\<lparr>obuf := m\<rparr>)
        })
     else do {
       m \<leftarrow> wr_mem (obuf dpy) (req + 2) (bytes16 (len + word_of_nat n));
       Some (n, dpy\<lparr>obuf := m\<rparr>)
     }
   }"

section \<open>What the library promises\<close>

definition buffer_ok :: "display \<Rightarrow> bool" where
  "buffer_ok d \<longleftrightarrow> bufptr d \<le> bufmax d \<and> bufmax d = length (obuf d) \<and> 4 dvd bufmax d \<and> 4 dvd bufptr d"

text \<open>\<open>_XSend\<close> transmits the buffer and the data, filled up to words; \<open>_XFlush\<close> the buffer.\<close>

definition xsend_ok :: "(display \<Rightarrow> u8 list \<Rightarrow> display) \<Rightarrow> bool" where
  "xsend_ok xsend \<longleftrightarrow> (\<forall>d bytes. buffer_ok d \<longrightarrow> buffer_ok (xsend d bytes) \<and> (\<exists>pads. length pads = pad4 (length bytes) - length bytes
     \<and> stream (xsend d bytes) = stream d @ bytes @ pads))"

definition xflush_ok :: "(display \<Rightarrow> display) \<Rightarrow> bool" where
  "xflush_ok xflush \<longleftrightarrow> (\<forall>d. bufptr d \<le> bufmax d \<and> bufmax d = length (obuf d) \<longrightarrow> stream (xflush d) = stream d
     \<and> bufptr (xflush d) = 0 \<and> bufmax (xflush d) = bufmax d \<and> bufmax d = length (obuf (xflush d)))"

definition data32_ok :: "(display \<Rightarrow> u8 list \<Rightarrow> display option) \<Rightarrow> bool" where
  "data32_ok data32 \<longleftrightarrow> (\<forall>d bs. buffer_ok d \<and> length bs = 4 \<longrightarrow> (\<exists>d'. data32 d bs = Some d' \<and> buffer_ok d' \<and> stream d' = stream d @ bs))"

section \<open>Bytes and words\<close>

lemma pad4_eq: "pad4 len = (len + 3) div 4 * 4"
  using TLV_ALIGN_eq [of len] by (simp add: pad4_def TLV_ALIGN_def)

lemma pad4_bounds: "len \<le> pad4 len" "pad4 len < len + 4" "4 dvd pad4 len" "4 dvd k \<Longrightarrow> len \<le> k \<Longrightarrow> pad4 len \<le> k"
  unfolding pad4_eq by presburger+

lemma bytes_roundtrip:
  "ucast (ucast v :: u8) OR push_bit 8 (ucast (ucast (drop_bit 8 v) :: u8)) = (v :: u16)"
  "ucast (ucast w :: u8) OR push_bit 8 (ucast (ucast (drop_bit 8 w) :: u8)) OR push_bit 16 (ucast (ucast (drop_bit 16 w) :: u8))
     OR push_bit 24 (ucast (ucast (drop_bit 24 w) :: u8)) = (w :: u32)"
proof -
  show "ucast (ucast v :: u8) OR push_bit 8 (ucast (ucast (drop_bit 8 v) :: u8)) = (v :: u16)"
    by (rule bit_word_eqI) (auto simp: bit_simps)
  show "ucast (ucast w :: u8) OR push_bit 8 (ucast (ucast (drop_bit 8 w) :: u8)) OR push_bit 16 (ucast (ucast (drop_bit 16 w) :: u8))
     OR push_bit 24 (ucast (ucast (drop_bit 24 w) :: u8)) = (w :: u32)" (is "?l = w")
  proof (rule bit_word_eqI)
    fix n assume "n < LENGTH(32)"
    then consider "n < 8" | "8 \<le> n" "n < 16" | "16 \<le> n" "n < 24" | "24 \<le> n" "n < 32" by fastforce
    then show "bit ?l n = bit w n" by cases (auto simp: bit_simps)
  qed
qed

lemma bytes_length [simp]: "length (bytes16 v) = 2" "length (bytes32 w) = 4"
  by (simp_all add: bytes16_def bytes32_def)

lemma load16_bytes: "load16 (pre @ bytes16 v @ post) (length pre) = Some v"
  by (simp add: load16_def rd_mem_def bytes16_def bytes_roundtrip)

lemma load32_bytes: "load32 (pre @ bytes32 w @ post) (length pre) = Some w"
  by (simp add: load32_def rd_mem_def bytes32_def bytes_roundtrip)

lemma wr_mem_append: "length bs = length old \<Longrightarrow> wr_mem (pre @ old @ post) (length pre) bs = Some (pre @ bs @ post)"
  by (simp add: wr_mem_def)

lemma rd_mem_append: "rd_mem (pre @ bs @ post) (length pre) (length bs) = Some bs"
  by (simp add: rd_mem_def)

section \<open>Data\<close>

lemma Data_appends:
  assumes "xsend_ok xsend" "buffer_ok d"
  shows "\<exists>d' pads. Data xsend d bytes = Some d' \<and> buffer_ok d' \<and> stream d' = stream d @ bytes @ pads
    \<and> length pads = pad4 (length bytes) - length bytes"
proof (cases "bufptr d + length bytes \<le> bufmax d")
  case True
  let ?n = "length bytes"
  let ?m = "take (bufptr d) (obuf d) @ bytes @ drop (bufptr d + ?n) (obuf d)"
  let ?d = "d\<lparr>obuf := ?m, bufptr := bufptr d + pad4 ?n\<rparr>"
  have b: "bufmax d = length (obuf d)" "4 dvd bufmax d - bufptr d" using assms(2) by (auto simp: buffer_ok_def intro: dvd_diff_nat)
  have pad: "pad4 ?n \<le> bufmax d - bufptr d" using True b(2) by (intro pad4_bounds(4)) simp_all
  have len: "length ?m = length (obuf d)" using True b(1) by simp
  have "Data xsend d bytes = Some ?d" using True b(1) by (simp add: Data_def wr_mem_def)
  moreover have "bufptr d + pad4 ?n \<le> bufmax d" using pad assms(2) by (auto simp: buffer_ok_def)
  then have "buffer_ok ?d"
    using assms(2) len pad4_bounds(3) [of ?n] by (auto simp: buffer_ok_def)
  moreover have "stream ?d = stream d @ bytes @ take (pad4 ?n - ?n) (drop (bufptr d + ?n) (obuf d))"
    using True b(1) pad4_bounds(1) [of ?n] by (simp add: stream_def)
  moreover have "length (take (pad4 ?n - ?n) (drop (bufptr d + ?n) (obuf d))) = pad4 ?n - ?n"
    using pad b(1) by simp
  ultimately show ?thesis by blast
next
  case False
  then show ?thesis using assms by (auto simp: Data_def xsend_ok_def)
qed

lemma Data_data32: "xsend_ok xsend \<Longrightarrow> data32_ok (Data xsend)"
proof -
  assume ok: "xsend_ok xsend"
  have "\<exists>d'. Data xsend d bs = Some d' \<and> buffer_ok d' \<and> stream d' = stream d @ bs" if "buffer_ok d" "length bs = 4" for d bs
    using Data_appends [OF ok that(1), of bs] that(2) by (auto simp: pad4_eq)
  then show ?thesis by (simp add: data32_ok_def)
qed


section \<open>The length of a request\<close>

text \<open>
  A request that is complete in the buffer, before the data that follow it: \<open>pre\<close> is what the buffer has in front of it,
  and there are at least two words.
\<close>

definition request_at :: "display \<Rightarrow> u8 list \<Rightarrow> u8 \<Rightarrow> u8 \<Rightarrow> u16 \<Rightarrow> u8 list \<Rightarrow> bool" where
  "request_at d pre t x len body \<longleftrightarrow> buffer_ok d \<and> 2 \<le> unat len \<and> length body = 4 * unat len - 4
     \<and> take (bufptr d) (obuf d) = pre @ [t, x] @ bytes16 len @ body"

lemma request_split:
  assumes "request_at d pre t x len body"
  obtains first rest post where "body = first @ rest" "length rest = 4" "length first = 4 * (unat len - 2)"
    "obuf d = pre @ [t, x] @ bytes16 len @ first @ rest @ post" "bufptr d = length pre + 4 * unat len"
proof -
  let ?k = "4 * (unat len - 2)" and ?post = "drop (bufptr d) (obuf d)"
  have r: "bufptr d \<le> length (obuf d)" "2 \<le> unat len" "length body = 4 * unat len - 4"
    "take (bufptr d) (obuf d) = pre @ [t, x] @ bytes16 len @ body"
    using assms by (auto simp: request_at_def buffer_ok_def)
  have "obuf d = take (bufptr d) (obuf d) @ ?post" by simp
  then have "obuf d = pre @ [t, x] @ bytes16 len @ take ?k body @ drop ?k body @ ?post"
    unfolding r(4) by (metis append.assoc append_take_drop_id)
  moreover have "length (take (bufptr d) (obuf d)) = bufptr d" using r(1) by simp
  then have "bufptr d = length pre + 4 * unat len" unfolding r(4) using r(2,3) by simp
  moreover have "length (drop ?k body) = 4" "length (take ?k body) = ?k" using r(2,3) by (simp_all add: algebra_simps)
  ultimately show thesis using that [of "take ?k body" "drop ?k body" ?post] by simp
qed

lemma big_req_words:
  fixes len :: u16
  assumes "2 \<le> unat len"
  shows "unat (ucast len - 1 :: u32) = unat len - 1" "unat (push_bit 2 (ucast len - 1 - 1 :: u32)) = 4 * (unat len - 2)"
    "(ucast len - 1 :: u32) + word_of_nat n + 2 = word_of_nat (unat len + 1 + n)"
proof -
  have "unat len < 2 ^ LENGTH(16)" by (rule unsigned_less)
  then have l: "unat (ucast len :: u32) = unat len" "unat len < 65536" by (simp_all add: unsigned_ucast_eq take_bit_nat_eq_self)
  then have g: "(1 :: u32) \<le> ucast len" "(2 :: u32) \<le> ucast len" using assms by (simp_all add: word_le_nat_alt)
  show one: "unat (ucast len - 1 :: u32) = unat len - 1" using unat_sub [OF g(1)] l by simp
  have two: "unat (ucast len - 1 - 1 :: u32) = unat len - 2" using unat_sub [OF g(2)] l by (simp add: diff_diff_eq)
  have "unat (push_bit 2 y) = (4 * unat y) mod 2 ^ 32" for y :: u32
    by (simp add: push_bit_eq_mult unat_word_ariths(2) mult.commute)
  then have "unat (push_bit 2 (ucast len - 1 - 1 :: u32)) = (4 * (unat len - 2)) mod 2 ^ 32" unfolding two [symmetric] .
  then show "unat (push_bit 2 (ucast len - 1 - 1 :: u32)) = 4 * (unat len - 2)" using l(2) by simp
  have "(ucast len :: u32) = word_of_nat (unat (ucast len :: u32))" by simp
  then have "(ucast len :: u32) = word_of_nat (unat len)" by (simp only: l(1))
  then show "(ucast len - 1 :: u32) + word_of_nat n + 2 = word_of_nat (unat len + 1 + n)" by simp
qed

lemma MakeBigReq_layout:
  assumes req: "request_at d pre t x len body" and ok: "data32_ok data32"
  shows "\<exists>d'. MakeBigReq data32 (length pre) n d = Some d' \<and> buffer_ok d'
    \<and> stream d' = sent d @ pre @ [t, x] @ bytes16 0 @ bytes32 (word_of_nat (unat len + 1 + n)) @ body"
proof -
  obtain first rest post where r: "body = first @ rest" "length rest = 4" "length first = 4 * (unat len - 2)"
    "obuf d = pre @ [t, x] @ bytes16 len @ first @ rest @ post" "bufptr d = length pre + 4 * unat len"
    using request_split [OF req] by blast
  have len: "2 \<le> unat len" using req by (simp add: request_at_def)
  note w = big_req_words [OF len]
  let ?w = "bytes32 (word_of_nat (unat len + 1 + n))"
  let ?m1 = "pre @ [t, x] @ bytes16 0 @ first @ rest @ post"
  let ?m3 = "pre @ [t, x] @ bytes16 0 @ ?w @ first @ post"
  have at: "length (pre @ [t, x] @ bytes16 0 @ first) = length pre + 4 * (unat len - 1)" using r(3) len by simp
  let ?a = "take 4 (first @ rest)" and ?b = "drop 4 (first @ rest)"
  have four: "?a @ ?b @ post = first @ rest @ post" by (simp only: append_assoc [symmetric] append_take_drop_id)
  have lens: "length first = length ?b" "length (pre @ [t, x] @ bytes16 0 @ ?a) = length pre + 8" using r(2) by simp_all
  have f1: "load16 (obuf d) (length pre + 2) = Some len"
    using load16_bytes [of "pre @ [t, x]" len "first @ rest @ post"] by (simp add: r(4))
  have f2: "wr_mem (obuf d) (length pre + 2) (bytes16 0) = Some ?m1"
    using wr_mem_append [of "bytes16 0" "bytes16 len" "pre @ [t, x]" "first @ rest @ post"] by (simp add: r(4))
  have f3: "rd_mem ?m1 (length pre + 4 * (unat len - 1)) 4 = Some rest"
    using rd_mem_append [of "pre @ [t, x] @ bytes16 0 @ first" rest post] unfolding at r(2) by simp
  have f4: "rd_mem ?m1 (length pre + 4) (4 * (unat len - 2)) = Some first"
    using rd_mem_append [of "pre @ [t, x] @ bytes16 0" first "rest @ post"] r(3) by simp
  have f5: "wr_mem ?m1 (length pre + 8) first = Some (pre @ [t, x] @ bytes16 0 @ take 4 (first @ rest) @ first @ post)"
    using wr_mem_append [OF lens(1), of "pre @ [t, x] @ bytes16 0 @ ?a" post] unfolding lens(2) append_assoc four .
  have f6: "wr_mem (pre @ [t, x] @ bytes16 0 @ take 4 (first @ rest) @ first @ post) (length pre + 4) ?w = Some ?m3"
    using wr_mem_append [of ?w "take 4 (first @ rest)" "pre @ [t, x] @ bytes16 0" "first @ post"] r(2) by simp
  have big: "MakeBigReq data32 (length pre) n d = data32 (d\<lparr>obuf := ?m3\<rparr>) rest"
    by (simp only: MakeBigReq_def Let_def w f1 f2 f3 f4 f5 f6 Option.bind.simps)
  have ok3: "buffer_ok (d\<lparr>obuf := ?m3\<rparr>)" using req r(2,4) by (auto simp: request_at_def buffer_ok_def)
  have "length (pre @ [t, x] @ bytes16 0 @ ?w @ first) = bufptr d" using r(3,5) len by simp
  then have "take (bufptr d) ((pre @ [t, x] @ bytes16 0 @ ?w @ first) @ post) = pre @ [t, x] @ bytes16 0 @ ?w @ first"
    by (metis append_eq_conv_conj)
  then have "take (bufptr d) ?m3 = pre @ [t, x] @ bytes16 0 @ ?w @ first" by (simp only: append_assoc)
  then have "stream (d\<lparr>obuf := ?m3\<rparr>) = sent d @ pre @ [t, x] @ bytes16 0 @ ?w @ first" by (simp add: stream_def)
  moreover obtain d' where "data32 (d\<lparr>obuf := ?m3\<rparr>) rest = Some d'" "buffer_ok d'" "stream d' = stream (d\<lparr>obuf := ?m3\<rparr>) @ rest"
    using ok ok3 r(2) by (auto simp: data32_ok_def)
  ultimately show ?thesis using big r(1) by simp
qed


text \<open>
  The length of a request as a server that knows big requests reads it: the 16-bit field, or, when that is 0, the 32 bits
  behind it.
\<close>

definition server_words :: "u8 list \<Rightarrow> nat option" where
  "server_words r = do {
     len \<leftarrow> load16 r 2;
     if len \<noteq> 0 then Some (unat len) else map_option unat (load32 r 4)
   }"

lemma server_words_short: "len \<noteq> 0 \<Longrightarrow> server_words ([t, x] @ bytes16 len @ body) = Some (unat len)"
  using load16_bytes [of "[t, x]" len body] by (simp add: server_words_def eval_nat_numeral)

lemma server_words_big: "server_words ([t, x] @ bytes16 0 @ bytes32 w @ body) = Some (unat w)"
  using load16_bytes [of "[t, x]" 0 "bytes32 w @ body"] load32_bytes [of "[t, x] @ bytes16 0" w body]
  by (simp add: server_words_def eval_nat_numeral)

lemma store_length:
  assumes "request_at d pre t x len body"
  shows "load16 (obuf d) (length pre + 2) = Some len"
    and "\<exists>m. wr_mem (obuf d) (length pre + 2) (bytes16 v) = Some m \<and> length m = length (obuf d)
      \<and> stream (d\<lparr>obuf := m\<rparr>) = sent d @ pre @ [t, x] @ bytes16 v @ body"
proof -
  obtain first rest post where r: "body = first @ rest" "length rest = 4" "length first = 4 * (unat len - 2)"
    "obuf d = pre @ [t, x] @ bytes16 len @ first @ rest @ post" "bufptr d = length pre + 4 * unat len"
    using request_split [OF assms] by blast
  have len: "2 \<le> unat len" using assms by (simp add: request_at_def)
  show "load16 (obuf d) (length pre + 2) = Some len"
    using load16_bytes [of "pre @ [t, x]" len "first @ rest @ post"] by (simp add: r(4))
  let ?m = "(pre @ [t, x] @ bytes16 v @ first @ rest) @ post"
  have "wr_mem (obuf d) (length pre + 2) (bytes16 v) = Some ?m"
    using wr_mem_append [of "bytes16 v" "bytes16 len" "pre @ [t, x]" "first @ rest @ post"] by (simp add: r(4))
  moreover have "length (pre @ [t, x] @ bytes16 v @ first @ rest) = bufptr d" using r(2,3,5) len by simp
  then have "take (bufptr d) ?m = pre @ [t, x] @ bytes16 v @ first @ rest" by (metis append_eq_conv_conj)
  then have "stream (d\<lparr>obuf := ?m\<rparr>) = sent d @ pre @ [t, x] @ bytes16 v @ body" by (simp add: stream_def r(1))
  moreover have "length ?m = length (obuf d)" by (simp add: r(4))
  ultimately show "\<exists>m. wr_mem (obuf d) (length pre + 2) (bytes16 v) = Some m \<and> length m = length (obuf d)
      \<and> stream (d\<lparr>obuf := m\<rparr>) = sent d @ pre @ [t, x] @ bytes16 v @ body" by blast
qed

lemma short_length:
  assumes "request_at d pre t x len body" "unat len + k \<le> 65535"
  shows "\<exists>m. wr_mem (obuf d) (length pre + 2) (bytes16 (len + word_of_nat k)) = Some m \<and> buffer_ok (d\<lparr>obuf := m\<rparr>)
    \<and> stream (d\<lparr>obuf := m\<rparr>) = sent d @ pre @ ([t, x] @ bytes16 (len + word_of_nat k)) @ body
    \<and> server_words (([t, x] @ bytes16 (len + word_of_nat k)) @ body) = Some (length (([t, x] @ bytes16 (len + word_of_nat k)) @ body) div 4 + k)"
proof -
  have len: "2 \<le> unat len" "length body = 4 * unat len - 4" "buffer_ok d" using assms(1) by (simp_all add: request_at_def)
  have "unat (word_of_nat k :: u16) = k" using assms(2) by (simp add: unat_of_nat)
  then have u: "unat (len + word_of_nat k) = unat len + k" using assms(2) unat_add_lem [of len "word_of_nat k"] by simp
  then have "unat (len + word_of_nat k) \<noteq> 0" using len(1) by simp
  then have "len + word_of_nat k \<noteq> 0" by (metis unsigned_0)
  then have "server_words ([t, x] @ bytes16 (len + word_of_nat k) @ body) = Some (unat len + k)"
    using server_words_short u by metis
  then show ?thesis using store_length(2) [OF assms(1), of "len + word_of_nat k"] len by (auto simp: buffer_ok_def)
qed

text \<open>A function that sends at once and fills the last word with zeros, and one that empties the buffer.\<close>

definition send_now :: "display \<Rightarrow> u8 list \<Rightarrow> display" where
  "send_now d bytes = d\<lparr>sent := stream d @ bytes @ replicate (pad4 (length bytes) - length bytes) 0, bufptr := 0\<rparr>"

definition flush_now :: "display \<Rightarrow> display" where
  "flush_now d = d\<lparr>sent := stream d, bufptr := 0\<rparr>"

lemma send_now_ok: "xsend_ok send_now"
  by (auto simp: xsend_ok_def send_now_def buffer_ok_def stream_def)

lemma flush_now_ok: "xflush_ok flush_now"
  by (simp add: xflush_ok_def flush_now_def stream_def)

section \<open>The theorems\<close>

text \<open>Pieces of data one after the other.\<close>

fun put_all :: "(display \<Rightarrow> u8 list \<Rightarrow> display) \<Rightarrow> u8 list list \<Rightarrow> display \<Rightarrow> display option" where
  "put_all xsend [] d = Some d"
| "put_all xsend (b # bs) d = do { d \<leftarrow> Data xsend d b; put_all xsend bs d }"

text \<open>
  (C25) Data that are put into the buffer come out in order: however they divide into what fits the buffer and what is sent at
  once, the server gets each piece followed by the bytes that fill its last word, nothing is written behind
  the end of the buffer, and the buffer is ready for the next.
\<close>

theorem data_stream:
  assumes "xsend_ok xsend" "buffer_ok d"
  shows "\<exists>d' pads. put_all xsend bs d = Some d' \<and> buffer_ok d' \<and> length pads = length bs
    \<and> stream d' = stream d @ concat (map2 (@) bs pads)
    \<and> (\<forall>i < length bs. length (pads ! i) < 4 \<and> 4 dvd length (bs ! i) + length (pads ! i))"
  using assms(2)
proof (induction bs arbitrary: d)
  case (Cons b bs)
  obtain d1 p where d1: "Data xsend d b = Some d1" "buffer_ok d1" "stream d1 = stream d @ b @ p" "length p = pad4 (length b) - length b"
    using Data_appends [OF assms(1) Cons.prems] by blast
  obtain d2 pads where d2: "put_all xsend bs d1 = Some d2" "buffer_ok d2" "length pads = length bs"
    "stream d2 = stream d1 @ concat (map2 (@) bs pads)"
    "\<forall>i < length bs. length (pads ! i) < 4 \<and> 4 dvd length (bs ! i) + length (pads ! i)"
    using Cons.IH [OF d1(2)] by blast
  have "length p < 4" "4 dvd length b + length p" using pad4_bounds(1,2,3) [of "length b"] d1(4) by auto
  then have "\<forall>i < length (b # bs). length ((p # pads) ! i) < 4 \<and> 4 dvd length ((b # bs) ! i) + length ((p # pads) ! i)"
    using d2(5) by (auto simp: nth_Cons split: nat.splits)
  moreover have "put_all xsend (b # bs) d = Some d2" using d1(1) d2(1) by simp
  moreover have "stream d2 = stream d @ concat (map2 (@) (b # bs) (p # pads))" using d1(3) d2(4) by simp
  ultimately show ?case using d2(2,3) by (intro exI [of _ d2] exI [of _ "p # pads"]) simp
qed simp

theorem data_stream_witness:
  "\<exists>d'. put_all send_now [[1, 2], [3, 4, 5, 6]] \<lparr>obuf = [0, 0, 0, 0], bufptr = 0, bufmax = 4, bigreq_size = 0, sent = []\<rparr> = Some d'"
  using data_stream [OF send_now_ok, of "\<lparr>obuf = [0, 0, 0, 0], bufptr = 0, bufmax = 4, bigreq_size = 0, sent = []\<rparr>" "[[1, 2], [3, 4, 5, 6]]"]
  by (auto simp: buffer_ok_def)

text \<open>
  (C13) The length of a request. When \<open>SetReqLen\<close> is done the server reads as the length of the request the words that are there
  and the words that are still to follow, and finds the body unchanged. A request that is too long for the
  16-bit field becomes a big request, with one word more, where the server has those; elsewhere only
  \<open>badlen\<close> words are to follow.
\<close>

theorem set_req_len_read:
  assumes "request_at d pre t x len body" "data32_ok data32" "unat len + 1 + n < 2 ^ 32" "unat len + badlen \<le> 65535"
  shows "\<exists>m d' r h. SetReqLen data32 (length pre) n badlen d = Some (m, d') \<and> buffer_ok d'
    \<and> stream d' = sent d @ pre @ r \<and> r = h @ body \<and> take 2 h = [t, x] \<and> 4 dvd length r
    \<and> server_words r = Some (length r div 4 + m)
    \<and> m = (if unat len + n > 65535 \<and> bigreq_size d = 0 then badlen else n)"
proof -
  have len: "2 \<le> unat len" "length body = 4 * unat len - 4" "buffer_ok d" using assms(1) by (simp_all add: request_at_def)
  show ?thesis
  proof (cases "unat len + n > 65535 \<and> bigreq_size d \<noteq> 0")
    case True
    let ?w = "word_of_nat (unat len + 1 + n) :: u32"
    let ?h = "[t, x] @ bytes16 0 @ bytes32 ?w"
    obtain d' where d': "MakeBigReq data32 (length pre) n d = Some d'" "buffer_ok d'" "stream d' = sent d @ pre @ ?h @ body"
      using MakeBigReq_layout [OF assms(1,2), of n] by auto
    have "unat ?w = unat len + 1 + n" using assms(3) unat_of_nat [of "unat len + 1 + n", where 'a = 32] by (simp del: of_nat_Suc of_nat_add)
    then have "server_words (?h @ body) = Some (unat len + 1 + n)" using server_words_big [of t x ?w body] by simp
    moreover have "length (?h @ body) = 4 * (unat len + 1)" using len by simp
    then have "length (?h @ body) div 4 = unat len + 1" "4 dvd length (?h @ body)" by (simp_all only: nonzero_mult_div_cancel_left dvd_triv_left)
    moreover have "SetReqLen data32 (length pre) n badlen d = Some (n, d')"
      using True d'(1) store_length(1) [OF assms(1)] by (simp add: SetReqLen_def)
    ultimately have "server_words (?h @ body) = Some (length (?h @ body) div 4 + n)"
      "SetReqLen data32 (length pre) n badlen d = Some (n, d')" "4 dvd length (?h @ body)" by simp_all
    moreover have "n = (if unat len + n > 65535 \<and> bigreq_size d = 0 then badlen else n)" using True by simp
    moreover have "take 2 ?h = [t, x]" "stream d' = sent d @ pre @ (?h @ body)" using d'(3) by simp_all
    ultimately show ?thesis using d'(2) by blast
  next
    case False
    let ?k = "if unat len + n > 65535 then badlen else n"
    have "unat len + ?k \<le> 65535" using assms(4) by simp
    from short_length [OF assms(1) this] obtain m where m: "wr_mem (obuf d) (length pre + 2) (bytes16 (len + word_of_nat ?k)) = Some m"
      "buffer_ok (d\<lparr>obuf := m\<rparr>)" "stream (d\<lparr>obuf := m\<rparr>) = sent d @ pre @ ([t, x] @ bytes16 (len + word_of_nat ?k)) @ body"
      "server_words (([t, x] @ bytes16 (len + word_of_nat ?k)) @ body) = Some (length (([t, x] @ bytes16 (len + word_of_nat ?k)) @ body) div 4 + ?k)"
      by blast
    have "SetReqLen data32 (length pre) n badlen d = Some (?k, d\<lparr>obuf := m\<rparr>)"
      using False m(1) store_length(1) [OF assms(1)] by (auto simp: SetReqLen_def)
    moreover have "length (([t, x] @ bytes16 (len + word_of_nat ?k)) @ body) = 4 * unat len" using len by simp
    then have "4 dvd length (([t, x] @ bytes16 (len + word_of_nat ?k)) @ body)" by (simp only: dvd_triv_left)
    moreover have "?k = (if unat len + n > 65535 \<and> bigreq_size d = 0 then badlen else n)" using False by auto
    moreover have "take 2 ([t, x] @ bytes16 (len + word_of_nat ?k)) = [t, x]" by simp
    ultimately show ?thesis using m(2,3,4) by blast
  qed
qed

theorem set_req_len_read_witness:
  "\<exists>d' r. SetReqLen (Data send_now) 0 70000 0
      \<lparr>obuf = [1, 0, 2, 0, 7, 7, 7, 7], bufptr = 8, bufmax = 8, bigreq_size = 100000, sent = []\<rparr> = Some (70000, d')
    \<and> stream d' = r \<and> server_words r = Some (length r div 4 + 70000)"
proof -
  let ?d = "\<lparr>obuf = [1, 0, 2, 0, 7, 7, 7, 7], bufptr = 8, bufmax = 8, bigreq_size = 100000, sent = []\<rparr>"
  have "request_at ?d [] 1 0 2 [7, 7, 7, 7]" by (simp add: request_at_def buffer_ok_def bytes16_def)
  from set_req_len_read [OF this Data_data32 [OF send_now_ok], of 70000 0] show ?thesis by auto
qed

text \<open>
  Space in the buffer. \<open>BufAlloc\<close> appends zeros and returns where they are, after transmitting what was in the way; exactly
  the pieces that are larger than the whole buffer would be written outside of it.
\<close>

theorem buf_alloc_bounds:
  assumes "xflush_ok xflush" "bufptr d \<le> bufmax d" "bufmax d = length (obuf d)"
  shows "if n \<le> bufmax d
    then \<exists>ptr d'. BufAlloc xflush n d = Some (ptr, d') \<and> bufptr d' = ptr + n \<and> bufptr d' \<le> bufmax d' \<and> bufmax d' = length (obuf d')
      \<and> stream d' = stream d @ replicate n 0 \<and> take n (drop ptr (obuf d')) = replicate n 0
    else BufAlloc xflush n d = None"
proof -
  let ?d = "if bufptr d + n > bufmax d then xflush d else d"
  have e: "stream ?d = stream d" "bufmax ?d = bufmax d" "bufmax d = length (obuf ?d)" "bufptr ?d = (if bufptr d + n > bufmax d then 0 else bufptr d)"
    using assms by (simp_all add: xflush_ok_def)
  show ?thesis
  proof (cases "n \<le> bufmax d")
    case True
    then have fit: "bufptr ?d + n \<le> length (obuf ?d)" using e by (auto split: if_splits)
    let ?m = "take (bufptr ?d) (obuf ?d) @ replicate n 0 @ drop (bufptr ?d + n) (obuf ?d)"
    have "BufAlloc xflush n d = Some (bufptr ?d, ?d\<lparr>obuf := ?m, bufptr := bufptr ?d + n\<rparr>)"
      using fit by (simp only: BufAlloc_def Let_def wr_mem_def length_replicate if_True Option.bind.simps)
    moreover have "stream (?d\<lparr>obuf := ?m, bufptr := bufptr ?d + n\<rparr>) = stream d @ replicate n 0"
      using fit e(1) by (simp add: stream_def del: e)
    moreover have "take n (drop (bufptr ?d) ?m) = replicate n 0" "length ?m = length (obuf ?d)" using fit by simp_all
    ultimately show ?thesis using True fit e(2,3) by simp
  next
    case False
    then have "\<not> bufptr ?d + n \<le> length (obuf ?d)" using e(3) by simp
    then have "BufAlloc xflush n d = None" by (simp only: BufAlloc_def Let_def wr_mem_def length_replicate if_False Option.bind.simps)
    then show ?thesis using False by simp
  qed
qed


theorem buf_alloc_bounds_witness:
  "BufAlloc flush_now 5 \<lparr>obuf = [0, 0, 0, 0], bufptr = 2, bufmax = 4, bigreq_size = 0, sent = []\<rparr> = None"
  using buf_alloc_bounds [OF flush_now_ok, of "\<lparr>obuf = [0, 0, 0, 0], bufptr = 2, bufmax = 4, bigreq_size = 0, sent = []\<rparr>" 5] by simp

end
