(* ===== verification/Xlib_Fonts.thy ===== *)
theory Xlib_Fonts
  imports Prelude "HOL-Library.Monad_Syntax"
begin

unbundle bit_operations_syntax

text \<open>
  Looking up the metrics of a character: the macros of \<open>include/X11/Xlibint.h\<close> on the \<open>XFontStruct\<close> of \<open>include/X11/Xlib.h\<close>. A pointer
  to metrics is an option, \<open>None\<close> for a null pointer; an access outside of the array of metrics is the outer \<open>None\<close>.
  Characters are \<open>unsigned int\<close> and the index is computed in 32 bits.
\<close>

record XCharStruct =
  lbearing :: "16 word"
  rbearing :: "16 word"
  width :: "16 word"
  ascent :: "16 word"
  descent :: "16 word"

record XFontStruct =
  min_char_or_byte2 :: u32
  max_char_or_byte2 :: u32
  min_byte1 :: u32
  max_byte1 :: u32
  default_char :: u32
  min_bounds :: XCharStruct
  per_char :: "XCharStruct list option"

definition CI_NONEXISTCHAR :: "XCharStruct \<Rightarrow> bool" where
  "CI_NONEXISTCHAR cs \<longleftrightarrow> width cs = 0 \<and> (rbearing cs OR lbearing cs OR ascent cs OR descent cs) = 0"

definition metrics_at :: "XCharStruct list \<Rightarrow> u32 \<Rightarrow> XCharStruct option \<Rightarrow> XCharStruct option option" where
  "metrics_at cs i def =
     (if unat i < length cs then Some (if CI_NONEXISTCHAR (cs ! unat i) then def else Some (cs ! unat i)) else None)"

definition CI_GET_CHAR_INFO_1D :: "XFontStruct \<Rightarrow> u32 \<Rightarrow> XCharStruct option \<Rightarrow> XCharStruct option option" where
  "CI_GET_CHAR_INFO_1D fs col def =
     (if col \<ge> min_char_or_byte2 fs \<and> col \<le> max_char_or_byte2 fs then
        (case per_char fs of
           None \<Rightarrow> Some (Some (min_bounds fs))
         | Some cs \<Rightarrow> metrics_at cs (col - min_char_or_byte2 fs) def)
      else Some def)"

definition CI_GET_DEFAULT_INFO_1D :: "XFontStruct \<Rightarrow> XCharStruct option option" where
  "CI_GET_DEFAULT_INFO_1D fs = CI_GET_CHAR_INFO_1D fs (default_char fs) None"

definition CI_GET_CHAR_INFO_2D :: "XFontStruct \<Rightarrow> u32 \<Rightarrow> u32 \<Rightarrow> XCharStruct option \<Rightarrow> XCharStruct option option" where
  "CI_GET_CHAR_INFO_2D fs row col def =
     (if row \<ge> min_byte1 fs \<and> row \<le> max_byte1 fs \<and> col \<ge> min_char_or_byte2 fs \<and> col \<le> max_char_or_byte2 fs then
        (case per_char fs of
           None \<Rightarrow> Some (Some (min_bounds fs))
         | Some cs \<Rightarrow>
             metrics_at cs ((row - min_byte1 fs) * (max_char_or_byte2 fs - min_char_or_byte2 fs + 1)
               + (col - min_char_or_byte2 fs)) def)
      else Some def)"

definition CI_GET_DEFAULT_INFO_2D :: "XFontStruct \<Rightarrow> XCharStruct option option" where
  "CI_GET_DEFAULT_INFO_2D fs =
     (let r = drop_bit 8 (default_char fs);
          c = default_char fs AND 0xff
      in CI_GET_CHAR_INFO_2D fs r c None)"

section \<open>Fonts\<close>

abbreviation columns :: "XFontStruct \<Rightarrow> nat" where
  "columns fs \<equiv> unat (max_char_or_byte2 fs) - unat (min_char_or_byte2 fs) + 1"

abbreviation rows :: "XFontStruct \<Rightarrow> nat" where
  "rows fs \<equiv> unat (max_byte1 fs) - unat (min_byte1 fs) + 1"

text \<open>A font as a server sends it: bytes for bounds, in order, and metrics for each character of the matrix or for none.\<close>

definition font_ok :: "XFontStruct \<Rightarrow> bool" where
  "font_ok fs \<longleftrightarrow> min_char_or_byte2 fs \<le> max_char_or_byte2 fs \<and> max_char_or_byte2 fs < 65536
     \<and> min_byte1 fs \<le> max_byte1 fs \<and> max_byte1 fs < 256 \<and> rows fs * columns fs < 2 ^ 32
     \<and> (case per_char fs of None \<Rightarrow> True | Some cs \<Rightarrow> length cs = rows fs * columns fs)"

definition in_matrix :: "XFontStruct \<Rightarrow> u32 \<Rightarrow> u32 \<Rightarrow> bool" where
  "in_matrix fs row col \<longleftrightarrow> min_byte1 fs \<le> row \<and> row \<le> max_byte1 fs \<and> min_char_or_byte2 fs \<le> col \<and> col \<le> max_char_or_byte2 fs"

text \<open>What the lookup means: the metrics in the row and column of the matrix, unless the character is not there.\<close>

definition glyph :: "XFontStruct \<Rightarrow> u32 \<Rightarrow> u32 \<Rightarrow> XCharStruct option" where
  "glyph fs row col =
     (if in_matrix fs row col
      then (case per_char fs of
              None \<Rightarrow> Some (min_bounds fs)
            | Some cs \<Rightarrow>
                let c = cs ! ((unat row - unat (min_byte1 fs)) * columns fs + (unat col - unat (min_char_or_byte2 fs)))
                in if CI_NONEXISTCHAR c then None else Some c)
      else None)"

lemma nonexist_iff:
  "CI_NONEXISTCHAR cs \<longleftrightarrow> width cs = 0 \<and> lbearing cs = 0 \<and> rbearing cs = 0 \<and> ascent cs = 0 \<and> descent cs = 0"
  by (auto simp: CI_NONEXISTCHAR_def or_eq_0_iff)

lemma matrix_index:
  assumes "font_ok fs" "in_matrix fs row col"
  defines "i \<equiv> (row - min_byte1 fs) * (max_char_or_byte2 fs - min_char_or_byte2 fs + 1) + (col - min_char_or_byte2 fs)"
  shows "unat i = (unat row - unat (min_byte1 fs)) * columns fs + (unat col - unat (min_char_or_byte2 fs))"
    and "unat i < rows fs * columns fs"
proof -
  let ?r = "unat row - unat (min_byte1 fs)" and ?c = "unat col - unat (min_char_or_byte2 fs)"
  have b: "unat (row - min_byte1 fs) = ?r" "unat (col - min_char_or_byte2 fs) = ?c"
    "unat (max_char_or_byte2 fs - min_char_or_byte2 fs) = columns fs - 1"
    using assms(1,2) by (simp_all add: font_ok_def in_matrix_def unat_sub)
  have lt: "?r < rows fs" "?c < columns fs"
    using assms(1,2) by (auto simp: font_ok_def in_matrix_def word_le_nat_alt less_Suc_eq_le intro: diff_le_mono)
  have idx: "?r * columns fs + ?c < rows fs * columns fs"
  proof -
    have "?r * columns fs + ?c < ?r * columns fs + columns fs" using lt(2) by simp
    also have "\<dots> = (?r + 1) * columns fs" by simp
    also have "\<dots> \<le> rows fs * columns fs" using lt(1) by (intro mult_le_mono1) simp
    finally show ?thesis .
  qed
  have fits: "rows fs * columns fs < 2 ^ 32" using assms(1) by (simp add: font_ok_def)
  have "unat (max_char_or_byte2 fs) < 65536" using assms(1) by (simp add: font_ok_def word_less_nat_alt)
  then have "columns fs - 1 < 4294967295" by linarith
  then have c: "unat (max_char_or_byte2 fs - min_char_or_byte2 fs + 1) = columns fs"
    using b(3) unat_add_lem [of "max_char_or_byte2 fs - min_char_or_byte2 fs" 1] by simp
  have "?r * columns fs < 2 ^ LENGTH(32)" using idx fits by simp
  then have p: "unat ((row - min_byte1 fs) * (max_char_or_byte2 fs - min_char_or_byte2 fs + 1)) = ?r * columns fs"
    using unat_mult_lem [of "row - min_byte1 fs" "max_char_or_byte2 fs - min_char_or_byte2 fs + 1"] unfolding b(1) c by blast
  have "?r * columns fs + ?c < 2 ^ LENGTH(32)" using idx fits by simp
  then show "unat i = ?r * columns fs + ?c"
    using unat_add_lem [of "(row - min_byte1 fs) * (max_char_or_byte2 fs - min_char_or_byte2 fs + 1)" "col - min_char_or_byte2 fs"]
    unfolding i_def p b(2) by blast
  then show "unat i < rows fs * columns fs" using idx by simp
qed

text \<open>
  (C30) In a font that is well formed a lookup never leaves the array, and gives the metrics of the character if it is in the font
  and exists, and the default otherwise; in a font with one row, row 0, both lookups agree.
\<close>

theorem char_info_exact:
  assumes "font_ok fs"
  shows "CI_GET_CHAR_INFO_2D fs row col def = Some (case glyph fs row col of None \<Rightarrow> def | Some c \<Rightarrow> Some c)
    \<and> (max_byte1 fs = 0 \<longrightarrow> CI_GET_CHAR_INFO_1D fs col def = CI_GET_CHAR_INFO_2D fs 0 col def)"
proof -
  have two: "CI_GET_CHAR_INFO_2D fs r col def = Some (case glyph fs r col of None \<Rightarrow> def | Some c \<Rightarrow> Some c)" for r
  proof (cases "in_matrix fs r col")
    case True
    show ?thesis
    proof (cases "per_char fs")
      case None
      then show ?thesis using True by (simp add: CI_GET_CHAR_INFO_2D_def glyph_def in_matrix_def)
    next
      case (Some cs)
      let ?i = "(r - min_byte1 fs) * (max_char_or_byte2 fs - min_char_or_byte2 fs + 1) + (col - min_char_or_byte2 fs)"
      have "length cs = rows fs * columns fs" using assms Some unfolding font_ok_def by simp
      then have i: "unat ?i < length cs" using matrix_index(2) [OF assms True] by (simp only:)
      have "CI_GET_CHAR_INFO_2D fs r col def = metrics_at cs ?i def"
        using True Some by (simp add: CI_GET_CHAR_INFO_2D_def in_matrix_def)
      moreover have "glyph fs r col = (let c = cs ! unat ?i in if CI_NONEXISTCHAR c then None else Some c)"
        unfolding glyph_def matrix_index(1) [OF assms True] using True Some by simp
      ultimately show ?thesis using i by (simp add: metrics_at_def Let_def)
    qed
  next
    case False
    then show ?thesis by (auto simp: CI_GET_CHAR_INFO_2D_def glyph_def in_matrix_def)
  qed
  have "CI_GET_CHAR_INFO_1D fs col def = CI_GET_CHAR_INFO_2D fs 0 col def" if "max_byte1 fs = 0"
  proof -
    have "min_byte1 fs = 0" using assms that by (simp add: font_ok_def)
    then show ?thesis using that by (cases "per_char fs") (simp_all add: CI_GET_CHAR_INFO_1D_def CI_GET_CHAR_INFO_2D_def)
  qed
  then show ?thesis using two by blast
qed

theorem char_info_exact_witness:
  "CI_GET_CHAR_INFO_2D \<lparr>min_char_or_byte2 = 32, max_char_or_byte2 = 33, min_byte1 = 1, max_byte1 = 2, default_char = 0,
      min_bounds = \<lparr>lbearing = 0, rbearing = 0, width = 9, ascent = 0, descent = 0\<rparr>, per_char = None\<rparr> 2 34 None = Some None"
proof -
  let ?fs = "\<lparr>min_char_or_byte2 = 32, max_char_or_byte2 = 33, min_byte1 = 1, max_byte1 = 2, default_char = 0,
      min_bounds = \<lparr>lbearing = 0, rbearing = 0, width = 9, ascent = 0, descent = 0\<rparr>, per_char = None\<rparr>"
  have "font_ok ?fs" by (simp add: font_ok_def)
  from char_info_exact [OF this, of 2 34 None] show ?thesis by (simp add: glyph_def in_matrix_def)
qed

end
