(* ===== verification/Gc_Inline.thy ===== *)
theory Gc_Inline
  imports Prelude "HOL-Library.Monad_Syntax" "HOL-Library.Multiset"
begin

text \<open>
  The inline allocator of the garbage collector: \<open>include/gc/gc_inline.h\<close> with the sizes of \<open>include/gc/gc_tiny_fl.h\<close>. A client
  keeps an array of free lists, one for each size in granules; an entry is a list of objects that are linked
  through their first words, a counter of the objects that have been allocated directly, or a null pointer.
  The library that fills the lists is not in this repository; its answers are part of the state.
\<close>

section \<open>State\<close>

definition GC_TINY_FREELISTS :: nat where
  "GC_TINY_FREELISTS = 25"

definition GC_GRANULE_PTRS :: nat where
  "GC_GRANULE_PTRS = 2"

definition GC_GRANULE_BYTES :: nat where
  "GC_GRANULE_BYTES = GC_GRANULE_PTRS * 8"

definition GC_PTRS_TO_GRANULES :: "nat \<Rightarrow> nat" where
  "GC_PTRS_TO_GRANULES n = n div GC_GRANULE_PTRS"

definition GC_PTRS_TO_WHOLE_GRANULES :: "nat \<Rightarrow> nat" where
  "GC_PTRS_TO_WHOLE_GRANULES n = GC_PTRS_TO_GRANULES (n + GC_GRANULE_PTRS - 1)"

definition GC_RAW_BYTES_FROM_INDEX :: "nat \<Rightarrow> nat" where
  "GC_RAW_BYTES_FROM_INDEX i = i * GC_GRANULE_BYTES"

text \<open>
  The free lists, the words of memory, and the library: the lists that it will return and the single objects, the
  null pointer when there are no more; \<open>asked\<close> is the size and kind of every call for a list.
\<close>

record gcs =
  tiny_fl :: "nat \<Rightarrow> u64"
  gmem :: "u64 \<Rightarrow> u64"
  batches :: "u64 list list"
  singles :: "u64 list"
  asked :: "(nat \<times> nat) list"

section \<open>The library\<close>

text \<open>What the header says of it: a list of objects linked through the first pointer in each, assigned to the result.\<close>

fun link_objects :: "u64 list \<Rightarrow> (u64 \<Rightarrow> u64) \<Rightarrow> u64 \<Rightarrow> u64" where
  "link_objects [] m = m"
| "link_objects [x] m = m(x := 0)"
| "link_objects (x # y # ys) m = (link_objects (y # ys) m)(x := y)"

definition GC_generic_malloc_many :: "nat \<Rightarrow> nat \<Rightarrow> nat \<Rightarrow> gcs \<Rightarrow> gcs" where
  "GC_generic_malloc_many lb k my_fl s =
     (let s = s\<lparr>asked := (lb, k) # asked s\<rparr>
      in case batches s of
           (x # xs) # bs \<Rightarrow> s\<lparr>tiny_fl := (tiny_fl s)(my_fl := x), gmem := link_objects (x # xs) (gmem s), batches := bs\<rparr>
         | [] # bs \<Rightarrow> s\<lparr>tiny_fl := (tiny_fl s)(my_fl := 0), batches := bs\<rparr>
         | [] \<Rightarrow> s\<lparr>tiny_fl := (tiny_fl s)(my_fl := 0)\<rparr>)"

definition GC_malloc_kind :: "nat \<Rightarrow> nat \<Rightarrow> gcs \<Rightarrow> u64 \<times> gcs" where
  "GC_malloc_kind lb k s = (case singles s of p # ps \<Rightarrow> (p, s\<lparr>singles := ps\<rparr>) | [] \<Rightarrow> (0, s))"

section \<open>The macros\<close>

definition GC_FAST_M_AO_STORE :: "nat \<Rightarrow> u64 \<Rightarrow> gcs \<Rightarrow> gcs" where
  "GC_FAST_M_AO_STORE my_fl next s = s\<lparr>tiny_fl := (tiny_fl s)(my_fl := next)\<rparr>"

text \<open>
  The loop of \<open>GC_FAST_MALLOC_GRANS\<close>; \<open>default_expr\<close> and \<open>init\<close> are its arguments, the latter applied to the result. The
  write barriers, the prefetch and the assertions change nothing.
\<close>

partial_function (option) fast_malloc_loop ::
  "u64 \<Rightarrow> nat \<Rightarrow> nat \<Rightarrow> (gcs \<Rightarrow> u64 \<times> gcs) \<Rightarrow> (u64 \<Rightarrow> gcs \<Rightarrow> gcs) \<Rightarrow> (nat \<Rightarrow> u64) \<Rightarrow> u64 \<Rightarrow> gcs \<Rightarrow> (u64 \<times> gcs) option" where
  "fast_malloc_loop num_direct lg k default_expr init oom_fn my_entry s =
     (if my_entry > num_direct + word_of_nat GC_TINY_FREELISTS + 1 then
        (let next = gmem s my_entry;
             result = my_entry;
             s = GC_FAST_M_AO_STORE lg next s;
             s = init result s
         in Some (result, s))
      else if sint my_entry - sint num_direct \<le> 0 \<and> my_entry \<noteq> 0 then
        Some (default_expr (GC_FAST_M_AO_STORE lg (my_entry + word_of_nat lg + 1) s))
      else
        (let s = GC_generic_malloc_many (if 0 = lg then GC_GRANULE_BYTES else GC_RAW_BYTES_FROM_INDEX lg) k lg s;
             my_entry = tiny_fl s lg
         in if my_entry = 0 then Some (oom_fn (lg * GC_GRANULE_BYTES), s)
            else fast_malloc_loop num_direct lg k default_expr init oom_fn my_entry s))"

definition GC_FAST_MALLOC_GRANS ::
  "nat \<Rightarrow> u64 \<Rightarrow> nat \<Rightarrow> (gcs \<Rightarrow> u64 \<times> gcs) \<Rightarrow> (u64 \<Rightarrow> gcs \<Rightarrow> gcs) \<Rightarrow> (nat \<Rightarrow> u64) \<Rightarrow> gcs \<Rightarrow> (u64 \<times> gcs) option" where
  "GC_FAST_MALLOC_GRANS lg num_direct k default_expr init oom_fn s =
     (if lg \<ge> GC_TINY_FREELISTS then Some (default_expr s)
      else fast_malloc_loop num_direct lg k default_expr init oom_fn (tiny_fl s lg) s)"

definition GC_MALLOC_WORDS_KIND :: "nat \<Rightarrow> nat \<Rightarrow> (u64 \<Rightarrow> gcs \<Rightarrow> gcs) \<Rightarrow> (nat \<Rightarrow> u64) \<Rightarrow> gcs \<Rightarrow> (u64 \<times> gcs) option" where
  "GC_MALLOC_WORDS_KIND n k init oom_fn s =
     (let lg = GC_PTRS_TO_WHOLE_GRANULES n
      in GC_FAST_MALLOC_GRANS lg 0 k (GC_malloc_kind (lg * GC_GRANULE_BYTES) k) init oom_fn s)"

definition store_at :: "u64 \<Rightarrow> u64 \<Rightarrow> gcs \<Rightarrow> gcs" where
  "store_at a v s = s\<lparr>gmem := (gmem s)(a := v)\<rparr>"

definition GC_MALLOC_WORDS :: "nat \<Rightarrow> (nat \<Rightarrow> u64) \<Rightarrow> gcs \<Rightarrow> (u64 \<times> gcs) option" where
  "GC_MALLOC_WORDS n oom_fn s = GC_MALLOC_WORDS_KIND n 1 (\<lambda>result. store_at result 0) oom_fn s"

definition GC_MALLOC_ATOMIC_WORDS :: "nat \<Rightarrow> (nat \<Rightarrow> u64) \<Rightarrow> gcs \<Rightarrow> (u64 \<times> gcs) option" where
  "GC_MALLOC_ATOMIC_WORDS n oom_fn s = GC_MALLOC_WORDS_KIND n 0 (\<lambda>result s. s) oom_fn s"

definition GC_CONS :: "u64 \<Rightarrow> u64 \<Rightarrow> (nat \<Rightarrow> u64) \<Rightarrow> gcs \<Rightarrow> (u64 \<times> gcs) option" where
  "GC_CONS l r oom_fn s = do {
     (result, s) \<leftarrow> GC_MALLOC_WORDS_KIND 2 1 (\<lambda>result s. s) oom_fn s;
     if result \<noteq> 0 then Some (result, store_at (result + 8) r (store_at result l s))
     else Some (result, s)
   }"

section \<open>Free lists as lists\<close>

text \<open>The largest entry that is not a pointer.\<close>

abbreviation small :: "u64 \<Rightarrow> u64" where
  "small num_direct \<equiv> num_direct + word_of_nat GC_TINY_FREELISTS + 1"

fun fl_chain :: "u64 \<Rightarrow> (u64 \<Rightarrow> u64) \<Rightarrow> u64 \<Rightarrow> u64 list \<Rightarrow> bool" where
  "fl_chain nd m p [] \<longleftrightarrow> p \<le> small nd"
| "fl_chain nd m p (x # xs) \<longleftrightarrow> p = x \<and> small nd < x \<and> fl_chain nd m (m x) xs"

inductive on_list :: "u64 \<Rightarrow> (u64 \<Rightarrow> u64) \<Rightarrow> u64 \<Rightarrow> u64 \<Rightarrow> bool" for nd m where
  here: "small nd < p \<Longrightarrow> on_list nd m p p"
| further: "small nd < p \<Longrightarrow> on_list nd m (m p) a \<Longrightarrow> on_list nd m p a"

lemma on_list_chain: "on_list nd m p a \<Longrightarrow> fl_chain nd m p xs \<Longrightarrow> a \<in> set xs"
proof (induction arbitrary: xs rule: on_list.induct)
  case (here p)
  then show ?case by (cases xs) auto
next
  case (further p a)
  then show ?case by (cases xs) auto
qed

lemma fl_chain_on_list: "fl_chain nd m p xs \<Longrightarrow> a \<in> set xs \<Longrightarrow> on_list nd m p a"
  by (induction nd m p xs rule: fl_chain.induct) (auto intro: on_list.intros)

lemma fl_chain_frame: "fl_chain nd m p xs \<Longrightarrow> \<forall>x \<in> set xs. m' x = m x \<Longrightarrow> fl_chain nd m' p xs"
  by (induction nd m p xs rule: fl_chain.induct) auto

lemma link_objects_other: "a \<notin> set xs \<Longrightarrow> link_objects xs m a = m a"
  by (induction xs m rule: link_objects.induct) auto

lemma link_objects_chain:
  "distinct (x # xs) \<Longrightarrow> \<forall>y \<in> set (x # xs). small nd < y \<Longrightarrow> fl_chain nd (link_objects (x # xs) m) x (x # xs)"
proof (induction "x # xs" m arbitrary: x xs rule: link_objects.induct)
  case (3 x y ys m)
  let ?m = "link_objects (y # ys) m"
  have "fl_chain nd ?m y (y # ys)" using 3 by simp
  then have "fl_chain nd (?m(x := y)) y (y # ys)" by (rule fl_chain_frame) (use 3(2) in auto)
  then show ?case using 3(3) by simp
qed simp


section \<open>Every object has one owner\<close>

text \<open>
  All objects there are: those given to the client, those on the lists, and those that the library will return. The
  invariant is that no object is among them twice, and that the entries of the array are the lists.
\<close>

definition objects :: "gcs \<Rightarrow> (nat \<Rightarrow> u64 list) \<Rightarrow> u64 list \<Rightarrow> u64 multiset" where
  "objects s L given = mset given + (\<Sum>i<25. mset (L i)) + mset (concat (batches s)) + mset (singles s)"

definition gc_inv :: "u64 \<Rightarrow> gcs \<Rightarrow> (nat \<Rightarrow> u64 list) \<Rightarrow> u64 list \<Rightarrow> bool" where
  "gc_inv nd s L given \<longleftrightarrow> (\<forall>i<25. fl_chain nd (gmem s) (tiny_fl s i) (L i)) \<and> (\<forall>a. count (objects s L given) a \<le> 1)
     \<and> (\<forall>p \<in> set (concat (batches s)). small nd < p)"

text \<open>An initialization writes at most the first word of the result.\<close>

definition init_ok :: "(u64 \<Rightarrow> gcs \<Rightarrow> gcs) \<Rightarrow> bool" where
  "init_ok init \<longleftrightarrow> (\<forall>p s. \<exists>v. init p s = store_at p v s)"

lemma sum_update:
  fixes f :: "'b \<Rightarrow> 'c multiset"
  assumes "i < (n :: nat)"
  shows "(\<Sum>j<n. f ((L(i := v)) j)) + f (L i) = (\<Sum>j<n. f (L j)) + f v"
proof -
  have "(\<Sum>j<n. f ((L(i := v)) j)) = f v + (\<Sum>j\<in>{..<n} - {i}. f (L j))"
    using assms by (subst sum.remove [of _ i]) auto
  moreover have "(\<Sum>j<n. f (L j)) = f (L i) + (\<Sum>j\<in>{..<n} - {i}. f (L j))"
    using assms by (intro sum.remove) auto
  ultimately show ?thesis by (simp add: ac_simps)
qed

lemma lists_apart:
  assumes "\<forall>a. count (objects s L given) a \<le> 1" "i < 25" "j < 25" "i \<noteq> j" "x \<in> set (L i)"
  shows "x \<notin> set (L j)"
proof
  assume "x \<in> set (L j)"
  have "(\<Sum>k<25. mset (L k)) = mset (L i) + (mset (L j) + (\<Sum>k\<in>{..<25} - {i} - {j}. mset (L k)))"
    using assms(2-4) by (simp add: sum.remove [of "{..<25}" i] sum.remove [of "{..<25} - {i}" j])
  then have "count (\<Sum>k<25. mset (L k)) x \<ge> count (mset (L i)) x + count (mset (L j)) x" by simp
  moreover have "count (mset (L i)) x \<ge> 1" "count (mset (L j)) x \<ge> 1"
    using assms(5) \<open>x \<in> set (L j)\<close> by (simp_all flip: count_greater_eq_one_iff)
  moreover have "count (objects s L given) x \<le> 1" using assms(1) by blast
  ultimately show False unfolding objects_def count_union by linarith
qed

lemma distinct_if_once: "\<forall>a. count (mset xs) a \<le> 1 \<Longrightarrow> distinct xs"
proof (induction xs)
  case (Cons x xs)
  have "count (mset xs) x + 1 \<le> 1" using Cons.prems [rule_format, of x] by simp
  then have "x \<notin> set xs" by (simp flip: count_mset_0_iff)
  moreover have "\<forall>a. count (mset xs) a \<le> 1"
  proof
    fix a
    have "count (mset xs) a \<le> count (mset (x # xs)) a" by simp
    then show "count (mset xs) a \<le> 1" using Cons.prems order_trans by blast
  qed
  ultimately show ?case using Cons.IH by simp
qed simp

lemma list_distinct:
  assumes "\<forall>a. count (objects s L given) a \<le> 1" "i < 25"
  shows "distinct (L i)"
proof -
  have "mset (L i) \<subseteq># (\<Sum>k<25. mset (L k))"
    using assms(2) by (metis finite_lessThan lessThan_iff sum.remove mset_subset_eq_add_left)
  then have c: "count (mset (L i)) a \<le> count (\<Sum>k<25. mset (L k)) a" for a by (rule mset_subset_eq_count)
  have "count (mset (L i)) a \<le> 1" for a
    using assms(1) [rule_format, of a] c [of a] unfolding objects_def count_union by linarith
  then show ?thesis by (intro distinct_if_once allI)
qed

lemma batch_apart:
  assumes "\<forall>a. count (objects s L given) a \<le> 1" "x \<in> set (concat (batches s))" "i < 25"
  shows "x \<notin> set (L i)"
proof
  assume "x \<in> set (L i)"
  have "mset (L i) \<subseteq># (\<Sum>k<25. mset (L k))"
    using assms(3) by (metis finite_lessThan lessThan_iff sum.remove mset_subset_eq_add_left)
  then have "count (mset (L i)) x \<le> count (\<Sum>k<25. mset (L k)) x" by (rule mset_subset_eq_count)
  moreover have "count (mset (L i)) x \<ge> 1" "count (mset (concat (batches s))) x \<ge> 1"
    using assms(2) \<open>x \<in> set (L i)\<close> by (simp_all flip: count_greater_eq_one_iff)
  moreover have "count (objects s L given) x \<le> 1" using assms(1) by blast
  ultimately show False unfolding objects_def count_union by linarith
qed

lemma given_distinct:
  assumes "\<forall>a. count (objects s L given) a \<le> 1"
  shows "distinct given"
proof -
  have "count (mset given) a \<le> 1" for a
    using assms [rule_format, of a] unfolding objects_def count_union by linarith
  then show ?thesis by (intro distinct_if_once allI)
qed

text \<open>Taking the first object of a list.\<close>

lemma pop_keeps:
  assumes inv: "gc_inv nd s L given" and lg: "lg < 25" and L: "L lg = x # xs" and init: "init_ok init"
  shows "gc_inv nd (init x (GC_FAST_M_AO_STORE lg (gmem s x) s)) (L(lg := xs)) (x # given)"
proof -
  obtain v where v: "init x (GC_FAST_M_AO_STORE lg (gmem s x) s) = store_at x v (GC_FAST_M_AO_STORE lg (gmem s x) s)"
    using init by (auto simp: init_ok_def)
  let ?s = "store_at x v (GC_FAST_M_AO_STORE lg (gmem s x) s)"
  have d: "\<forall>a. count (objects s L given) a \<le> 1" using inv by (simp add: gc_inv_def)
  have "distinct (x # xs)" using list_distinct [OF d lg] L by simp
  then have "fl_chain nd (gmem ?s) (tiny_fl ?s i) ((L(lg := xs)) i)" if "i < 25" for i
  proof (cases "i = lg")
    case True
    have "fl_chain nd (gmem s) (gmem s x) xs" using inv lg L by (auto simp: gc_inv_def)
    then show ?thesis using True \<open>distinct (x # xs)\<close>
      by (auto simp: store_at_def GC_FAST_M_AO_STORE_def intro: fl_chain_frame)
  next
    case False
    have "x \<notin> set (L i)" using lists_apart [OF d lg that] False L by auto
    moreover have "fl_chain nd (gmem s) (tiny_fl s i) (L i)" using inv that by (simp add: gc_inv_def)
    ultimately show ?thesis using False by (auto simp: store_at_def GC_FAST_M_AO_STORE_def intro: fl_chain_frame)
  qed
  moreover have "objects ?s (L(lg := xs)) (x # given) = objects s L given"
    using sum_update [OF lg, of mset L xs] L by (simp add: objects_def store_at_def GC_FAST_M_AO_STORE_def)
  ultimately show ?thesis using inv unfolding v gc_inv_def by (simp add: store_at_def GC_FAST_M_AO_STORE_def)
qed


text \<open>The library fills an empty list.\<close>

lemma refill_keeps:
  assumes inv: "gc_inv nd s L given" and lg: "lg < 25" and L: "L lg = []"
  shows "\<exists>xs. gc_inv nd (GC_generic_malloc_many lb k lg s) (L(lg := xs)) given
    \<and> (if xs = [] then tiny_fl (GC_generic_malloc_many lb k lg s) lg = 0 else small nd < tiny_fl (GC_generic_malloc_many lb k lg s) lg)"
proof -
  let ?t = "GC_generic_malloc_many lb k lg s"
  have d: "\<forall>a. count (objects s L given) a \<le> 1" using inv by (simp add: gc_inv_def)
  have Lid: "L(lg := []) = L" using L by auto
  consider (none) "batches s = []" | (null) bs where "batches s = [] # bs" | (some) x xs bs where "batches s = (x # xs) # bs"
    by (metis list.exhaust)
  then show ?thesis
  proof cases
    case none
    then have "gc_inv nd ?t (L(lg := [])) given" unfolding Lid using inv L
      by (simp add: gc_inv_def GC_generic_malloc_many_def Let_def objects_def)
    then show ?thesis using none by (intro exI [of _ "[]"]) (simp add: GC_generic_malloc_many_def Let_def)
  next
    case null
    then have "gc_inv nd ?t (L(lg := [])) given" unfolding Lid using inv L
      by (simp add: gc_inv_def GC_generic_malloc_many_def Let_def objects_def)
    then show ?thesis using null by (intro exI [of _ "[]"]) (simp add: GC_generic_malloc_many_def Let_def)
  next
    case some
    let ?m = "link_objects (x # xs) (gmem s)"
    have t: "tiny_fl ?t = (tiny_fl s)(lg := x)" "gmem ?t = ?m" "batches ?t = bs" "singles ?t = singles s"
      using some by (simp_all add: GC_generic_malloc_many_def Let_def)
    have big: "\<forall>y \<in> set (x # xs). small nd < y" using inv some by (auto simp: gc_inv_def)
    have "mset (concat (batches s)) = mset (x # xs) + mset (concat bs)" using some by simp
    then have "count (mset (x # xs)) a \<le> 1" for a
      using d [rule_format, of a] unfolding objects_def by (simp only: count_union)
    then have "fl_chain nd ?m x (x # xs)" using big by (intro link_objects_chain distinct_if_once allI)
    moreover have "fl_chain nd ?m (tiny_fl s i) (L i)" if "i < 25" for i
    proof (rule fl_chain_frame)
      show "fl_chain nd (gmem s) (tiny_fl s i) (L i)" using inv that by (simp add: gc_inv_def)
      show "\<forall>y \<in> set (L i). ?m y = gmem s y"
        using batch_apart [OF d _ that] some by (auto intro!: link_objects_other)
    qed
    ultimately have "fl_chain nd (gmem ?t) (tiny_fl ?t i) ((L(lg := x # xs)) i)" if "i < 25" for i
      using that by (simp add: t)
    moreover have "objects ?t (L(lg := x # xs)) given = objects s L given"
      using sum_update [OF lg, of mset L "x # xs"] L some by (simp add: objects_def t)
    ultimately have "gc_inv nd ?t (L(lg := x # xs)) given" using inv some by (simp add: gc_inv_def t)
    then show ?thesis using big by (intro exI [of _ "x # xs"]) (simp add: t)
  qed
qed

lemma malloc_kind_keeps:
  assumes "gc_inv nd s L given"
  shows "\<exists>p s'. GC_malloc_kind lb k s = (p, s') \<and> gc_inv nd s' L (if p = 0 then given else p # given)"
proof (cases "singles s")
  case (Cons p ps)
  then have o: "objects (s\<lparr>singles := ps\<rparr>) L (p # given) = objects s L given" by (simp add: objects_def)
  have "objects (s\<lparr>singles := ps\<rparr>) L given \<subseteq># objects s L given" unfolding o [symmetric] by (simp add: objects_def)
  then have "count (objects (s\<lparr>singles := ps\<rparr>) L given) a \<le> 1" for a
    using assms mset_subset_eq_count order_trans unfolding gc_inv_def by metis
  then have "gc_inv nd (s\<lparr>singles := ps\<rparr>) L (if p = 0 then given else p # given)"
    using assms o by (simp add: gc_inv_def)
  then show ?thesis using Cons by (auto simp: GC_malloc_kind_def)
qed (use assms in \<open>simp add: GC_malloc_kind_def\<close>)

lemma sint_small: "unat w < 2 ^ 63 \<Longrightarrow> sint w = uint w" for w :: u64
proof -
  assume "unat w < 2 ^ 63"
  then have "int (unat w) < int (2 ^ 63)" by (simp only: of_nat_less_iff)
  then have "uint w < 2 ^ 63" by simp
  moreover have "- (2 ^ 63) \<le> uint w" by (rule order_trans [of _ 0]) simp_all
  ultimately have "signed_take_bit 63 (uint w) = uint w" by (intro signed_take_bit_int_eq_self)
  then show ?thesis by (simp add: sint_uint)
qed

lemma unat_small: "nd < 2 ^ 62 \<Longrightarrow> unat (small nd) = unat nd + 26"
proof -
  assume "nd < 2 ^ 62"
  then have "unat nd < 2 ^ 62" by (simp add: word_less_nat_alt)
  then have "unat (nd + 26) = unat nd + 26" using unat_add_lem [of nd 26] by simp
  moreover have "small nd = nd + 26" by (simp add: GC_TINY_FREELISTS_def add.commute)
  ultimately show ?thesis by (simp only:)
qed

text \<open>Allocation directly from the library moves the counter; it is still no pointer.\<close>

lemma direct_keeps:
  assumes inv: "gc_inv nd s L given" and lg: "lg < 25" and L: "L lg = []" and e: "sint e - sint nd \<le> 0" "e \<le> small nd"
    and nd: "nd < 2 ^ 62"
  shows "gc_inv nd (GC_FAST_M_AO_STORE lg (e + word_of_nat lg + 1) s) L given"
proof -
  have n: "unat nd < 2 ^ 62" using nd by (simp add: word_less_nat_alt)
  have b: "unat e \<le> unat nd + 26" using e(2) unat_small [OF nd] by (simp add: word_le_nat_alt)
  have "sint e = uint e" "sint nd = uint nd" using b n by (auto intro!: sint_small)
  then have le: "unat e \<le> unat nd" using e(1) by (simp flip: word_le_nat_alt add: word_le_def)
  have "unat (e + word_of_nat lg + 1) = unat e + lg + 1"
  proof -
    have "e + word_of_nat lg + 1 = e + word_of_nat (lg + 1)" by simp
    moreover have w: "unat (word_of_nat (lg + 1) :: u64) = lg + 1"
      using lg unat_of_nat [of "lg + 1", where 'a = 64] by (simp del: of_nat_Suc of_nat_add)
    moreover have "unat (e + word_of_nat (lg + 1)) = unat e + (lg + 1)"
      using unat_add_lem [of e "word_of_nat (lg + 1)"] le n lg unfolding w by simp
    ultimately show ?thesis by (simp only: add.assoc)
  qed
  then have "e + word_of_nat lg + 1 \<le> small nd" using le lg unat_small [OF nd] by (simp add: word_le_nat_alt)
  then show ?thesis using inv L by (auto simp: gc_inv_def GC_FAST_M_AO_STORE_def objects_def)
qed


text \<open>What an allocation does in each of its cases.\<close>

lemma pop_runs:
  assumes t: "gc_inv nd t M given" "small nd < tiny_fl t lg" and lg: "lg < 25" and init: "init_ok init"
  shows "\<exists>p s' L'. fast_malloc_loop nd lg k default_expr init oom_fn (tiny_fl t lg) t = Some (p, s')
    \<and> gc_inv nd s' L' (if p = 0 then given else p # given)"
proof -
  have "fl_chain nd (gmem t) (tiny_fl t lg) (M lg)" using t(1) lg by (simp add: gc_inv_def)
  then obtain x xs where M: "M lg = x # xs" "tiny_fl t lg = x" using t(2) by (cases "M lg") auto
  then have "x \<noteq> 0" using t(2) by auto
  then show ?thesis using pop_keeps [OF t(1) lg M(1) init] t(2) M(2)
    by (subst fast_malloc_loop.simps) (auto simp: Let_def)
qed

lemma fast_malloc_keeps:
  assumes inv: "gc_inv nd s L given" and nd: "nd < 2 ^ 62" and init: "init_ok init"
  shows "\<exists>p s' L'. GC_FAST_MALLOC_GRANS lg nd k (GC_malloc_kind lb k) init (\<lambda>_. 0) s = Some (p, s')
    \<and> gc_inv nd s' L' (if p = 0 then given else p # given)"
proof (cases "lg < 25")
  case lg: True
  let ?e = "tiny_fl s lg"
  have ch: "fl_chain nd (gmem s) ?e (L lg)" using inv lg by (simp add: gc_inv_def)
  have "\<exists>p s' L'. fast_malloc_loop nd lg k (GC_malloc_kind lb k) init (\<lambda>_. 0) ?e s = Some (p, s')
    \<and> gc_inv nd s' L' (if p = 0 then given else p # given)"
  proof (cases "small nd < ?e")
    case True
    then show ?thesis using pop_runs [OF inv _ lg init] by simp
  next
    case False
    then have L: "L lg = []" using ch by (cases "L lg") auto
    show ?thesis
    proof (cases "sint ?e - sint nd \<le> 0 \<and> ?e \<noteq> 0")
      case True
      then have "gc_inv nd (GC_FAST_M_AO_STORE lg (?e + word_of_nat lg + 1) s) L given"
        using direct_keeps [OF inv lg L _ _ nd] False by simp
      from malloc_kind_keeps [OF this, of lb k] obtain p s' where
        p: "GC_malloc_kind lb k (GC_FAST_M_AO_STORE lg (?e + word_of_nat lg + 1) s) = (p, s')"
        "gc_inv nd s' L (if p = 0 then given else p # given)" by blast
      have "fast_malloc_loop nd lg k (GC_malloc_kind lb k) init (\<lambda>_. 0) ?e s = Some (p, s')"
        using True False p(1) by (subst fast_malloc_loop.simps) simp
      then show ?thesis using p(2) by blast
    next
      case direct: False
      let ?lb = "if 0 = lg then GC_GRANULE_BYTES else GC_RAW_BYTES_FROM_INDEX lg"
      let ?t = "GC_generic_malloc_many ?lb k lg s"
      obtain xs where t: "gc_inv nd ?t (L(lg := xs)) given" "if xs = [] then tiny_fl ?t lg = 0 else small nd < tiny_fl ?t lg"
        using refill_keeps [OF inv lg L, of ?lb k] by auto
      have step: "fast_malloc_loop nd lg k (GC_malloc_kind lb k) init (\<lambda>_. 0) ?e s
        = (if tiny_fl ?t lg = 0 then Some (0, ?t)
           else fast_malloc_loop nd lg k (GC_malloc_kind lb k) init (\<lambda>_. 0) (tiny_fl ?t lg) ?t)"
        by (subst fast_malloc_loop.simps) (simp only: False direct if_False Let_def)
      show ?thesis
      proof (cases "xs = []")
        case True
        then show ?thesis using step t by auto
      next
        case False
        then have big: "small nd < tiny_fl ?t lg" using t(2) by simp
        then have "tiny_fl ?t lg \<noteq> 0" by auto
        then show ?thesis using pop_runs [OF t(1) big lg init] unfolding step by simp
      qed
    qed
  qed
  then show ?thesis using lg by (simp add: GC_FAST_MALLOC_GRANS_def GC_TINY_FREELISTS_def)
next
  case False
  then have "GC_FAST_MALLOC_GRANS lg nd k (GC_malloc_kind lb k) init (\<lambda>_. 0) s = Some (GC_malloc_kind lb k s)"
    by (simp add: GC_FAST_MALLOC_GRANS_def GC_TINY_FREELISTS_def)
  then show ?thesis using malloc_kind_keeps [OF inv, of lb k] by metis
qed


section \<open>Runs\<close>

text \<open>
  What a client does: it starts with an array of null pointers or of counters that are 1, allocates objects of any
  size and kind, with an initialization or without, and writes to memory, but never to the objects on its
  free lists. The second component has the objects that it was given.
\<close>

inductive gc_run :: "u64 \<Rightarrow> gcs \<times> u64 list \<Rightarrow> bool" for nd where
  start: "\<forall>i<25. tiny_fl s i \<le> 1 \<Longrightarrow> distinct (concat (batches s) @ singles s)
    \<Longrightarrow> \<forall>p \<in> set (concat (batches s)). small nd < p \<Longrightarrow> gc_run nd (s, [])"
| alloc: "gc_run nd (s, given) \<Longrightarrow> init_ok init
    \<Longrightarrow> GC_FAST_MALLOC_GRANS lg nd k (GC_malloc_kind lb k) init (\<lambda>_. 0) s = Some (p, s')
    \<Longrightarrow> gc_run nd (s', if p = 0 then given else p # given)"
| client: "gc_run nd (s, given) \<Longrightarrow> \<forall>i<25. \<not> on_list nd (gmem s) (tiny_fl s i) a \<Longrightarrow> gc_run nd (store_at a v s, given)"

inductive_cases gc_runE: "gc_run nd (s, given)"

lemma count_distinct: "distinct xs \<Longrightarrow> count (mset xs) a \<le> 1"
  by (simp add: distinct_count_atmost_1)

lemma gc_run_inv:
  assumes "gc_run nd c" "nd < 2 ^ 62"
  shows "\<exists>L. gc_inv nd (fst c) L (snd c)"
  using assms(1)
proof induction
  case (start s)
  have "objects s (\<lambda>_. []) [] = mset (concat (batches s) @ singles s)" by (simp add: objects_def)
  then have "count (objects s (\<lambda>_. []) []) a \<le> 1" for a using count_distinct [OF start(2)] by (simp only:)
  moreover have "tiny_fl s i \<le> small nd" if "i < 25" for i
  proof -
    have "unat (tiny_fl s i) \<le> 1" using start(1) that by (simp add: word_le_nat_alt)
    then show ?thesis using unat_small [OF assms(2)] by (simp add: word_le_nat_alt)
  qed
  ultimately have "gc_inv nd s (\<lambda>_. []) []" using start(3) by (simp add: gc_inv_def)
  then show ?case by auto
next
  case (alloc s given init lg k lb p s')
  then obtain L where "gc_inv nd s L given" by auto
  from fast_malloc_keeps [OF this assms(2) alloc(2), of lg k lb] alloc(3) show ?case by auto
next
  case (client s given a v)
  then obtain L where L: "gc_inv nd s L given" by auto
  have "fl_chain nd (gmem (store_at a v s)) (tiny_fl s i) (L i)" if "i < 25" for i
  proof -
    have c: "fl_chain nd (gmem s) (tiny_fl s i) (L i)" using L that by (simp add: gc_inv_def)
    then have "a \<notin> set (L i)" using client(2) that fl_chain_on_list by blast
    then show ?thesis by (intro fl_chain_frame [OF c]) (auto simp: store_at_def)
  qed
  then have "gc_inv nd (store_at a v s) L given" using L by (simp add: gc_inv_def objects_def store_at_def)
  then show ?case by auto
qed

lemma gc_no_double_lemma:
  assumes "gc_run nd (s, given)" "init_ok init" "nd < 2 ^ 62"
  shows "distinct given \<and> (\<exists>p s'. GC_FAST_MALLOC_GRANS lg nd k (GC_malloc_kind lb k) init (\<lambda>_. 0) s = Some (p, s')
    \<and> p \<notin> set given - {0})"
proof -
  obtain L where L: "gc_inv nd s L given" using gc_run_inv [OF assms(1,3)] by auto
  obtain p s' L' where p: "GC_FAST_MALLOC_GRANS lg nd k (GC_malloc_kind lb k) init (\<lambda>_. 0) s = Some (p, s')"
    "gc_inv nd s' L' (if p = 0 then given else p # given)"
    using fast_malloc_keeps [OF L assms(3,2)] by blast
  have "distinct given" "distinct (if p = 0 then given else p # given)"
    using L p(2) given_distinct unfolding gc_inv_def by blast+
  then show ?thesis using p(1) by (auto split: if_splits)
qed

section \<open>The theorems\<close>

text \<open>
  (C11) Whatever a client allocates and wherever it writes outside of its free lists, every allocation returns, and
  no object is handed out twice: neither when it comes from a list nor when the library gives it directly,
  provided that the library does not return an object twice.
\<close>

theorem gc_no_double_allocation:
  assumes "gc_run nd (s, given)" "nd < 2 ^ 62" "init_ok init"
  shows "distinct given \<and> (\<exists>p s'. GC_FAST_MALLOC_GRANS lg nd k (GC_malloc_kind lb k) init (\<lambda>_. 0) s = Some (p, s')
    \<and> p \<notin> set given - {0})"
  by (rule gc_no_double_lemma [OF assms(1,3,2)])

theorem gc_no_double_allocation_witness:
  "\<exists>p s'. GC_FAST_MALLOC_GRANS 2 0 1 (GC_malloc_kind 32 1) (\<lambda>p. store_at p 0) (\<lambda>_. 0)
     \<lparr>tiny_fl = \<lambda>_. 0, gmem = \<lambda>_. 0, batches = [[1024, 1056]], singles = [], asked = []\<rparr> = Some (p, s')"
proof -
  have "gc_run 0 (\<lparr>tiny_fl = \<lambda>_. 0, gmem = \<lambda>_. 0, batches = [[1024, 1056]], singles = [], asked = []\<rparr>, [])"
    by (rule gc_run.start) (simp_all add: GC_TINY_FREELISTS_def)
  moreover have "init_ok (\<lambda>p. store_at p 0)" by (auto simp: init_ok_def)
  ultimately show ?thesis using gc_no_double_allocation [of 0 _ "[]" "\<lambda>p. store_at p 0" 2 1 32] by auto
qed


text \<open>
  Allocation by words. The size is rounded up to granules without losing a word, and less than two words are added.
  A pair is built in an object that the client did not have before and holds the two pointers, in order.
\<close>

theorem gc_cons_builds:
  assumes "gc_run 0 (s, given)"
  shows "8 * n \<le> GC_PTRS_TO_WHOLE_GRANULES n * GC_GRANULE_BYTES \<and> GC_PTRS_TO_WHOLE_GRANULES n * GC_GRANULE_BYTES < 8 * n + 16
    \<and> (\<exists>p s'. GC_CONS l r (\<lambda>_. 0) s = Some (p, s') \<and> (p \<noteq> 0 \<longrightarrow> p \<notin> set given \<and> gmem s' p = l \<and> gmem s' (p + 8) = r))"
proof -
  have "s = store_at p (gmem s p) s" for p s by (simp add: store_at_def)
  then have init: "init_ok (\<lambda>p s. s)" unfolding init_ok_def by blast
  have "(0 :: u64) < 2 ^ 62" by simp
  from gc_no_double_lemma [OF assms init this] obtain p s' where p: "GC_MALLOC_WORDS_KIND 2 1 (\<lambda>p s. s) (\<lambda>_. 0) s = Some (p, s')" "p \<notin> set given - {0}"
    unfolding GC_MALLOC_WORDS_KIND_def Let_def by blast
  have "p + 8 \<noteq> p" by simp
  then have "GC_CONS l r (\<lambda>_. 0) s = Some (p, s') \<and> p = 0 \<or> (\<exists>s''. GC_CONS l r (\<lambda>_. 0) s = Some (p, s'') \<and> p \<noteq> 0
    \<and> gmem s'' p = l \<and> gmem s'' (p + 8) = r)"
    using p(1) by (auto simp: GC_CONS_def store_at_def)
  moreover have "8 * n \<le> GC_PTRS_TO_WHOLE_GRANULES n * GC_GRANULE_BYTES" "GC_PTRS_TO_WHOLE_GRANULES n * GC_GRANULE_BYTES < 8 * n + 16"
    unfolding GC_PTRS_TO_WHOLE_GRANULES_def GC_PTRS_TO_GRANULES_def GC_GRANULE_BYTES_def GC_GRANULE_PTRS_def by linarith+
  ultimately show ?thesis using p(2) by blast
qed

theorem gc_cons_builds_witness:
  "\<exists>p s'. GC_CONS 7 9 (\<lambda>_. 0) \<lparr>tiny_fl = \<lambda>_. 0, gmem = \<lambda>_. 0, batches = [[1024, 1056]], singles = [], asked = []\<rparr> = Some (p, s')"
proof -
  have "gc_run 0 (\<lparr>tiny_fl = \<lambda>_. 0, gmem = \<lambda>_. 0, batches = [[1024, 1056]], singles = [], asked = []\<rparr>, [])"
    by (rule gc_run.start) (simp_all add: GC_TINY_FREELISTS_def)
  from gc_cons_builds [OF this, of 2 7 9] show ?thesis by blast
qed

end
