(* ===== verification/Spec2Isabelle.thy ===== *)
theory Spec2Isabelle
  imports Cec_Props FdQueue ParseProps ServerProps VectorProps Tipc Virtio
    Queue_Props Netfilter Bcache Usb Swab Encodings
    Fd_Sets Cpu_Sets Search Wait_Status Region Xlib_Requests Xlib_Fonts Gc_Inline
begin

text \<open>
  The repository is the header tree of a Linux root (\<open>src/include\<close>). Most of it declares the
  interfaces of libraries whose code is elsewhere; this development is about the parts that are
  programs: the X transport library, which is distributed as C sources to be included, the
  inline functions and macros of the kernel interface headers, of the C library, of Xlib and of
  the garbage collector.

  \<^bold>\<open>Parts of the program.\<close>

  \<^item> \<open>X11/Xtrans\<close>: connections between X clients and servers. \<open>Xtrans.c\<close> parses network addresses,
    chooses a transport from its table, and calls through the table into \<open>Xtranssock.c\<close>, which
    makes, binds, accepts, connects, reads, writes and closes sockets; \<open>Xtransutil.c\<close> converts
    addresses and makes socket directories; \<open>Xtransint.h\<close> has the data they share: the connection
    (\<open>XtransConnInfo\<close>), its two queues of passed descriptors, and the transports with their flags,
    which are global and change while the program runs.
  \<^item> \<open>linux/cec.h\<close>, \<open>linux/cec-funcs.h\<close>: HDMI-CEC messages, a builder and a parser per message.
  \<^item> \<open>linux/tipc_config.h\<close>: type-length-value lists in configuration messages.
  \<^item> \<open>linux/virtio_ring.h\<close>: the rings shared by a guest and its host.
  \<^item> \<open>sys/queue.h\<close>: linked lists, queues and circular queues whose links are in the elements.
  \<^item> \<open>linux/netlink.h\<close>, \<open>linux/rtnetlink.h\<close>: walks over messages, attributes and next hops in a buffer.
  \<^item> \<open>linux/netfilter/x_tables.h\<close>, \<open>linux/netfilter_bridge/ebtables.h\<close>, \<open>linux/netfilter/xt_sctp.h\<close>: iterators
    over tables of rules, and sets of SCTP chunk types.
  \<^item> \<open>linux/bcache.h\<close>: keys of the block cache, their bit fields and pointers, sets of keys on disk.
  \<^item> \<open>linux/usb/ch9.h\<close>, \<open>linux/usb/audio.h\<close>: endpoint descriptors and audio unit descriptors of variable layout.
  \<^item> \<open>linux/swab.h\<close>, \<open>asm/swab.h\<close>, \<open>bits/byteswap.h\<close>: byte swapping in its constant, builtin, assembler and
    generic variants.
  \<^item> \<open>bits/sysmacros.h\<close>, \<open>linux/kdev_t.h\<close>, \<open>asm-generic/ioctl.h\<close>, \<open>linux/phonet.h\<close>, \<open>sys/time.h\<close> and others: numbers
    that pack several fields, and arithmetic on times.
  \<^item> \<open>sys/select.h\<close>, \<open>bits/select.h\<close>, \<open>bits/select2.h\<close>, \<open>X11/Xpoll.h\<close>: sets of descriptors; \<open>bits/cpu-set.h\<close>, \<open>sched.h\<close>: sets
    of processors. \<open>bits/stdlib-bsearch.h\<close>: binary search. \<open>bits/waitstatus.h\<close>: the status of a child.
  \<^item> \<open>X11/Xregion.h\<close>: clip regions made of boxes. \<open>X11/Xlibint.h\<close>: the output buffer of a display, the length
    of requests, and the metrics of characters.
  \<^item> \<open>gc/gc_inline.h\<close>, \<open>gc/gc_tiny_fl.h\<close>: allocation from the free lists of a client of the collector.

  \<^bold>\<open>The model.\<close> Pure inline functions are HOL functions on machine words of their width; C's promotion
  to \<open>int\<close> and its truncation on a store are written out. The X transport code is a state monad
  (\<open>OS\<close>) over a world with the open descriptors, the live heap blocks, the file mode creation mask,
  \<open>errno\<close>, the transport flags and the cached address list. What a system call answers is a
  parameter of the world, a function of the calls made so far; what it does to the process is part
  of the model. Nothing is assumed of the answers except where a theorem names it (\<open>mem_ok\<close>: memory does
  not run out; \<open>honest\<close>: \<open>write\<close> reports no more than it was given). Undefined behaviour of C
  (a null pointer followed, an access outside of a block, a block freed twice) sets the ghost
  flag \<open>w_fault\<close>, closing a descriptor that is not open sets \<open>w_badfd\<close>. A build is a record \<open>config\<close>: the
  client library (\<open>X11_t\<close>, \<open>FS_t\<close>, ...), IPv6, \<open>poll\<close>, descriptor passing, socket activation.

  \<^bold>\<open>Theories.\<close>

  \<^item> \<open>Prelude\<close>: C integer types, lemmas on bits, the collections of facts.
  \<^item> \<open>Cec\<close>, \<open>Cec_Types\<close>, \<open>Cec_Msg1\<close>, \<open>Cec_Msg2\<close>, \<open>Cec_Msg3\<close>: \<open>struct cec_msg\<close> and every function of the two
    headers, in their order, each builder with the lemma that it keeps a message well formed.
    \<open>Cec_Build\<close>: messages reachable by any sequence of builder calls, and the contract of a
    builder with its parser as a locale. \<open>Cec_Props\<close>: what parsers make of built messages.
  \<^item> \<open>OS\<close>, \<open>CStrings\<close>: system calls, the heap, weakest preconditions; strings and numbers of C.
  \<^item> \<open>Xtransint\<close>: connections, transports, tables, flags. \<open>Xtransutil\<close>: \<open>ConvertAddress\<close>, the network ids,
    \<open>trans_mkdir\<close>. \<open>FdQueue\<close>: the descriptor queues, as the linked nodes of the code and
    as lists, with the locale \<open>fd_queue\<close> of what a queue promises, interpreted on the linked nodes.
  \<^item> \<open>SockOpen\<close>, \<open>SockListen\<close>, \<open>SockIO\<close>, \<open>SockConn\<close>: \<open>Xtranssock.c\<close> in the order of its functions.
  \<^item> \<open>XtransParse\<close>, \<open>XtransFlags\<close>, \<open>Xtrans\<close>: \<open>Xtrans.c\<close>; the functions of its interface carry the prefix \<open>Trans\<close>.
  \<^item> \<open>ListenProps\<close>, \<open>ConnProps\<close>, \<open>ParseProps\<close>: outcomes of listening, connecting and parsing on every branch.
    \<open>Frames\<close>, \<open>FlagProps\<close>: which operations keep a property of the flags (locale \<open>flag_invariant\<close>) and
    the flags in every reachable state. \<open>ConnLife\<close>, \<open>Session\<close>, \<open>ServerProps\<close>: accounts of blocks and
    descriptors over the life of client and server connections, and the set of listeners.
    \<open>VectorProps\<close>: the emulated \<open>writev\<close>.
  \<^item> \<open>Tipc\<close>, \<open>Virtio\<close>: the two headers with their theorems.
  \<^item> \<open>Queue_Macros\<close>: the six families of queue macros on a memory of heads and entries. \<open>Queue_Spec\<close>: the
    abstract queues (lists of elements, each element on at most one), the rules of use, and two
    locales: \<open>queue_macros\<close>, a family that follows the lists, and \<open>local_queue\<close>, a family whose
    effect stays in its own list, shown to be one of the former by \<open>sublocale\<close>. \<open>Queue_Links\<close>, \<open>Queue_Circle\<close>: the
    representation of each family and its interpretation. \<open>Queue_Props\<close>: every allowed sequence
    of macros runs without a null pointer and the iteration gives the list.
  \<^item> \<open>Netlink\<close>: the walks, with the locale \<open>buffer_walk\<close> of a check and a step that stay in the
    buffer, interpreted on attributes and on messages. \<open>Netfilter\<close>: the iterators visit each entry of
    a well-formed table once, in order, stop where the callback does, and return; chunk maps are sets.
  \<^item> \<open>Bit_Arrays\<close>: sets as arrays of words, with the locale \<open>bit_set\<close> of what such a set promises, interpreted on
    chunk maps (\<open>Netfilter\<close>), descriptors (\<open>Fd_Sets\<close>) and processors (\<open>Cpu_Sets\<close>). One access concerns one element and is
    refused or undefined outside of the set; operations on whole sets are those on sets, also in place.
  \<^item> \<open>Search\<close>: the search returns, and finds an element if there is one. \<open>Wait_Status\<close>: the tests exclude each other
    and undo the constructors.
  \<^item> \<open>Region\<close>: adding rectangles gives their union, in bounds. \<open>Xlib_Requests\<close>: the bytes that reach the server are
    those that were put in, and the length that it reads is that of the request. \<open>Xlib_Fonts\<close>: the lookup stays
    in the array. \<open>Gc_Inline\<close>: in every reachable state of a client no object is handed out twice.
  \<^item> \<open>Bcache\<close>: the locale \<open>bit_fields\<close> of getters and setters that do not disturb each other, interpreted on keys
    and both kinds of superblock; walks over packed keys. \<open>Usb\<close>: the kind of an endpoint is
    told by exactly one predicate; the fields of a processing unit do not overlap and fill it.
  \<^item> \<open>Swab\<close>: all variants agree with the reversal of bytes and undo themselves. \<open>Encodings\<close>: packing and
    unpacking are inverse, on the whole width or within the bounds that are stated.

  \<^bold>\<open>Loops.\<close> Every loop is a terminating function: the retries of \<open>bind\<close> count down from 20, the search for a
    socket family and for an address goes through finite tables, the alias walk follows names of
    decreasing rank, the emulated vectors consume their buffers. The walks over linked nodes, of the
    descriptor queues and of \<open>sys/queue.h\<close>, the walks over buffers, tables and keys, whose steps are
    read from the data, the binary search and the refilling of free lists are \<open>partial_function (option)\<close>, since on a cyclic list or a step of zero
    they would not end; for the data that the code is meant for they are shown to return. There is no fuel.

  \<^bold>\<open>Not modelled.\<close> \<open>Xtranslcl.c\<close> is only built with \<open>LOCALCONN\<close>, for the STREAMS transports of Solaris, SCO
  and SVR4, which no Linux build has; \<open>transport.c\<close> only includes the other files; code under
  \<open>WIN32\<close> and \<open>HAVE_LAUNCHD\<close>, debug output (\<open>prmsg\<close>), signals and threads are left out. The
  widget templates of Xaw have empty methods. Of the netfilter headers, the macros that are only the head of
  a \<open>for\<close> statement and \<open>SCTP_CHUNKMAP_COPY\<close> are left out. The macros of \<open>Xlibint.h\<close> that only call \<open>_XGetRequest\<close> and the
  fortified wrappers of the C library that choose between two of its functions (\<open>bits/unistd.h\<close>, \<open>bits/stdio2.h\<close>) are left out. The other headers have declarations, constants and
  structures and no code, or single accessors of one line.
\<close>

end
